(* ===== verification/Prelude.thy ===== *)
theory Prelude
  imports Main "HOL-Library.AList" "HOL-Library.Char_ord" "HOL-Library.List_Lexorder"
    "HOL-Library.Product_Lexorder"
begin

text \<open>
  Shared vocabulary of the development: Go strings and the functions of the packages
  \<open>strings\<close>, \<open>bytes\<close>, \<open>bufio\<close> and \<open>strconv\<close> that the plugin calls, time values, errors, and the
  generic lemmas on lists and association lists that several components use.

  A Go string or byte slice is a \<^typ>\<open>string\<close> (a list of 8-bit characters, so lengths and
  indices count bytes as they do in Go). An instant (\<open>time.Time\<close>) is the number of
  nanoseconds since the Unix epoch and a \<open>time.Duration\<close> a number of nanoseconds, both as
  \<^typ>\<open>int\<close>; the zero \<open>time.Time\<close> is \<open>zero_time\<close>. A Go map from strings is an association
  list with distinct keys, updated with \<^const>\<open>AList.update\<close>.
\<close>

named_theorems str_simps \<open>facts about prefixes, suffixes, trimming and splitting\<close>
named_theorems inv_intros \<open>preservation of component invariants\<close>

type_synonym time = int
type_synonym duration = int
type_synonym smap = "(string \<times> string) list"

abbreviation ns_per_sec :: int where "ns_per_sec \<equiv> 1000000000"

definition second :: duration where "second = ns_per_sec"
definition minute :: duration where "minute = 60 * ns_per_sec"
definition hour :: duration where "hour = 3600 * ns_per_sec"

text \<open>The zero \<open>time.Time\<close> is January 1 of year 1, 00:00 UTC.\<close>

definition zero_time :: time where
  "zero_time = - 62135596800 * ns_per_sec"

definition is_zero :: "time \<Rightarrow> bool" where
  "is_zero t \<longleftrightarrow> t = zero_time"

subsection \<open>Errors\<close>

text \<open>
  A Go error is its kind, which \<open>errors.Is\<close> looks through wrapping to find, and its message.
  \<open>fmt.Errorf("p: %w", err)\<close> keeps the kind and prefixes the message.
\<close>

datatype err_kind = NotFound | DbFailure | NoRows | CtxCanceled | Unimplemented | OtherErr

datatype err = Err (ekind: err_kind) (emsg: string)

definition err_not_found :: err where
  "err_not_found = Err NotFound ''not found''"

definition wrapf :: "string \<Rightarrow> err \<Rightarrow> err" where
  "wrapf p e = Err (ekind e) (p @ '': '' @ emsg e)"

definition is_not_found :: "err \<Rightarrow> bool" where
  "is_not_found e \<longleftrightarrow> ekind e = NotFound"

lemma is_not_found_wrapf [simp]: "is_not_found (wrapf p e) = is_not_found e"
  by (simp add: is_not_found_def wrapf_def)

lemma is_not_found_simps [simp]:
  "is_not_found err_not_found"
  "is_not_found (Err k m) = (k = NotFound)"
  by (simp_all add: is_not_found_def err_not_found_def)

subsection \<open>Prefixes and suffixes\<close>

definition has_prefix :: "string \<Rightarrow> string \<Rightarrow> bool" where
  "has_prefix s p \<longleftrightarrow> take (length p) s = p"

definition has_suffix :: "string \<Rightarrow> string \<Rightarrow> bool" where
  "has_suffix s p \<longleftrightarrow> has_prefix (rev s) (rev p)"

definition trim_prefix :: "string \<Rightarrow> string \<Rightarrow> string" where
  "trim_prefix s p = (if has_prefix s p then drop (length p) s else s)"

definition trim_suffix :: "string \<Rightarrow> string \<Rightarrow> string" where
  "trim_suffix s p = (if has_suffix s p then take (length s - length p) s else s)"

lemma has_prefix_append [str_simps, simp]: "has_prefix (p @ s) p"
  by (simp add: has_prefix_def)

lemma has_prefix_iff: "has_prefix s p \<longleftrightarrow> (\<exists>r. s = p @ r)"
proof
  assume "has_prefix s p"
  then have "s = p @ drop (length p) s"
    by (metis append_take_drop_id has_prefix_def)
  then show "\<exists>r. s = p @ r" ..
qed (auto simp: has_prefix_def)

lemma has_suffix_iff: "has_suffix s p \<longleftrightarrow> (\<exists>r. s = r @ p)"
proof
  assume "has_suffix s p"
  then obtain r where "rev s = rev p @ r"
    by (auto simp: has_suffix_def has_prefix_iff)
  then have "s = rev r @ p"
    by (metis rev_append rev_rev_ident)
  then show "\<exists>r. s = r @ p" ..
next
  assume "\<exists>r. s = r @ p"
  then show "has_suffix s p"
    by (auto simp: has_suffix_def has_prefix_iff)
qed

lemma trim_prefix_append [str_simps, simp]: "trim_prefix (p @ s) p = s"
  by (simp add: trim_prefix_def)

lemma has_prefix_Nil [simp]: "has_prefix s []"
  by (simp add: has_prefix_def)

lemma has_prefix_Nil_left [simp]: "has_prefix [] p = (p = [])"
  by (auto simp: has_prefix_def)

lemma has_prefix_Cons [simp]: "has_prefix (c # s) (d # p) = (c = d \<and> has_prefix s p)"
  by (auto simp: has_prefix_def)

lemma length_has_prefix: "has_prefix s p \<Longrightarrow> length p \<le> length s"
  by (auto simp: has_prefix_iff)

subsection \<open>Searching and splitting\<close>

text \<open>\<open>strings.IndexByte\<close> and \<open>strings.LastIndexByte\<close>: \<open>None\<close> is the code's \<open>-1\<close>.\<close>

fun index_byte :: "string \<Rightarrow> char \<Rightarrow> nat option" where
  "index_byte [] c = None"
| "index_byte (x # xs) c = (if x = c then Some 0 else map_option Suc (index_byte xs c))"

definition last_index_byte :: "string \<Rightarrow> char \<Rightarrow> nat option" where
  "last_index_byte s c =
     (case index_byte (rev s) c of None \<Rightarrow> None | Some i \<Rightarrow> Some (length s - 1 - i))"

lemma index_byte_None [simp]: "index_byte s c = None \<longleftrightarrow> c \<notin> set s"
  by (induction s) auto

lemma index_byte_append:
  "c \<notin> set s \<Longrightarrow> index_byte (s @ c # t) c = Some (length s)"
  by (induction s) auto

lemma index_byte_Some:
  "index_byte s c = Some i \<Longrightarrow> \<exists>a b. s = a @ c # b \<and> length a = i \<and> c \<notin> set a"
proof (induction s arbitrary: i)
  case (Cons x xs)
  show ?case
  proof (cases "x = c")
    case True
    with Cons.prems have "x # xs = [] @ c # xs \<and> length ([] :: string) = i \<and> c \<notin> set []"
      by auto
    then show ?thesis by blast
  next
    case False
    with Cons.prems obtain j where j: "index_byte xs c = Some j" "i = Suc j" by auto
    from Cons.IH [OF j(1)] obtain a b where "xs = a @ c # b" "length a = j" "c \<notin> set a"
      by blast
    with False j(2) have "x # xs = (x # a) @ c # b \<and> length (x # a) = i \<and> c \<notin> set (x # a)"
      by auto
    then show ?thesis by blast
  qed
qed simp

lemma last_index_byte_append:
  "c \<notin> set t \<Longrightarrow> last_index_byte (s @ c # t) c = Some (length s)"
  by (simp add: last_index_byte_def index_byte_append)

lemma last_index_byte_None [simp]: "last_index_byte s c = None \<longleftrightarrow> c \<notin> set s"
  using index_byte_None [of "rev s" c]
  by (cases "index_byte (rev s) c") (auto simp: last_index_byte_def simp del: index_byte_None)

lemma last_index_byte_Some:
  "last_index_byte s c = Some i \<Longrightarrow> \<exists>a b. s = a @ c # b \<and> length a = i \<and> c \<notin> set b"
proof -
  assume "last_index_byte s c = Some i"
  then obtain j where j: "index_byte (rev s) c = Some j" and i: "i = length s - 1 - j"
    by (auto simp: last_index_byte_def split: option.splits)
  from index_byte_Some [OF j] obtain a b where ab: "rev s = a @ c # b" "length a = j" "c \<notin> set a"
    by blast
  then have "s = rev b @ c # rev a"
    by (metis append.assoc append_Cons append_Nil rev.simps(2) rev_append rev_rev_ident)
  moreover from this ab i have "length (rev b) = i" by simp
  ultimately show ?thesis using ab(3) by (intro exI [of _ "rev b"] exI [of _ "rev a"]) auto
qed

text \<open>\<open>strings.SplitN(s, sep, 2)\<close> for a one-byte separator: the second part is absent when the
  separator does not occur.\<close>

definition split2 :: "string \<Rightarrow> char \<Rightarrow> string \<times> string option" where
  "split2 s c =
     (case index_byte s c of None \<Rightarrow> (s, None) | Some i \<Rightarrow> (take i s, Some (drop (Suc i) s)))"

lemma index_byte_absent: "c \<notin> set s \<Longrightarrow> index_byte s c = None"
  by simp

lemma split2_append [str_simps]: "c \<notin> set s \<Longrightarrow> split2 (s @ c # t) c = (s, Some t)"
  by (simp add: split2_def index_byte_append)

lemma split2_Some: "split2 s c = (a, Some b) \<Longrightarrow> s = a @ c # b \<and> c \<notin> set a"
  by (auto simp: split2_def split: option.splits dest!: index_byte_Some)

text \<open>\<open>strings.Split\<close> on a one-byte separator (never empty).\<close>

fun split_all :: "string \<Rightarrow> char \<Rightarrow> string list" where
  "split_all [] c = [[]]"
| "split_all (x # xs) c =
     (if x = c then [] # split_all xs c
      else case split_all xs c of [] \<Rightarrow> [[x]] | p # ps \<Rightarrow> (x # p) # ps)"

text \<open>\<open>strings.Contains\<close>.\<close>

fun contains :: "string \<Rightarrow> string \<Rightarrow> bool" where
  "contains [] p = (p = [])"
| "contains (x # xs) p = (has_prefix (x # xs) p \<or> contains xs p)"

lemma contains_prefix: "has_prefix s p \<Longrightarrow> contains s p"
  by (cases s) auto

lemma contains_iff: "contains s p \<longleftrightarrow> (\<exists>a b. s = a @ p @ b)"
proof
  show "contains s p \<Longrightarrow> \<exists>a b. s = a @ p @ b"
  proof (induction s)
    case (Cons x xs)
    then consider "has_prefix (x # xs) p" | "contains xs p" by auto
    then show ?case
    proof cases
      case 1
      then show ?thesis by (metis append_Nil has_prefix_iff)
    next
      case 2
      with Cons.IH obtain a b where "xs = a @ p @ b" by blast
      then have "x # xs = (x # a) @ p @ b" by simp
      then show ?thesis by blast
    qed
  qed auto
next
  assume "\<exists>a b. s = a @ p @ b"
  then obtain a b where "s = a @ p @ b" by blast
  then show "contains s p"
  proof (induction a arbitrary: s)
    case Nil
    then show ?case by (auto intro: contains_prefix)
  qed auto
qed

subsection \<open>Character classes, case, trimming\<close>

abbreviation code :: "char \<Rightarrow> nat" where "code c \<equiv> of_char c"

abbreviation LF :: char where "LF \<equiv> CHR 0x0A"
abbreviation CR :: char where "CR \<equiv> CHR 0x0D"
abbreviation TAB :: char where "TAB \<equiv> CHR 0x09"
abbreviation QUOTE :: char where "QUOTE \<equiv> CHR 0x22"

definition is_digit :: "char \<Rightarrow> bool" where
  "is_digit c \<longleftrightarrow> 48 \<le> code c \<and> code c \<le> 57"

definition is_upper :: "char \<Rightarrow> bool" where
  "is_upper c \<longleftrightarrow> 65 \<le> code c \<and> code c \<le> 90"

definition is_lower :: "char \<Rightarrow> bool" where
  "is_lower c \<longleftrightarrow> 97 \<le> code c \<and> code c \<le> 122"

definition is_ascii :: "char \<Rightarrow> bool" where
  "is_ascii c \<longleftrightarrow> code c < 128"

text \<open>\<open>strings.ToLower\<close> on ASCII text; bytes of other characters are kept.\<close>

definition lower_char :: "char \<Rightarrow> char" where
  "lower_char c = (if is_upper c then char_of (code c + 32) else c)"

definition to_lower :: "string \<Rightarrow> string" where
  "to_lower s = map lower_char s"

lemma lower_char_idem [simp]: "lower_char (lower_char c) = lower_char c"
  by (simp add: lower_char_def is_upper_def)

lemma to_lower_idem [simp]: "to_lower (to_lower s) = to_lower s"
  by (simp add: to_lower_def)

lemma length_to_lower [simp]: "length (to_lower s) = length s"
  by (simp add: to_lower_def)

text \<open>
  \<open>strings.TrimSpace\<close> removes Unicode white space at both ends: \<open>space_runes\<close> are the UTF-8
  encodings of the code points for which \<open>unicode.IsSpace\<close> holds.
\<close>

definition space_runes :: "string list" where
  "space_runes =
     [[CHR 0x09], [CHR 0x0A], [CHR 0x0B], [CHR 0x0C], [CHR 0x0D], [CHR 0x20],
      [CHR 0xC2, CHR 0x85], [CHR 0xC2, CHR 0xA0],
      [CHR 0xE1, CHR 0x9A, CHR 0x80],
      [CHR 0xE2, CHR 0x80, CHR 0x80], [CHR 0xE2, CHR 0x80, CHR 0x81],
      [CHR 0xE2, CHR 0x80, CHR 0x82], [CHR 0xE2, CHR 0x80, CHR 0x83],
      [CHR 0xE2, CHR 0x80, CHR 0x84], [CHR 0xE2, CHR 0x80, CHR 0x85],
      [CHR 0xE2, CHR 0x80, CHR 0x86], [CHR 0xE2, CHR 0x80, CHR 0x87],
      [CHR 0xE2, CHR 0x80, CHR 0x88], [CHR 0xE2, CHR 0x80, CHR 0x89],
      [CHR 0xE2, CHR 0x80, CHR 0x8A], [CHR 0xE2, CHR 0x80, CHR 0xA8],
      [CHR 0xE2, CHR 0x80, CHR 0xA9], [CHR 0xE2, CHR 0x80, CHR 0xAF],
      [CHR 0xE2, CHR 0x81, CHR 0x9F], [CHR 0xE3, CHR 0x80, CHR 0x80]]"

function strip_any :: "string list \<Rightarrow> string \<Rightarrow> string" where
  "strip_any ws s =
     (case find (\<lambda>w. w \<noteq> [] \<and> has_prefix s w) ws of
        None \<Rightarrow> s
      | Some w \<Rightarrow> strip_any ws (drop (length w) s))"
  by pat_completeness auto
termination
proof (relation "measure (\<lambda>(ws, s). length s)")
  fix ws :: "string list" and s w :: string
  assume "find (\<lambda>w. w \<noteq> [] \<and> has_prefix s w) ws = Some w"
  then have "w \<noteq> [] \<and> has_prefix s w"
    by (auto simp: find_Some_iff)
  then have "0 < length w" and "length w \<le> length s"
    by (auto dest: length_has_prefix)
  then have "length s - length w < length s" by linarith
  then show "((ws, drop (length w) s), ws, s) \<in> measure (\<lambda>(ws, s). length s)"
    by simp
qed simp

declare strip_any.simps [simp del]

lemma strip_any_None:
  "find (\<lambda>w. w \<noteq> [] \<and> has_prefix s w) ws = None \<Longrightarrow> strip_any ws s = s"
  by (simp add: strip_any.simps)

lemma strip_any_Some:
  "find (\<lambda>w. w \<noteq> [] \<and> has_prefix s w) ws = Some v \<Longrightarrow>
   strip_any ws s = strip_any ws (drop (length v) s)"
  by (subst strip_any.simps) simp

definition trim_left_space :: "string \<Rightarrow> string" where
  "trim_left_space s = strip_any space_runes s"

definition trim_right_space :: "string \<Rightarrow> string" where
  "trim_right_space s = rev (strip_any (map rev space_runes) (rev s))"

definition trim_space :: "string \<Rightarrow> string" where
  "trim_space s = trim_right_space (trim_left_space s)"

text \<open>A string that neither starts nor ends with white space is left alone.\<close>

definition trimmed :: "string \<Rightarrow> bool" where
  "trimmed s \<longleftrightarrow> (\<forall>w \<in> set space_runes. \<not> has_prefix s w \<and> \<not> has_suffix s w)"

lemma strip_any_id: "\<forall>w \<in> set ws. \<not> has_prefix s w \<Longrightarrow> strip_any ws s = s"
  by (rule strip_any_None) (auto simp: find_None_iff)

lemma trim_space_trimmed [str_simps]: "trimmed s \<Longrightarrow> trim_space s = s"
  by (simp add: trim_space_def trim_left_space_def trim_right_space_def trimmed_def
      strip_any_id has_suffix_def)

lemma strip_any_no_prefix: "w \<in> set ws \<Longrightarrow> w \<noteq> [] \<Longrightarrow> \<not> has_prefix (strip_any ws s) w"
proof (induction ws s rule: strip_any.induct)
  case (1 ws s)
  show ?case
  proof (cases "find (\<lambda>w. w \<noteq> [] \<and> has_prefix s w) ws")
    case None
    with "1.prems" show ?thesis by (auto simp: strip_any_None find_None_iff)
  next
    case (Some v)
    with 1 show ?thesis by (simp add: strip_any_Some)
  qed
qed

lemma strip_any_suffix: "\<exists>p. s = p @ strip_any ws s"
proof (induction ws s rule: strip_any.induct)
  case (1 ws s)
  show ?case
  proof (cases "find (\<lambda>w. w \<noteq> [] \<and> has_prefix s w) ws")
    case None
    then show ?thesis by (simp add: strip_any_None)
  next
    case (Some v)
    with "1.IH" obtain p where "drop (length v) s = p @ strip_any ws (drop (length v) s)"
      by blast
    then have "s = (take (length v) s @ p) @ strip_any ws (drop (length v) s)"
      by (metis append.assoc append_take_drop_id)
    then have "s = (take (length v) s @ p) @ strip_any ws s"
      using Some by (simp add: strip_any_Some)
    then show ?thesis ..
  qed
qed

lemma Nil_notin_space_runes [simp]: "[] \<notin> set space_runes"
  by (simp add: space_runes_def)

text \<open>Bytes that no white-space encoding contains.\<close>

definition solid :: "char \<Rightarrow> bool" where
  "solid c \<longleftrightarrow> list_all (\<lambda>w. c \<notin> set w) space_runes"

lemma solid_simps [simp]:
  "solid (CHR ''#'')" "solid (CHR '','')" "solid QUOTE" "solid (CHR ''1'')" "solid (CHR ''-'')"
  "solid (CHR ''.'')" "solid (CHR ''/'')"
  by (simp_all add: solid_def space_runes_def)

lemma has_suffix_solid: "c \<notin> set w \<Longrightarrow> has_suffix (p @ c # t) w \<Longrightarrow> has_suffix t w"
  by (auto simp: has_suffix_iff append_eq_append_conv2 Cons_eq_append_conv)

lemma trimmed_between:
  assumes "solid a" "solid c" "trimmed t"
  shows "trimmed (a # p @ c # t)"
  unfolding trimmed_def
proof (intro ballI conjI)
  fix w
  assume w: "w \<in> set space_runes"
  then have "a \<notin> set w" "c \<notin> set w" "w \<noteq> []"
    using assms(1,2) Nil_notin_space_runes by (auto simp: solid_def list_all_iff)
  then show "\<not> has_prefix (a # p @ c # t) w" by (cases w) auto
  have "\<not> has_suffix t w" using assms(3) w by (simp add: trimmed_def)
  then show "\<not> has_suffix (a # p @ c # t) w"
    using has_suffix_solid [OF \<open>c \<notin> set w\<close>, of "a # p" t] by auto
qed

lemma trimmed_Nil [simp]: "trimmed []"
  using Nil_notin_space_runes by (auto simp: trimmed_def has_suffix_def)

lemma trimmed_solid: "list_all solid s \<Longrightarrow> trimmed s"
  unfolding trimmed_def
proof (intro ballI conjI)
  fix w
  assume h: "list_all solid s" "w \<in> set space_runes"
  then have "w \<noteq> []" "\<forall>c \<in> set s. c \<notin> set w"
    using Nil_notin_space_runes by (auto simp: solid_def list_all_iff)
  then show "\<not> has_prefix s w" "\<not> has_suffix s w"
    by (auto simp: has_prefix_iff has_suffix_iff neq_Nil_conv)
qed

text \<open>\<open>strings.TrimRight(s, cutset)\<close> and \<open>strings.Trim(s, cutset)\<close> for ASCII cutsets.\<close>

definition trim_right :: "char set \<Rightarrow> string \<Rightarrow> string" where
  "trim_right cs s = rev (dropWhile (\<lambda>c. c \<in> cs) (rev s))"

definition trim_both :: "char set \<Rightarrow> string \<Rightarrow> string" where
  "trim_both cs s = trim_right cs (dropWhile (\<lambda>c. c \<in> cs) s)"

lemma trim_right_id [str_simps]: "s = [] \<or> last s \<notin> cs \<Longrightarrow> trim_right cs s = s"
proof (cases s rule: rev_cases)
  case (snoc ys y)
  assume "s = [] \<or> last s \<notin> cs"
  with snoc show ?thesis by (simp add: trim_right_def)
qed (simp add: trim_right_def)

subsection \<open>Lines: \<open>bufio.Scanner\<close> with \<open>bufio.ScanLines\<close>\<close>

text \<open>
  The scanner returns the text between line feeds, with one carriage return before the line
  feed removed; the last line counts when it is not empty. A line of \<open>mx\<close> bytes or more
  (1 MiB for every scanner of the plugin) does not fit the buffer: the scanner stops there and
  reports \<open>bufio.ErrTooLong\<close>, the second component.
\<close>

fun raw_lines :: "string \<Rightarrow> string \<Rightarrow> string list" where
  "raw_lines acc [] = (if acc = [] then [] else [rev acc])"
| "raw_lines acc (c # cs) =
     (if c = LF then rev acc # raw_lines [] cs else raw_lines (c # acc) cs)"

definition drop_cr :: "string \<Rightarrow> string" where
  "drop_cr l = (if l \<noteq> [] \<and> last l = CR then butlast l else l)"

definition scan_lines :: "nat \<Rightarrow> string \<Rightarrow> string list \<times> bool" where
  "scan_lines mx s =
     (let ls = raw_lines [] s; ok = takeWhile (\<lambda>l. length l < mx) ls
      in (map drop_cr ok, length ok < length ls))"

text \<open>The scanners' maximal token size, 1 MiB.\<close>

definition max_token :: nat where
  "max_token = 1024 * 1024"

definition unlines :: "string list \<Rightarrow> string" where
  "unlines ls = concat (map (\<lambda>l. l @ [LF]) ls)"

lemma raw_lines_line: "LF \<notin> set l \<Longrightarrow> raw_lines acc (l @ LF # s) = (rev acc @ l) # raw_lines [] s"
  by (induction l arbitrary: acc) auto

lemma raw_lines_unlines: "\<forall>l \<in> set ls. LF \<notin> set l \<Longrightarrow> raw_lines [] (unlines ls) = ls"
  by (induction ls) (simp_all add: unlines_def raw_lines_line)

lemma drop_cr_id: "CR \<notin> set l \<Longrightarrow> drop_cr l = l"
  unfolding drop_cr_def by (metis last_in_set)

lemma map_drop_cr_id: "\<forall>l \<in> set ls. CR \<notin> set l \<Longrightarrow> map drop_cr ls = ls"
  by (induction ls) (auto simp: drop_cr_id)

lemma scan_lines_unlines [str_simps]:
  assumes "\<forall>l \<in> set ls. LF \<notin> set l \<and> CR \<notin> set l \<and> length l < mx"
  shows "scan_lines mx (unlines ls) = (ls, False)"
proof -
  have tw: "takeWhile (\<lambda>l. length l < mx) ls = ls"
    using assms by (simp add: takeWhile_eq_all_conv)
  show ?thesis
    using assms by (simp add: scan_lines_def raw_lines_unlines map_drop_cr_id Let_def tw)
qed

subsection \<open>Integers: \<open>strconv.Atoi\<close>, \<open>%d\<close> and 64-bit wrap-around\<close>

text \<open>The plugin is built for 64-bit platforms: \<open>int\<close> and \<open>int64\<close> have the same range.\<close>

definition in_int64 :: "int \<Rightarrow> bool" where
  "in_int64 i \<longleftrightarrow> - (2 ^ 63) \<le> i \<and> i < 2 ^ 63"

definition wrap64 :: "int \<Rightarrow> int" where
  "wrap64 i = (i + 2 ^ 63) mod 2 ^ 64 - 2 ^ 63"

lemma wrap64_in [simp]: "in_int64 (wrap64 i)"
  by (simp add: in_int64_def wrap64_def)

lemma wrap64_id: "in_int64 i \<Longrightarrow> wrap64 i = i"
  by (simp add: in_int64_def wrap64_def)

fun dec_digits :: "nat \<Rightarrow> string" where
  "dec_digits n =
     (if n < 10 then [char_of (48 + n)] else dec_digits (n div 10) @ [char_of (48 + n mod 10)])"

declare dec_digits.simps [simp del]

definition itoa :: "int \<Rightarrow> string" where
  "itoa i = (if i < 0 then CHR ''-'' # dec_digits (nat (- i)) else dec_digits (nat i))"

definition dec_val :: "string \<Rightarrow> nat" where
  "dec_val s = foldl (\<lambda>a c. 10 * a + (code c - 48)) 0 s"

definition parse_dec :: "string \<Rightarrow> nat option" where
  "parse_dec s = (if s = [] \<or> \<not> list_all is_digit s then None else Some (dec_val s))"

definition atoi :: "string \<Rightarrow> int option" where
  "atoi s =
     (let (neg, ds) =
        (if has_prefix s ''-'' then (True, tl s)
         else if has_prefix s ''+'' then (False, tl s) else (False, s))
      in case parse_dec ds of
           None \<Rightarrow> None
         | Some n \<Rightarrow> (let i = (if neg then - int n else int n) in
             if in_int64 i then Some i else None))"

lemma dec_digits_Suc10: "10 \<le> n \<Longrightarrow> dec_digits n = dec_digits (n div 10) @ [char_of (48 + n mod 10)]"
  by (subst dec_digits.simps) simp

lemma code_digit [simp]: "n < 10 \<Longrightarrow> code (char_of (48 + n :: nat)) = 48 + n"
  by simp

lemma dec_digits_digits: "list_all is_digit (dec_digits n)"
proof (induction n rule: dec_digits.induct)
  case (1 n)
  then show ?case
    by (cases "n < 10") (simp_all add: dec_digits.simps [of n] is_digit_def)
qed

lemma dec_digits_nonempty [simp]: "dec_digits n \<noteq> []"
  by (subst dec_digits.simps) simp

lemma dec_val_digits: "dec_val (dec_digits n) = n"
proof (induction n rule: dec_digits.induct)
  case (1 n)
  then show ?case
    by (cases "n < 10") (simp_all add: dec_digits.simps [of n] dec_val_def)
qed

lemma parse_dec_digits [simp]: "parse_dec (dec_digits n) = Some n"
  by (simp add: parse_dec_def dec_digits_digits dec_val_digits)

lemma solid_digit: "is_digit c \<Longrightarrow> solid c"
  by (auto simp: solid_def space_runes_def is_digit_def)

lemma digit_not_sign: "is_digit c \<Longrightarrow> c \<noteq> CHR ''-'' \<and> c \<noteq> CHR ''+''"
  by (auto simp: is_digit_def)

lemma has_prefix_digits:
  "\<not> has_prefix (dec_digits n) ''-''" "\<not> has_prefix (dec_digits n) ''+''"
proof -
  obtain c cs where "dec_digits n = c # cs" by (cases "dec_digits n") auto
  with dec_digits_digits [of n] digit_not_sign [of c]
  show "\<not> has_prefix (dec_digits n) ''-''" "\<not> has_prefix (dec_digits n) ''+''" by auto
qed

lemma itoa_solid: "list_all solid (itoa i)"
  using dec_digits_digits solid_digit by (auto simp: itoa_def list_all_iff)

lemma itoa_bytes: "c \<in> set (itoa i) \<Longrightarrow> is_digit c \<or> c = CHR ''-''"
  using dec_digits_digits by (auto simp: itoa_def list_all_iff split: if_splits)

lemma itoa_nonempty [simp]: "itoa i \<noteq> []"
  by (simp add: itoa_def)

text \<open>Printing and reading an \<open>int\<close> is the identity.\<close>

lemma atoi_itoa: "in_int64 i \<Longrightarrow> atoi (itoa i) = Some i"
  by (auto simp: atoi_def itoa_def has_prefix_digits Let_def)

end
