(* ===== verification/M3u.thy ===== *)
theory M3u
  imports Prelude
begin

text \<open>
  The playlist parser of \<open>src/internal/m3u/parser.go\<close>: \<open>parseAttrs\<close>, \<open>parseExtinf\<close> and
  \<open>Parse\<close>. The reader is its bytes together with the error, if any, that reading ends with.
  The index loops of \<open>parseAttrs\<close> are a recursion on the text that is left, which gets
  shorter in every iteration. The lemmas show what a parsed playlist holds, when parsing fails,
  and that a playlist written in the usual form is read back exactly.
\<close>

section \<open>The parser\<close>

record entry =
  TvgID :: string
  TvgName :: string
  TvgLogo :: string
  TvgChno :: string
  TvgShift :: string
  GroupTitle :: string
  Title :: string
  URL :: string
  Attrs :: smap

definition utf8BOM :: string where
  "utf8BOM = [CHR 0xEF, CHR 0xBB, CHR 0xBF]"

text \<open>Reading a Go map: a missing key yields the empty string.\<close>

definition get0 :: "smap \<Rightarrow> string \<Rightarrow> string" where
  "get0 m k = (case map_of m k of None \<Rightarrow> [] | Some v \<Rightarrow> v)"

text \<open>The bytes the four inner loops run over.\<close>

definition blank :: "char \<Rightarrow> bool" where
  "blank c \<longleftrightarrow> c = CHR '' '' \<or> c = TAB"

definition non_blank :: "char \<Rightarrow> bool" where
  "non_blank c \<longleftrightarrow> \<not> blank c"

definition key_byte :: "char \<Rightarrow> bool" where
  "key_byte c \<longleftrightarrow> c \<noteq> CHR ''='' \<and> \<not> blank c"

definition non_quote :: "char \<Rightarrow> bool" where
  "non_quote c \<longleftrightarrow> c \<noteq> QUOTE"

definition put_attr :: "string \<Rightarrow> string \<Rightarrow> smap \<Rightarrow> smap" where
  "put_attr k v m = (if k \<noteq> [] then AList.update k v m else m)"

function attr_loop :: "string \<Rightarrow> smap \<Rightarrow> smap" where
  "attr_loop s attrs =
     (let s1 = dropWhile blank s in
      if s1 = [] then attrs
      else
        let key = takeWhile key_byte s1; s2 = dropWhile key_byte s1 in
          if s2 = [] \<or> hd s2 \<noteq> CHR ''='' then attr_loop (dropWhile non_blank s2) attrs
          else
            let s3 = tl s2 in
            if s3 = [] then attrs
            else if hd s3 \<noteq> QUOTE then
              attr_loop (dropWhile non_blank s3)
                (put_attr key (takeWhile non_blank s3) attrs)
            else
              attr_loop (tl (dropWhile non_quote (tl s3)))
                (put_attr key (takeWhile non_quote (tl s3)) attrs))"
  by pat_completeness auto

lemma dropWhile_keeps: "xs \<noteq> [] \<Longrightarrow> \<not> P (hd xs) \<Longrightarrow> dropWhile P xs = xs"
  by (cases xs) auto

lemma dropWhile_shorter: "xs \<noteq> [] \<Longrightarrow> P (hd xs) \<Longrightarrow> length (dropWhile P xs) < length xs"
  by (cases xs) (auto intro: le_imp_less_Suc length_dropWhile_le)

text \<open>Every iteration of the loop leaves less text.\<close>

lemma attr_key_shorter:
  assumes s1: "s1 = dropWhile blank s" "s1 \<noteq> []"
    and s2: "s2 = dropWhile key_byte s1" "s2 = [] \<or> hd s2 \<noteq> CHR ''=''"
  shows "length (dropWhile non_blank s2) < length s"
proof (cases "s2 = []")
  case True
  with s1 show ?thesis by (cases s) auto
next
  case False
  then have "\<not> key_byte (hd s2)" using s2(1) hd_dropWhile by blast
  with False s2(2) have b: "blank (hd s2)" by (auto simp: key_byte_def)
  have "key_byte (hd s1)"
  proof (rule ccontr)
    assume "\<not> key_byte (hd s1)"
    then have "s2 = s1" using s1(2) s2(1) dropWhile_keeps by blast
    then show False using b s1 hd_dropWhile by blast
  qed
  then have "length s2 < length s1"
    unfolding s2(1) by (rule dropWhile_shorter [OF s1(2)])
  also have "length s1 \<le> length s" unfolding s1(1) by (rule length_dropWhile_le)
  finally show ?thesis using length_dropWhile_le [of non_blank s2] by linarith
qed

lemma attr_value_shorter:
  assumes "s1 = dropWhile blank s" "s2 = dropWhile key_byte s1" "s2 \<noteq> []"
    and "length r \<le> length (tl s2)"
  shows "length r < length s"
proof -
  have "length s1 \<le> length s" unfolding assms(1) by (rule length_dropWhile_le)
  moreover have "length s2 \<le> length s1" unfolding assms(2) by (rule length_dropWhile_le)
  moreover have "length (tl s2) < length s2" using assms(3) by (cases s2) auto
  ultimately show ?thesis using assms(4) by linarith
qed

lemma length_after_quote: "length (tl (dropWhile non_quote (tl s))) \<le> length s"
proof -
  have "length (dropWhile non_quote (tl s)) \<le> length (tl s)" by (rule length_dropWhile_le)
  then show ?thesis by simp
qed

termination attr_loop
proof (relation "measure (\<lambda>(s, m). length s)", goal_cases)
  case 1
  show ?case by simp
next
  case (2 s m s1 key s2)
  then have "length (dropWhile non_blank s2) < length s" by (intro attr_key_shorter)
  then show ?case by simp
next
  case (3 s m s1 key s2 s3)
  then have "length (dropWhile non_blank s3) < length s"
    by (intro attr_value_shorter [of s1 s s2]) (auto simp only: length_dropWhile_le)
  then show ?case by simp
next
  case (4 s m s1 key s2 s3)
  then have "length (tl (dropWhile non_quote (tl s3))) < length s"
    by (intro attr_value_shorter [of s1 s s2]) (auto simp only: length_after_quote)
  then show ?case by simp
qed

declare attr_loop.simps [simp del]

definition parseAttrs :: "string \<Rightarrow> smap" where
  "parseAttrs s = attr_loop s []"

text \<open>\<open>strings.IndexAny(s, " \t")\<close> and the slice behind it: the text after the duration.\<close>

definition after_duration :: "string \<Rightarrow> string" where
  "after_duration s = tl (dropWhile non_blank s)"

definition parseExtinf :: "string \<Rightarrow> err + entry" where
  "parseExtinf body =
     (let (attrPart, title) =
        (case last_index_byte body (CHR '','') of
           Some i \<Rightarrow> (take i body, trim_space (drop (Suc i) body))
         | None \<Rightarrow> (body, []));
        attrs = parseAttrs (after_duration (trim_space attrPart));
        name = get0 attrs ''tvg-name''
      in Inr \<lparr>TvgID = get0 attrs ''tvg-id'',
              TvgName = (if name = [] then title else name),
              TvgLogo = get0 attrs ''tvg-logo'',
              TvgChno = get0 attrs ''tvg-chno'',
              TvgShift = get0 attrs ''tvg-shift'',
              GroupTitle = get0 attrs ''group-title'',
              Title = title,
              URL = [],
              Attrs = attrs\<rparr>)"

text \<open>The state of the scan loop of \<open>Parse\<close>: its three local variables.\<close>

record scan_state =
  entries :: "entry list"
  pending :: "entry option"
  headerSeen :: bool

definition m3u_line :: "scan_state \<Rightarrow> string \<Rightarrow> err + scan_state" where
  "m3u_line st text =
     (let trimmed = trim_space (trim_right {CR} text) in
      if trimmed = [] then Inr st
      else if \<not> headerSeen st then
        (if \<not> has_prefix trimmed ''#EXTM3U''
         then Inl (Err OtherErr ''m3u: missing #EXTM3U header'')
         else Inr (st\<lparr>headerSeen := True\<rparr>))
      else if has_prefix trimmed ''#EXTINF:'' then
        (case parseExtinf (trim_prefix trimmed ''#EXTINF:'') of
           Inl e \<Rightarrow> Inl e
         | Inr e \<Rightarrow> Inr (st\<lparr>pending := Some e\<rparr>))
      else if has_prefix trimmed ''#'' then Inr st
      else (case pending st of
              None \<Rightarrow> Inr st
            | Some e \<Rightarrow> Inr (st\<lparr>entries := entries st @ [e\<lparr>URL := trimmed\<rparr>], pending := None\<rparr>)))"

fun m3u_lines :: "scan_state \<Rightarrow> string list \<Rightarrow> err + scan_state" where
  "m3u_lines st [] = Inr st"
| "m3u_lines st (l # ls) =
     (case m3u_line st l of Inl e \<Rightarrow> Inl e | Inr st' \<Rightarrow> m3u_lines st' ls)"

definition err_too_long :: err where
  "err_too_long = Err OtherErr ''bufio.Scanner: token too long''"

text \<open>
  \<open>Parse\<close>. The reader delivers the bytes \<open>body\<close> and then ends: with \<open>io.EOF\<close> when \<open>rerr\<close> is
  \<^const>\<open>None\<close>, with another error otherwise. On such an error the scanner still hands out the
  rest of the last line.
\<close>

definition strip_bom :: "string \<Rightarrow> string" where
  "strip_bom body = (if has_prefix body utf8BOM then drop (length utf8BOM) body else body)"

definition m3u_Parse :: "string \<Rightarrow> err option \<Rightarrow> err + entry list" where
  "m3u_Parse body rerr =
     (let (ls, tooLong) = scan_lines max_token (strip_bom body) in
      case m3u_lines \<lparr>entries = [], pending = None, headerSeen = False\<rparr> ls of
        Inl e \<Rightarrow> Inl e
      | Inr st \<Rightarrow>
          (case (if tooLong then Some err_too_long else rerr) of
             Some e \<Rightarrow> Inl (wrapf ''m3u: read'' e)
           | None \<Rightarrow>
               if \<not> headerSeen st then Inl (Err OtherErr ''m3u: empty input'')
               else Inr (entries st)))"

subsection \<open>What a parsed playlist holds\<close>

text \<open>Every URL handed out is a trimmed, non-empty line that is no directive.\<close>

definition url_line :: "string \<Rightarrow> bool" where
  "url_line u \<longleftrightarrow> u \<noteq> [] \<and> \<not> has_prefix u ''#'' \<and> trim_right_space u = u"

definition entries_ok :: "scan_state \<Rightarrow> bool" where
  "entries_ok st \<longleftrightarrow> (\<forall>e \<in> set (entries st). url_line (URL e)) \<and>
     (entries st \<noteq> [] \<longrightarrow> headerSeen st) \<and> (pending st \<noteq> None \<longrightarrow> headerSeen st)"

lemma trim_right_space_idem [simp]: "trim_right_space (trim_right_space s) = trim_right_space s"
proof -
  have "strip_any (map rev space_runes) (strip_any (map rev space_runes) t) =
      strip_any (map rev space_runes) t" for t
  proof (rule strip_any_id, rule ballI)
    fix w :: string
    assume w: "w \<in> set (map rev space_runes)"
    then have "w \<noteq> []" using Nil_notin_space_runes by auto
    with w show "\<not> has_prefix (strip_any (map rev space_runes) t) w"
      by (rule strip_any_no_prefix)
  qed
  then show ?thesis by (simp add: trim_right_space_def)
qed

lemma trim_right_trim_space [simp]: "trim_right_space (trim_space s) = trim_space s"
  by (simp add: trim_space_def)

lemma m3u_line_ok [inv_intros]:
  "entries_ok st \<Longrightarrow> m3u_line st l = Inr st' \<Longrightarrow> entries_ok st'"
  by (auto simp: m3u_line_def entries_ok_def url_line_def Let_def
      split: if_splits sum.splits option.splits)

lemma m3u_lines_ok:
  "entries_ok st \<Longrightarrow> m3u_lines st ls = Inr st' \<Longrightarrow> entries_ok st'"
proof (induction ls arbitrary: st)
  case (Cons l ls)
  then show ?case by (auto split: sum.splits intro: m3u_line_ok)
qed simp

text \<open>A line adds at most one entry, so a playlist has at most as many entries as lines.\<close>

lemma m3u_line_length:
  "m3u_line st l = Inr st' \<Longrightarrow> length (entries st') \<le> Suc (length (entries st))"
  by (auto simp: m3u_line_def Let_def split: if_splits sum.splits option.splits)

lemma m3u_lines_length:
  "m3u_lines st ls = Inr st' \<Longrightarrow> length (entries st') \<le> length (entries st) + length ls"
proof (induction ls arbitrary: st)
  case (Cons l ls)
  then obtain st1 where "m3u_line st l = Inr st1" "m3u_lines st1 ls = Inr st'"
    by (auto split: sum.splits)
  with Cons.IH m3u_line_length show ?case by fastforce
qed simp

subsection \<open>The loop against a look-back specification\<close>

text \<open>
  What the loop should compute, said without its state: an entry for every URL line that has an
  \<open>#EXTINF\<close> line before it with no other URL line in between, made from the closest such line.
\<close>

definition content_lines :: "string list \<Rightarrow> string list" where
  "content_lines ls = filter (\<lambda>l. l \<noteq> []) (map (\<lambda>l. trim_space (trim_right {CR} l)) ls)"

definition is_extinf :: "string \<Rightarrow> bool" where
  "is_extinf l \<longleftrightarrow> has_prefix l ''#EXTINF:''"

definition is_url :: "string \<Rightarrow> bool" where
  "is_url l \<longleftrightarrow> \<not> has_prefix l ''#''"

definition extinf_entry :: "string \<Rightarrow> entry" where
  "extinf_entry l = projr (parseExtinf (trim_prefix l ''#EXTINF:''))"

definition look_back :: "string list \<Rightarrow> entry option" where
  "look_back before =
     map_option extinf_entry (find is_extinf (takeWhile (\<lambda>l. \<not> is_url l) (rev before)))"

definition entry_at :: "string list \<Rightarrow> nat \<Rightarrow> entry list" where
  "entry_at cs j =
     (if is_url (cs ! j)
      then (case look_back (take j cs) of None \<Rightarrow> [] | Some e \<Rightarrow> [e\<lparr>URL := cs ! j\<rparr>])
      else [])"

definition spec_entries :: "string list \<Rightarrow> entry list" where
  "spec_entries cs = concat (map (entry_at cs) [0..<length cs])"

lemma entry_at_append: "j < length cs \<Longrightarrow> entry_at (cs @ ds) j = entry_at cs j"
  by (simp add: entry_at_def nth_append split: option.splits)

lemma spec_entries_snoc:
  "spec_entries (cs @ [l]) = spec_entries cs @ entry_at (cs @ [l]) (length cs)"
proof -
  have eq: "map (entry_at (cs @ [l])) [0..<length cs] = map (entry_at cs) [0..<length cs]"
    by (simp add: entry_at_append)
  show ?thesis by (simp add: spec_entries_def eq)
qed

lemma parseExtinf_total: "\<exists>e. parseExtinf b = Inr e"
  by (auto simp: parseExtinf_def Let_def split: option.splits)

lemma parseExtinf_entry: "parseExtinf (trim_prefix l ''#EXTINF:'') = Inr (extinf_entry l)"
  using parseExtinf_total [of "trim_prefix l ''#EXTINF:''"] by (auto simp: extinf_entry_def)

lemma is_extinf_not_url: "is_extinf l \<Longrightarrow> \<not> is_url l"
  by (auto simp: is_extinf_def is_url_def has_prefix_iff)

text \<open>The loop after the header, on the trimmed non-empty lines.\<close>

definition body_step :: "scan_state \<Rightarrow> string \<Rightarrow> scan_state" where
  "body_step st c =
     (if is_extinf c then st\<lparr>pending := Some (extinf_entry c)\<rparr>
      else if \<not> is_url c then st
      else (case pending st of
              None \<Rightarrow> st
            | Some e \<Rightarrow> st\<lparr>entries := entries st @ [e\<lparr>URL := c\<rparr>], pending := None\<rparr>))"

lemma body_steps_spec:
  "foldl body_step \<lparr>entries = [], pending = None, headerSeen = True\<rparr> cs =
     \<lparr>entries = spec_entries cs, pending = look_back cs, headerSeen = True\<rparr>"
proof (induction cs rule: rev_induct)
  case Nil
  show ?case by (simp add: spec_entries_def look_back_def)
next
  case (snoc c cs)
  then show ?case
    by (auto simp: spec_entries_snoc entry_at_def body_step_def is_extinf_not_url look_back_def
        split: option.splits)
qed

lemma m3u_lines_body:
  "headerSeen st \<Longrightarrow> m3u_lines st ls = Inr (foldl body_step st (content_lines ls))"
proof (induction ls arbitrary: st)
  case Nil
  then show ?case by (simp add: content_lines_def)
next
  case (Cons l ls)
  let ?c = "trim_space (trim_right {CR} l)"
  have "m3u_line st l = Inr (if ?c = [] then st else body_step st ?c)"
    using Cons.prems
    by (auto simp: m3u_line_def body_step_def is_extinf_def is_url_def parseExtinf_entry Let_def
        split: option.splits)
  moreover have "headerSeen (if ?c = [] then st else body_step st ?c)"
    using Cons.prems by (auto simp: body_step_def split: option.splits)
  ultimately show ?case
    using Cons.IH by (simp add: content_lines_def)
qed

lemma m3u_lines_spec:
  "m3u_lines \<lparr>entries = [], pending = None, headerSeen = False\<rparr> ls =
     (case content_lines ls of
        [] \<Rightarrow> Inr \<lparr>entries = [], pending = None, headerSeen = False\<rparr>
      | h # cs \<Rightarrow>
          if has_prefix h ''#EXTM3U''
          then Inr \<lparr>entries = spec_entries cs, pending = look_back cs, headerSeen = True\<rparr>
          else Inl (Err OtherErr ''m3u: missing #EXTM3U header''))"
proof (induction ls)
  case Nil
  show ?case by (simp add: content_lines_def)
next
  case (Cons l ls)
  then show ?case
    by (auto simp: m3u_line_def content_lines_def Let_def m3u_lines_body body_steps_spec
        [unfolded content_lines_def])
qed

section \<open>Reading back a rendered playlist\<close>

text \<open>
  A channel as a provider writes it: attributes, title and URL. \<open>render\<close> writes the common form
  \<open>#EXTINF:-1 key="value" ...,title\<close> with the URL on the next line.
\<close>

record m3u_channel =
  cattrs :: smap
  ctitle :: string
  curl :: string

definition render_attr :: "string \<times> string \<Rightarrow> string" where
  "render_attr kv = CHR '' '' # fst kv @ CHR ''='' # QUOTE # snd kv @ [QUOTE]"

definition render_extinf :: "m3u_channel \<Rightarrow> string" where
  "render_extinf c =
     ''#EXTINF:-1'' @ concat (map render_attr (cattrs c)) @ CHR '','' # ctitle c"

definition render_playlist :: "m3u_channel list \<Rightarrow> string" where
  "render_playlist cs =
     unlines (''#EXTM3U'' # concat (map (\<lambda>c. [render_extinf c, curl c]) cs))"

definition channel_entry :: "m3u_channel \<Rightarrow> entry" where
  "channel_entry c =
     \<lparr>TvgID = get0 (cattrs c) ''tvg-id'',
      TvgName = (if get0 (cattrs c) ''tvg-name'' = [] then ctitle c
                 else get0 (cattrs c) ''tvg-name''),
      TvgLogo = get0 (cattrs c) ''tvg-logo'',
      TvgChno = get0 (cattrs c) ''tvg-chno'',
      TvgShift = get0 (cattrs c) ''tvg-shift'',
      GroupTitle = get0 (cattrs c) ''group-title'',
      Title = ctitle c, URL = curl c, Attrs = cattrs c\<rparr>"

definition wf_attr :: "string \<times> string \<Rightarrow> bool" where
  "wf_attr kv \<longleftrightarrow> fst kv \<noteq> [] \<and> list_all key_byte (fst kv) \<and> QUOTE \<notin> set (snd kv) \<and>
     LF \<notin> set (fst kv @ snd kv) \<and> CR \<notin> set (fst kv @ snd kv)"

definition wf_channel :: "m3u_channel \<Rightarrow> bool" where
  "wf_channel c \<longleftrightarrow> list_all wf_attr (cattrs c) \<and> distinct (map fst (cattrs c)) \<and>
     CHR '','' \<notin> set (ctitle c) \<and> trimmed (ctitle c) \<and>
     LF \<notin> set (ctitle c) \<and> CR \<notin> set (ctitle c) \<and>
     curl c \<noteq> [] \<and> trimmed (curl c) \<and> \<not> has_prefix (curl c) ''#'' \<and>
     LF \<notin> set (curl c) \<and> CR \<notin> set (curl c) \<and>
     length (render_extinf c) < max_token \<and> length (curl c) < max_token"

lemma takeWhile_dropWhile_stop:
  assumes "list_all P k" "\<not> P c"
  shows "takeWhile P (k @ c # r) = k" "dropWhile P (k @ c # r) = c # r"
  using assms by (induction k) auto

lemma attr_loop_render:
  assumes "wf_attr kv"
  shows "attr_loop (render_attr kv @ s) m = attr_loop s (AList.update (fst kv) (snd kv) m)"
proof -
  obtain k v where kv: "kv = (k, v)" by (cases kv)
  from assms kv have k: "k \<noteq> []" "list_all key_byte k" and q: "QUOTE \<notin> set v"
    by (simp_all add: wf_attr_def)
  have v: "list_all non_quote v"
    using q by (auto simp: non_quote_def list_all_iff)
  have nb: "\<not> blank (hd k)"
    using k by (cases k) (auto simp: key_byte_def)
  let ?rest = "CHR ''='' # QUOTE # v @ QUOTE # s"
  have s1: "dropWhile blank (render_attr (k, v) @ s) = k @ ?rest"
    using k(1) nb by (cases k) (simp_all add: render_attr_def blank_def)
  have "\<not> key_byte (CHR ''='')" by (simp add: key_byte_def)
  note split = takeWhile_dropWhile_stop [OF k(2) this]
  have "\<not> non_quote QUOTE" by (simp add: non_quote_def)
  note vsplit = takeWhile_dropWhile_stop [OF v this]
  show ?thesis
    unfolding kv fst_conv snd_conv
    by (subst attr_loop.simps) (simp add: s1 split vsplit Let_def k(1) put_attr_def)
qed

lemma attr_loop_renders:
  "list_all wf_attr kvs \<Longrightarrow>
   attr_loop (concat (map render_attr kvs)) m = foldl (\<lambda>m kv. AList.update (fst kv) (snd kv) m) m kvs"
proof (induction kvs arbitrary: m)
  case Nil
  show ?case by (simp add: attr_loop.simps)
next
  case (Cons kv kvs)
  then show ?case by (simp add: attr_loop_render)
qed

lemma update_fresh: "k \<notin> fst ` set m \<Longrightarrow> AList.update k v m = m @ [(k, v)]"
  by (induction m) auto

lemma foldl_update_distinct:
  "distinct (map fst (m @ kvs)) \<Longrightarrow>
   foldl (\<lambda>m kv. AList.update (fst kv) (snd kv) m) m kvs = m @ kvs"
proof (induction kvs arbitrary: m)
  case (Cons kv kvs)
  then have "fst kv \<notin> fst ` set m" by auto
  with Cons show ?case by (simp add: update_fresh)
qed simp

lemma attr_loop_blank: "attr_loop (CHR '' '' # s) m = attr_loop s m"
  by (subst (1 2) attr_loop.simps) (simp add: blank_def)

lemma parseAttrs_render:
  assumes "list_all wf_attr kvs" "distinct (map fst kvs)"
  shows "parseAttrs (tl (concat (map render_attr kvs))) = kvs"
proof -
  have *: "attr_loop (concat (map render_attr kvs)) [] = kvs"
    using assms by (simp add: attr_loop_renders foldl_update_distinct)
  show ?thesis
  proof (cases kvs)
    case Nil
    with * show ?thesis by (simp add: parseAttrs_def)
  next
    case (Cons kv t)
    then obtain r where "concat (map render_attr kvs) = CHR '' '' # r"
      by (simp add: render_attr_def)
    with * show ?thesis by (simp add: parseAttrs_def attr_loop_blank)
  qed
qed

lemma trimmed_header: "trimmed ''#EXTM3U''"
  by (simp add: trimmed_def space_runes_def has_suffix_def)

lemma trim_line [simp]: "CR \<notin> set l \<Longrightarrow> trimmed l \<Longrightarrow> trim_space (trim_right {CR} l) = l"
  by (metis last_in_set singletonD trim_right_id trim_space_trimmed)

lemma trimmed_attrs: "trimmed (''-1'' @ concat (map render_attr kvs))"
proof (cases kvs rule: rev_cases)
  case Nil
  then show ?thesis using trimmed_between [of "CHR ''-''" "CHR ''1''" "[]" "[]"] by simp
next
  case (snoc ys y)
  have "''-1'' @ concat (map render_attr kvs) =
      CHR ''-'' # (CHR ''1'' # concat (map render_attr ys) @
        CHR '' '' # fst y @ CHR ''='' # QUOTE # snd y) @ QUOTE # []"
    by (simp add: snoc render_attr_def)
  then show ?thesis by (metis trimmed_between solid_simps(3,5) trimmed_Nil)
qed

lemma after_duration_render:
  "after_duration (''-1'' @ concat (map render_attr kvs)) = tl (concat (map render_attr kvs))"
  by (cases kvs)
    (simp_all add: after_duration_def non_blank_def blank_def render_attr_def)

lemma parseExtinf_render:
  assumes "wf_channel c"
  shows "parseExtinf (trim_prefix (render_extinf c) ''#EXTINF:'') =
     Inr ((channel_entry c)\<lparr>URL := []\<rparr>)"
proof -
  let ?a = "''-1'' @ concat (map render_attr (cattrs c))"
  have body: "trim_prefix (render_extinf c) ''#EXTINF:'' = ?a @ CHR '','' # ctitle c"
    by (simp add: render_extinf_def trim_prefix_def)
  have last: "last_index_byte (?a @ CHR '','' # ctitle c) (CHR '','') = Some (length ?a)"
    using assms by (intro last_index_byte_append) (simp add: wf_channel_def)
  have split: "take (length ?a) (?a @ CHR '','' # ctitle c) = ?a"
    "drop (Suc (length ?a)) (?a @ CHR '','' # ctitle c) = ctitle c"
    by (simp_all del: append_Cons)
  have title: "trim_space (ctitle c) = ctitle c"
    using assms by (simp add: trim_space_trimmed wf_channel_def)
  have attrs: "parseAttrs (after_duration (trim_space ?a)) = cattrs c"
    using assms by (simp only: trim_space_trimmed [OF trimmed_attrs] after_duration_render)
      (simp add: parseAttrs_render wf_channel_def)
  show ?thesis
    unfolding parseExtinf_def body last option.case split title prod.case Let_def attrs
    by (simp add: channel_entry_def)
qed

lemma content_render:
  assumes "list_all wf_channel cs"
  shows "content_lines (''#EXTM3U'' # concat (map (\<lambda>c. [render_extinf c, curl c]) cs)) =
     ''#EXTM3U'' # concat (map (\<lambda>c. [render_extinf c, curl c]) cs)"
proof -
  have cr: "CR \<notin> set (render_extinf c)" if "wf_channel c" for c
    using that by (auto simp: wf_channel_def wf_attr_def render_extinf_def render_attr_def list_all_iff)
  have tr: "trimmed (render_extinf c)" if "wf_channel c" for c
    using that trimmed_between [of "CHR ''#''" "CHR '',''" "ctitle c"
        "''EXTINF:-1'' @ concat (map render_attr (cattrs c))"]
    by (simp add: wf_channel_def render_extinf_def)
  have ne: "render_extinf c \<noteq> []" for c by (simp add: render_extinf_def)
  have "content_lines (concat (map (\<lambda>c. [render_extinf c, curl c]) cs)) =
      concat (map (\<lambda>c. [render_extinf c, curl c]) cs)"
    using assms
    by (induction cs) (auto simp: content_lines_def cr tr ne wf_channel_def)
  then show ?thesis
    by (simp add: content_lines_def trimmed_header)
qed

lemma body_steps_render:
  "list_all wf_channel cs \<Longrightarrow> pending st = None \<Longrightarrow>
   foldl body_step st (concat (map (\<lambda>c. [render_extinf c, curl c]) cs)) =
     st\<lparr>entries := entries st @ map channel_entry cs\<rparr>"
proof (induction cs arbitrary: st)
  case (Cons c cs)
  have ext: "is_extinf (render_extinf c)"
    by (simp add: is_extinf_def render_extinf_def)
  have url: "is_url (curl c)" "\<not> is_extinf (curl c)"
    using Cons.prems is_extinf_not_url by (auto simp: is_url_def wf_channel_def)
  have e: "extinf_entry (render_extinf c) = (channel_entry c)\<lparr>URL := []\<rparr>"
    using Cons.prems by (simp add: extinf_entry_def parseExtinf_render)
  have "foldl body_step st [render_extinf c, curl c] =
      st\<lparr>entries := entries st @ [channel_entry c], pending := None\<rparr>"
    using ext url by (simp add: body_step_def e) (simp add: channel_entry_def)
  with Cons show ?case by simp
qed simp

section \<open>Properties\<close>

lemma no_lf_render:
  assumes "wf_channel c"
  shows "LF \<notin> set (render_extinf c)" "CR \<notin> set (render_extinf c)"
    "LF \<notin> set (curl c)" "CR \<notin> set (curl c)"
  using assms
  by (auto simp: wf_channel_def wf_attr_def render_extinf_def render_attr_def list_all_iff)

lemma scan_render:
  assumes "list_all wf_channel cs"
  shows "scan_lines max_token (strip_bom (render_playlist cs)) =
    (''#EXTM3U'' # concat (map (\<lambda>c. [render_extinf c, curl c]) cs), False)"
proof -
  have "strip_bom (render_playlist cs) = render_playlist cs"
    by (simp add: strip_bom_def utf8BOM_def render_playlist_def unlines_def)
  moreover have "length ''#EXTM3U'' < max_token" by (simp add: max_token_def)
  then have "\<forall>l \<in> set (''#EXTM3U'' # concat (map (\<lambda>c. [render_extinf c, curl c]) cs)).
      LF \<notin> set l \<and> CR \<notin> set l \<and> length l < max_token"
    using assms by (induction cs) (simp_all add: no_lf_render, simp add: wf_channel_def)
  ultimately show ?thesis
    by (simp only: render_playlist_def scan_lines_unlines)
qed

lemma spec_entries_render:
  "list_all wf_channel cs \<Longrightarrow>
   spec_entries (concat (map (\<lambda>c. [render_extinf c, curl c]) cs)) = map channel_entry cs"
  using body_steps_spec
    body_steps_render [of cs "\<lparr>entries = [], pending = None, headerSeen = True\<rparr>"]
  by simp

lemma has_prefix_header: "has_prefix ''#EXTM3U'' ''#EXTM3U''"
  by (simp add: has_prefix_def)

text \<open>
  Property C11: a playlist written in the usual form (any number of channels, each with distinct
  well-formed attributes, a trimmed title without commas and a non-directive URL) is parsed
  without error, into one entry per channel, in order, every field and attribute as written.
\<close>

theorem m3u_roundtrip:
  "list_all wf_channel cs \<Longrightarrow> m3u_Parse (render_playlist cs) None = Inr (map channel_entry cs)"
  by (simp add: m3u_Parse_def scan_render m3u_lines_spec content_render has_prefix_header
      spec_entries_render)

definition demo_channel :: m3u_channel where
  "demo_channel = \<lparr>cattrs = [(''tvg-id'', ''bbc1''), (''group-title'', ''UK = news'')],
     ctitle = ''BBC One'', curl = ''http://up/1.ts''\<rparr>"

lemma wf_demo_channel: "wf_channel demo_channel"
  by (simp add: wf_channel_def demo_channel_def wf_attr_def key_byte_def blank_def trimmed_def
      space_runes_def has_suffix_def max_token_def render_extinf_def render_attr_def)

theorem m3u_roundtrip_witness:
  "m3u_Parse (render_playlist [demo_channel]) None = Inr [channel_entry demo_channel] \<and>
   TvgID (channel_entry demo_channel) = ''bbc1''"
  using m3u_roundtrip [of "[demo_channel]"] wf_demo_channel
  by (simp add: channel_entry_def demo_channel_def get0_def)

text \<open>
  Property C12: on every input \<open>Parse\<close> computes the look-back specification. With the non-blank
  lines trimmed, the first must start with \<open>#EXTM3U\<close>; there is then one entry per URL line that
  follows an \<open>#EXTINF\<close> line with no URL line between, taken from the closest such line; an
  unreadable or over-long input and an input without content are errors.
\<close>

theorem m3u_Parse_spec:
  "m3u_Parse body rerr =
     (let (ls, tooLong) = scan_lines max_token (strip_bom body);
          rd = (if tooLong then Some err_too_long else rerr)
      in case content_lines ls of
           [] \<Rightarrow> (case rd of Some e \<Rightarrow> Inl (wrapf ''m3u: read'' e)
                          | None \<Rightarrow> Inl (Err OtherErr ''m3u: empty input''))
         | h # cs \<Rightarrow>
             if \<not> has_prefix h ''#EXTM3U'' then Inl (Err OtherErr ''m3u: missing #EXTM3U header'')
             else (case rd of Some e \<Rightarrow> Inl (wrapf ''m3u: read'' e)
                            | None \<Rightarrow> Inr (spec_entries cs)))"
  by (simp add: m3u_Parse_def m3u_lines_spec Let_def split: prod.splits list.splits option.splits)

text \<open>
  Property C13: every entry of a parsed playlist carries a non-empty URL that is no directive and
  has no trailing white space, and there are at most as many entries as lines.
\<close>

theorem m3u_Parse_entries:
  assumes "m3u_Parse body rerr = Inr es"
  shows "(\<forall>e \<in> set es. url_line (URL e)) \<and>
    length es \<le> length (fst (scan_lines max_token (strip_bom body)))"
proof -
  obtain ls tl where ls: "scan_lines max_token (strip_bom body) = (ls, tl)" by fastforce
  from assms ls obtain st where
    st: "m3u_lines \<lparr>entries = [], pending = None, headerSeen = False\<rparr> ls = Inr st"
    and es: "es = entries st"
    by (auto simp: m3u_Parse_def split: sum.splits option.splits if_splits)
  have "entries_ok \<lparr>entries = [], pending = None, headerSeen = False\<rparr>"
    by (simp add: entries_ok_def)
  from m3u_lines_ok [OF this st] m3u_lines_length [OF st] show ?thesis
    by (simp add: es ls entries_ok_def)
qed

theorem m3u_Parse_entries_witness:
  "url_line (URL (channel_entry demo_channel)) \<and>
   m3u_Parse (render_playlist [demo_channel]) None = Inr [channel_entry demo_channel]"
proof -
  have p: "m3u_Parse (render_playlist [demo_channel]) None = Inr [channel_entry demo_channel]"
    using wf_demo_channel
      content_render [of "[demo_channel]"] scan_render [of "[demo_channel]"]
      spec_entries_render [of "[demo_channel]"]
    by (simp add: m3u_Parse_def m3u_lines_spec has_prefix_header)
  from m3u_Parse_entries [OF p] p show ?thesis by simp
qed

end
