(* ===== verification/UserLimits.thy ===== *)
theory UserLimits
  imports Complex_Main Prelude
begin

text \<open>
  The host-protection primitives of \<open>src/internal/streamproxy/limits.go\<close>: the counting semaphore
  and the per-user token-bucket rate limiter. Each method runs under the object's mutex, so it is
  one atomic step; concurrent use is the interleaving of such steps. A pointer receiver that may
  be \<open>nil\<close> is an \<^theory_text>\<open>option\<close>.

  Token counts are \<open>float64\<close> in the code and rational numbers here: rounding is not modelled.
  The clock is the argument \<open>now\<close>.
\<close>

section \<open>The counting semaphore\<close>

record semaphore =
  cap :: int
  cur :: int

definition newSemaphore :: "int \<Rightarrow> semaphore" where
  "newSemaphore capacity = \<lparr>cap = capacity, cur = 0\<rparr>"

definition TryAcquire :: "semaphore option \<Rightarrow> bool \<times> semaphore option" where
  "TryAcquire so =
     (case so of
        None \<Rightarrow> (True, None)
      | Some s \<Rightarrow>
          if cap s \<le> 0 then (True, Some s)
          else if cur s \<ge> cap s then (False, Some s)
          else (True, Some (s\<lparr>cur := cur s + 1\<rparr>)))"

definition Release :: "semaphore option \<Rightarrow> semaphore option" where
  "Release so =
     (case so of
        None \<Rightarrow> None
      | Some s \<Rightarrow>
          if cap s \<le> 0 then Some s
          else if cur s > 0 then Some (s\<lparr>cur := cur s - 1\<rparr>)
          else Some s)"

definition InUse :: "semaphore option \<Rightarrow> int" where
  "InUse so = (case so of None \<Rightarrow> 0 | Some s \<Rightarrow> cur s)"

lemma TryAcquire_simps [simp]:
  "TryAcquire None = (True, None)"
  "cap s \<le> 0 \<Longrightarrow> TryAcquire (Some s) = (True, Some s)"
  "0 < cap s \<Longrightarrow> cap s \<le> cur s \<Longrightarrow> TryAcquire (Some s) = (False, Some s)"
  "0 < cap s \<Longrightarrow> cur s < cap s \<Longrightarrow> TryAcquire (Some s) = (True, Some (s\<lparr>cur := cur s + 1\<rparr>))"
  by (simp_all add: TryAcquire_def)

lemma Release_TryAcquire:
  "0 \<le> cur s \<Longrightarrow> TryAcquire (Some s) = (True, so) \<Longrightarrow> Release so = Some s"
  by (auto simp: TryAcquire_def Release_def split: if_splits)

text \<open>
  Requests that hold a slot while they run: the state is the semaphore and the requests in flight.
  \<open>enter\<close> and \<open>refuse\<close> are the two outcomes of \<open>TryAcquire\<close> at the start of a handler, \<open>leave\<close> is
  the deferred \<open>Release\<close>. Which request moves next is not determined.
\<close>

record sem_system =
  sem :: "semaphore option"
  inflight :: "nat set"

inductive sem_step :: "sem_system \<Rightarrow> sem_system \<Rightarrow> bool" where
  enter: "r \<notin> inflight y \<Longrightarrow> TryAcquire (sem y) = (True, so) \<Longrightarrow>
     sem_step y (y\<lparr>sem := so, inflight := insert r (inflight y)\<rparr>)"
| refuse: "TryAcquire (sem y) = (False, so) \<Longrightarrow> sem_step y (y\<lparr>sem := so\<rparr>)"
| leave: "r \<in> inflight y \<Longrightarrow>
     sem_step y (y\<lparr>sem := Release (sem y), inflight := inflight y - {r}\<rparr>)"

inductive sem_reachable :: "int \<Rightarrow> sem_system \<Rightarrow> bool" for capacity where
  sem_start: "sem_reachable capacity \<lparr>sem = Some (newSemaphore capacity), inflight = {}\<rparr>"
| sem_next: "sem_reachable capacity y \<Longrightarrow> sem_step y z \<Longrightarrow> sem_reachable capacity z"

text \<open>The counter is exactly the number of requests in flight (when there is a cap).\<close>

definition sem_inv :: "int \<Rightarrow> sem_system \<Rightarrow> bool" where
  "sem_inv capacity y \<longleftrightarrow>
     finite (inflight y) \<and>
     (\<exists>s. sem y = Some s \<and> cap s = capacity \<and>
          (if capacity \<le> 0 then cur s = 0
           else cur s = int (card (inflight y)) \<and> cur s \<le> capacity))"

lemma sem_step_inv [inv_intros]:
  assumes "sem_step y z" "sem_inv capacity y"
  shows "sem_inv capacity z"
  using assms
proof (induction rule: sem_step.induct)
  case (enter r y so)
  from enter.prems obtain s where s: "finite (inflight y)" "sem y = Some s" "cap s = capacity"
    "if capacity \<le> 0 then cur s = 0 else cur s = int (card (inflight y)) \<and> cur s \<le> capacity"
    by (auto simp: sem_inv_def)
  have t: "TryAcquire (Some s) = (True, so)" using enter.hyps(2) s(2) by simp
  show ?case
  proof (cases "capacity \<le> 0")
    case True
    with t s show ?thesis by (simp add: sem_inv_def TryAcquire_def) auto
  next
    case False
    with t s enter.hyps(1) show ?thesis
      by (auto simp: sem_inv_def TryAcquire_def split: if_splits)
  qed
next
  case (refuse y so)
  from refuse.prems obtain s where s: "sem y = Some s" by (auto simp: sem_inv_def)
  with refuse.hyps have "so = sem y"
    by (auto simp: TryAcquire_def split: if_splits)
  with refuse.prems show ?case by (simp add: sem_inv_def)
next
  case (leave r y)
  from leave.prems obtain s where s: "finite (inflight y)" "sem y = Some s" "cap s = capacity"
    "if capacity \<le> 0 then cur s = 0 else cur s = int (card (inflight y)) \<and> cur s \<le> capacity"
    by (auto simp: sem_inv_def)
  have "card (inflight y) > 0" using leave.hyps s(1) by (auto simp: card_gt_0_iff)
  moreover have "card (inflight y - {r}) = card (inflight y) - 1"
    using leave.hyps s(1) by simp
  ultimately show ?case using s
    by (auto simp: sem_inv_def Release_def of_nat_diff)
qed

lemma sem_reachable_inv: "sem_reachable capacity y \<Longrightarrow> sem_inv capacity y"
proof (induction rule: sem_reachable.induct)
  case sem_start
  show ?case by (simp add: sem_inv_def newSemaphore_def)
next
  case (sem_next y z)
  then show ?case by (blast intro: sem_step_inv)
qed

section \<open>The token bucket\<close>

record tokenBucket =
  tb_burst :: rat
  tb_rate :: rat
  tb_tokens :: rat
  tb_last :: time

text \<open>\<open>now.Sub(last).Seconds()\<close>.\<close>

definition seconds :: "duration \<Rightarrow> rat" where
  "seconds d = of_int d / of_int ns_per_sec"

definition tb_init :: "tokenBucket \<Rightarrow> time \<Rightarrow> tokenBucket" where
  "tb_init b now =
     (if is_zero (tb_last b) then b\<lparr>tb_last := now, tb_tokens := tb_burst b\<rparr> else b)"

definition tb_refill :: "tokenBucket \<Rightarrow> time \<Rightarrow> tokenBucket" where
  "tb_refill b now =
     (let elapsed = seconds (now - tb_last b) in
      if elapsed > 0 then
        b\<lparr>tb_tokens := min (tb_burst b) (tb_tokens b + elapsed * tb_rate b), tb_last := now\<rparr>
      else b)"

definition tb_allow :: "tokenBucket \<Rightarrow> time \<Rightarrow> bool \<times> tokenBucket" where
  "tb_allow b now =
     (let b1 = tb_refill (tb_init b now) now in
      if tb_tokens b1 \<ge> 1 then (True, b1\<lparr>tb_tokens := tb_tokens b1 - 1\<rparr>) else (False, b1))"

fun tb_run :: "tokenBucket \<Rightarrow> time list \<Rightarrow> bool list" where
  "tb_run b [] = []"
| "tb_run b (t # ts) = (let (ok, b') = tb_allow b t in ok # tb_run b' ts)"

text \<open>A bucket in use: created at a real instant, never over-full, never negative.\<close>

definition tb_inv :: "tokenBucket \<Rightarrow> bool" where
  "tb_inv b \<longleftrightarrow> 0 \<le> tb_tokens b \<and> tb_tokens b \<le> tb_burst b \<and> 0 \<le> tb_rate b \<and>
     zero_time < tb_last b"

lemma seconds_add: "seconds (a + b) = seconds a + seconds b"
  by (simp add: seconds_def add_divide_distrib)

lemma seconds_pos [simp]: "0 < seconds d \<longleftrightarrow> 0 < d"
  by (simp add: seconds_def)

lemma seconds_nonneg [simp]: "0 \<le> seconds d \<longleftrightarrow> 0 \<le> d"
  by (simp add: seconds_def zero_le_divide_iff)

lemma seconds_mono: "a \<le> b \<Longrightarrow> seconds a \<le> seconds b"
  by (simp add: seconds_def divide_right_mono)

lemma tb_init_id: "zero_time < tb_last b \<Longrightarrow> tb_init b now = b"
  by (simp add: tb_init_def is_zero_def)

lemma tb_refill_bounds:
  assumes "tb_inv b"
  shows "0 \<le> tb_tokens (tb_refill b now)" "tb_tokens (tb_refill b now) \<le> tb_burst b"
    "tb_last b \<le> now \<Longrightarrow>
     tb_tokens (tb_refill b now) \<le> tb_tokens b + tb_rate b * seconds (now - tb_last b)"
    "tb_last b \<le> now \<Longrightarrow> tb_last (tb_refill b now) = now"
  using assms by (auto simp: tb_inv_def tb_refill_def Let_def mult.commute)

lemma tb_refill_fields [simp]:
  "tb_burst (tb_refill b now) = tb_burst b" "tb_rate (tb_refill b now) = tb_rate b"
  by (simp_all add: tb_refill_def Let_def)

text \<open>
  One call, with its budget: what it grants plus what is left never exceeds what was there plus
  what flowed in.
\<close>

lemma tb_allow_budget:
  assumes "tb_inv b" "tb_last b \<le> now" "tb_allow b now = (ok, b')"
  shows "tb_inv b'" "tb_burst b' = tb_burst b" "tb_rate b' = tb_rate b" "tb_last b' = now"
    "of_bool ok + tb_tokens b' \<le> tb_tokens b + tb_rate b * seconds (now - tb_last b)"
proof -
  define c where "c = tb_refill b now"
  have c: "0 \<le> tb_tokens c" "tb_tokens c \<le> tb_burst b"
    "tb_tokens c \<le> tb_tokens b + tb_rate b * seconds (now - tb_last b)"
    "tb_last c = now" "tb_burst c = tb_burst b" "tb_rate c = tb_rate b"
    using tb_refill_bounds [OF assms(1), of now] assms(2) by (simp_all add: c_def)
  have i: "tb_init b now = b" using assms(1) by (intro tb_init_id) (simp add: tb_inv_def)
  have z: "zero_time < now" "0 \<le> tb_rate b" using assms(1,2) by (simp_all add: tb_inv_def)
  have b': "(ok, b') = (if tb_tokens c \<ge> 1 then (True, c\<lparr>tb_tokens := tb_tokens c - 1\<rparr>) else (False, c))"
    using assms(3) [symmetric] by (simp add: tb_allow_def i c_def Let_def)
  show "tb_inv b'" "tb_burst b' = tb_burst b" "tb_rate b' = tb_rate b" "tb_last b' = now"
    "of_bool ok + tb_tokens b' \<le> tb_tokens b + tb_rate b * seconds (now - tb_last b)"
    using b' c z by (auto simp: tb_inv_def split: if_splits)
qed

definition granted :: "bool list \<Rightarrow> nat" where
  "granted oks = length (filter (\<lambda>ok. ok) oks)"

lemma granted_simps [simp]:
  "granted [] = 0" "granted (ok # oks) = of_bool ok + granted oks"
  by (simp_all add: granted_def)

lemma tb_run_budget:
  assumes "tb_inv b" "sorted (tb_last b # ts @ [T])"
  shows "of_nat (granted (tb_run b ts)) \<le> tb_tokens b + tb_rate b * seconds (T - tb_last b)"
  using assms
proof (induction ts arbitrary: b)
  case Nil
  then show ?case by (simp add: tb_inv_def)
next
  case (Cons t ts)
  obtain ok b' where ok: "tb_allow b t = (ok, b')" by fastforce
  have t: "tb_last b \<le> t" using Cons.prems(2) by simp
  note a = tb_allow_budget [OF Cons.prems(1) t ok]
  have IH: "of_nat (granted (tb_run b' ts)) \<le> tb_tokens b' + tb_rate b' * seconds (T - tb_last b')"
    using Cons.prems(2) a(1,4) by (intro Cons.IH) auto
  have "tb_rate b * seconds (T - t) + tb_rate b * seconds (t - tb_last b) =
      tb_rate b * seconds (T - tb_last b)"
    by (simp add: distrib_left [symmetric] seconds_add [symmetric])
  with IH a(3-5) show ?case by (simp add: ok)
qed

section \<open>The rate limiter\<close>

record rateLimiter =
  rl_rate :: rat
  rl_burst :: rat
  rl_idle :: duration
  rl_buckets :: "(string \<times> tokenBucket) list"

definition newRateLimiter :: "rat \<Rightarrow> rat \<Rightarrow> rateLimiter" where
  "newRateLimiter ratePerSec burst =
     \<lparr>rl_rate = ratePerSec, rl_burst = (if burst \<le> 0 then ratePerSec else burst),
      rl_idle = minute, rl_buckets = []\<rparr>"

definition reapLocked :: "time \<Rightarrow> rateLimiter \<Rightarrow> rateLimiter" where
  "reapLocked now l =
     l\<lparr>rl_buckets := filter (\<lambda>(k, b). \<not> now - tb_last b > rl_idle l) (rl_buckets l)\<rparr>"

definition fresh_bucket :: "rateLimiter \<Rightarrow> time \<Rightarrow> tokenBucket" where
  "fresh_bucket l now =
     \<lparr>tb_burst = rl_burst l, tb_rate = rl_rate l, tb_tokens = rl_burst l, tb_last = now\<rparr>"

definition Allow :: "time \<Rightarrow> string \<Rightarrow> rateLimiter option \<Rightarrow> bool \<times> rateLimiter option" where
  "Allow now key lo =
     (case lo of
        None \<Rightarrow> (True, None)
      | Some l \<Rightarrow>
          if rl_rate l \<le> 0 then (True, Some l)
          else
            let b = (case map_of (rl_buckets l) key of Some b \<Rightarrow> b | None \<Rightarrow> fresh_bucket l now);
                (allowed, b') = tb_allow b now
            in (allowed, Some (reapLocked now (l\<lparr>rl_buckets := AList.update key b' (rl_buckets l)\<rparr>))))"

text \<open>A trace of calls (user and instant) and the decisions it gets.\<close>

fun allow_run :: "rateLimiter option \<Rightarrow> (string \<times> time) list \<Rightarrow> (string \<times> bool) list" where
  "allow_run lo [] = []"
| "allow_run lo ((k, t) # es) =
     (let (ok, lo') = Allow t k lo in (k, ok) # allow_run lo' es)"

text \<open>
  The specification: every user has a bucket of their own, full at the first call and never
  forgotten.
\<close>

fun user_run :: "rateLimiter \<Rightarrow> tokenBucket option \<Rightarrow> time list \<Rightarrow> bool list" where
  "user_run l bo [] = []"
| "user_run l bo (t # ts) =
     (let (ok, b') = tb_allow (case bo of Some b \<Rightarrow> b | None \<Rightarrow> fresh_bucket l t) t
      in ok # user_run l (Some b') ts)"

lemma user_run_Some: "user_run l (Some b) ts = tb_run b ts"
  by (induction ts arbitrary: b) (auto simp: Let_def split: prod.splits)

text \<open>
  The simulation: the limiter's bucket for \<open>k\<close> is the user's bucket, or it has been reaped and
  the user's bucket has been idle for longer than \<open>rl_idle\<close>.
\<close>

definition sim :: "rateLimiter \<Rightarrow> time \<Rightarrow> string \<Rightarrow> rateLimiter \<Rightarrow> tokenBucket option \<Rightarrow> bool" where
  "sim l0 now k l bo \<longleftrightarrow>
     rl_rate l = rl_rate l0 \<and> rl_burst l = rl_burst l0 \<and> rl_idle l = rl_idle l0 \<and>
     distinct (map fst (rl_buckets l)) \<and>
     (case bo of
        None \<Rightarrow> map_of (rl_buckets l) k = None
      | Some b \<Rightarrow> tb_inv b \<and> tb_burst b = rl_burst l0 \<and> tb_rate b = rl_rate l0 \<and> tb_last b \<le> now \<and>
          (map_of (rl_buckets l) k = Some b \<or>
           map_of (rl_buckets l) k = None \<and> rl_idle l0 < now - tb_last b))"

text \<open>
  The condition under which forgetting is harmless: an idle period refills any bucket.
\<close>

definition refills_when_idle :: "rateLimiter \<Rightarrow> bool" where
  "refills_when_idle l \<longleftrightarrow> 0 < rl_rate l \<and> 0 < rl_burst l \<and> 0 \<le> rl_idle l \<and>
     rl_burst l \<le> rl_rate l * seconds (rl_idle l)"

lemma tb_inv_fresh:
  "0 < rl_rate l \<Longrightarrow> 0 < rl_burst l \<Longrightarrow> zero_time < now \<Longrightarrow> tb_inv (fresh_bucket l now)"
  by (simp add: tb_inv_def fresh_bucket_def)

lemma tb_allow_fresh:
  "zero_time < now \<Longrightarrow> tb_allow (fresh_bucket l now) now =
     (if 1 \<le> rl_burst l then (True, (fresh_bucket l now)\<lparr>tb_tokens := rl_burst l - 1\<rparr>)
      else (False, fresh_bucket l now))"
  by (simp add: tb_allow_def tb_init_def tb_refill_def fresh_bucket_def is_zero_def seconds_def Let_def)

text \<open>An idle bucket decides and ends up as a fresh one does.\<close>

lemma tb_allow_idle:
  assumes "refills_when_idle l" "tb_inv b" "tb_burst b = rl_burst l" "tb_rate b = rl_rate l"
    and "rl_idle l < now - tb_last b"
  shows "tb_allow b now = tb_allow (fresh_bucket l now) now"
proof -
  have z: "zero_time < now" using assms by (simp add: tb_inv_def refills_when_idle_def)
  have "rl_rate l * seconds (rl_idle l) \<le> rl_rate l * seconds (now - tb_last b)"
    using assms(1,5) by (intro mult_left_mono seconds_mono) (auto simp: refills_when_idle_def)
  moreover have "rl_burst l \<le> rl_rate l * seconds (rl_idle l)" "0 \<le> tb_tokens b"
    using assms(1,2) by (simp_all add: refills_when_idle_def tb_inv_def)
  ultimately have "rl_burst l \<le> tb_tokens b + seconds (now - tb_last b) * rl_rate l"
    by (simp add: mult.commute [of "seconds (now - tb_last b)"])
  moreover have "0 < now - tb_last b" using assms(1,5) by (simp add: refills_when_idle_def)
  ultimately have "tb_refill (tb_init b now) now = fresh_bucket l now"
    using assms(2-4)
    by (simp add: tb_init_id tb_inv_def tb_refill_def fresh_bucket_def Let_def min_def)
  then have "tb_allow b now =
      (if 1 \<le> rl_burst l then (True, (fresh_bucket l now)\<lparr>tb_tokens := rl_burst l - 1\<rparr>)
       else (False, fresh_bucket l now))"
    by (simp add: tb_allow_def Let_def) (simp add: fresh_bucket_def)
  with z show ?thesis by (simp add: tb_allow_fresh)
qed

lemma map_of_reap:
  "distinct (map fst xs) \<Longrightarrow>
   map_of (filter (\<lambda>(k, b). P b) xs) k =
     (case map_of xs k of None \<Rightarrow> None | Some b \<Rightarrow> if P b then Some b else None)"
  by (induction xs) (auto split: option.splits simp: map_of_eq_None_iff dest: map_of_SomeD)

lemma distinct_map_filter: "distinct (map f xs) \<Longrightarrow> distinct (map f (filter P xs))"
  by (induction xs) auto

text \<open>A call for another user keeps the simulation, a call for this one follows it.\<close>

lemma Allow_sim:
  assumes sim: "sim l0 now k l bo" and r: "refills_when_idle l0"
    and t: "now \<le> t" "zero_time < t"
    and call: "Allow t key (Some l) = (ok, lo')"
  shows "\<exists>l'. lo' = Some l' \<and>
    (if key = k
     then (let (ok', b') = tb_allow (case bo of Some b \<Rightarrow> b | None \<Rightarrow> fresh_bucket l0 t) t
           in ok = ok' \<and> sim l0 t k l' (Some b'))
     else sim l0 t k l' bo)"
proof -
  let ?b = "case map_of (rl_buckets l) key of Some b \<Rightarrow> b | None \<Rightarrow> fresh_bucket l t"
  obtain b' where b': "tb_allow ?b t = (ok, b')"
    and lo': "lo' = Some (reapLocked t (l\<lparr>rl_buckets := AList.update key b' (rl_buckets l)\<rparr>))"
    using call sim r
    by (auto simp: Allow_def sim_def refills_when_idle_def Let_def split: prod.splits)
  let ?l' = "reapLocked t (l\<lparr>rl_buckets := AList.update key b' (rl_buckets l)\<rparr>)"
  have d: "distinct (map fst (rl_buckets l))" and f: "rl_rate l = rl_rate l0"
    "rl_burst l = rl_burst l0" "rl_idle l = rl_idle l0"
    using sim by (simp_all add: sim_def)
  have fr: "fresh_bucket l t = fresh_bucket l0 t" using f by (simp add: fresh_bucket_def)
  have d': "distinct (map fst (AList.update key b' (rl_buckets l)))"
    using d by (rule distinct_update)
  have m: "map_of (rl_buckets ?l') x =
      (case map_of (AList.update key b' (rl_buckets l)) x of None \<Rightarrow> None
       | Some b \<Rightarrow> if \<not> rl_idle l0 < t - tb_last b then Some b else None)" for x
    using map_of_reap [OF d', of "\<lambda>b. \<not> rl_idle l0 < t - tb_last b" x]
    by (simp add: reapLocked_def f)
  have base: "rl_rate ?l' = rl_rate l0 \<and> rl_burst ?l' = rl_burst l0 \<and> rl_idle ?l' = rl_idle l0 \<and>
      distinct (map fst (rl_buckets ?l'))"
    using f d' by (simp add: reapLocked_def distinct_map_filter)
  show ?thesis
  proof (cases "key = k")
    case False
    have "sim l0 t k ?l' bo"
      unfolding sim_def
      using sim False base t(1)
      by (auto simp: sim_def m update_conv' split: option.splits)
    with False lo' show ?thesis by auto
  next
    case True
    define u where "u = (case bo of Some b \<Rightarrow> b | None \<Rightarrow> fresh_bucket l0 t)"
    have u: "tb_inv u" "tb_burst u = rl_burst l0" "tb_rate u = rl_rate l0" "tb_last u \<le> t"
      using sim r t tb_inv_fresh [of l0 t]
      by (auto simp: u_def sim_def refills_when_idle_def fresh_bucket_def split: option.splits)
    have same: "tb_allow u t = (ok, b')"
    proof (cases "map_of (rl_buckets l) k")
      case (Some b)
      with sim b' True show ?thesis by (auto simp: u_def sim_def split: option.splits)
    next
      case None
      with b' True fr have "tb_allow (fresh_bucket l0 t) t = (ok, b')" by simp
      moreover have "tb_allow u t = tb_allow (fresh_bucket l0 t) t"
      proof (cases bo)
        case (Some b)
        with None sim t(1) show ?thesis
          by (intro tb_allow_idle [OF r]) (auto simp: u_def sim_def)
      qed (simp add: u_def)
      ultimately show ?thesis by simp
    qed
    note a = tb_allow_budget [OF u(1) u(4) same]
    have "map_of (rl_buckets ?l') k = Some b'"
      unfolding m using a(4) r True by (simp add: update_conv' refills_when_idle_def)
    then have "sim l0 t k ?l' (Some b')"
      unfolding sim_def using base a(1-4) u(2,3) by simp
    with True lo' same show ?thesis by (simp add: u_def)
  qed
qed

lemma allow_run_user:
  assumes "refills_when_idle l0" "sim l0 now k l bo"
    and "sorted (now # map snd es)" "\<forall>e \<in> set es. zero_time < snd e"
  shows "map snd (filter (\<lambda>d. fst d = k) (allow_run (Some l) es)) =
    user_run l0 bo (map snd (filter (\<lambda>e. fst e = k) es))"
  using assms(2-4)
proof (induction es arbitrary: now l bo)
  case (Cons e es)
  obtain key t where e: "e = (key, t)" by (cases e)
  obtain ok lo' where c: "Allow t key (Some l) = (ok, lo')" by fastforce
  have t: "now \<le> t" "zero_time < t" using Cons.prems(2,3) e by auto
  from Allow_sim [OF Cons.prems(1) assms(1) t c] obtain l' where l': "lo' = Some l'"
    and s: "if key = k
     then (let (ok', b') = tb_allow (case bo of Some b \<Rightarrow> b | None \<Rightarrow> fresh_bucket l0 t) t
           in ok = ok' \<and> sim l0 t k l' (Some b'))
     else sim l0 t k l' bo" by blast
  have so: "sorted (t # map snd es)" "\<forall>e \<in> set es. zero_time < snd e"
    using Cons.prems(2,3) e by auto
  show ?case
  proof (cases "key = k")
    case True
    with s obtain b' where b': "tb_allow (case bo of Some b \<Rightarrow> b | None \<Rightarrow> fresh_bucket l0 t) t = (ok, b')"
      "sim l0 t k l' (Some b')" by (auto simp: Let_def split: prod.splits)
    have "Allow t k (Some l) = (ok, Some l')" using c l' True by simp
    with Cons.IH [OF b'(2) so] show ?thesis by (simp add: e True b'(1))
  next
    case False
    with s have "sim l0 t k l' bo" by simp
    from Cons.IH [OF this so] show ?thesis by (simp add: e c l' False)
  qed
qed simp

section \<open>Properties\<close>

text \<open>
  Property C14: however requests interleave, a capped semaphore counts exactly the requests in
  flight, never lets more than the cap in, and turns a request away only when the cap is reached.
\<close>

theorem semaphore_cap:
  assumes "sem_reachable capacity y" "0 < capacity"
  shows "InUse (sem y) = int (card (inflight y)) \<and> int (card (inflight y)) \<le> capacity \<and>
    (fst (TryAcquire (sem y)) \<longleftrightarrow> int (card (inflight y)) < capacity)"
proof -
  from sem_reachable_inv [OF assms(1)] assms(2) obtain s where
    "sem y = Some s" "cap s = capacity" "cur s = int (card (inflight y))" "cur s \<le> capacity"
    by (auto simp: sem_inv_def)
  with assms(2) show ?thesis by (simp add: InUse_def TryAcquire_def)
qed

theorem semaphore_cap_witness:
  "sem_reachable 1 \<lparr>sem = Some \<lparr>cap = 1, cur = 1\<rparr>, inflight = {7}\<rparr> \<and>
   \<not> fst (TryAcquire (Some \<lparr>cap = 1, cur = 1\<rparr>))"
proof -
  have "sem_step \<lparr>sem = Some (newSemaphore 1), inflight = {}\<rparr>
      (\<lparr>sem = Some (newSemaphore 1), inflight = {}\<rparr>
        \<lparr>sem := Some \<lparr>cap = 1, cur = 1\<rparr>, inflight := insert 7 {}\<rparr>)"
    using sem_step.enter [of 7 "\<lparr>sem = Some (newSemaphore 1), inflight = {}\<rparr>" "Some \<lparr>cap = 1, cur = 1\<rparr>"]
    by (simp add: newSemaphore_def)
  then have r: "sem_reachable 1 \<lparr>sem = Some \<lparr>cap = 1, cur = 1\<rparr>, inflight = {7}\<rparr>"
    by (auto intro: sem_next [OF sem_start])
  from semaphore_cap [OF r] r show ?thesis by simp
qed

text \<open>
  Property C15: with a burst that an idle minute refills, the shared limiter, which creates
  buckets lazily and reaps idle ones, decides every call of every user as if that user had a
  private bucket from the first call on: users do not affect each other and reaping is invisible.
\<close>

theorem rate_limiter_isolation:
  assumes "refills_when_idle (newRateLimiter r b)"
    and "sorted (map snd es)" "\<forall>e \<in> set es. zero_time < snd e"
  shows "map snd (filter (\<lambda>d. fst d = k) (allow_run (Some (newRateLimiter r b)) es)) =
    user_run (newRateLimiter r b) None (map snd (filter (\<lambda>e. fst e = k) es))"
proof (cases es)
  case (Cons e es')
  have "sim (newRateLimiter r b) (snd e) k (newRateLimiter r b) None"
    by (simp add: sim_def newRateLimiter_def)
  from allow_run_user [OF assms(1) this] assms(2,3) Cons show ?thesis by simp
qed simp

lemma default_limits_refill: "refills_when_idle (newRateLimiter 10 20)"
  by (simp add: refills_when_idle_def newRateLimiter_def seconds_def minute_def)

theorem rate_limiter_isolation_witness:
  "map snd (filter (\<lambda>d. fst d = ''u'') (allow_run (Some (newRateLimiter 10 20))
      [(''u'', 0), (''v'', 1), (''u'', 2)])) =
   user_run (newRateLimiter 10 20) None [0, 2]"
  using rate_limiter_isolation [OF default_limits_refill, of "[(''u'', 0), (''v'', 1), (''u'', 2)]" "''u''"]
  by (simp add: zero_time_def)



text \<open>
  Without the condition the two differ: at one token per 100 seconds and a burst of two, a user
  who has used up the burst is let in again after 61 seconds, because a call by anyone else
  reaped the bucket, where a private bucket would refuse.
\<close>

lemma reaping_forgives:
  "map snd (filter (\<lambda>d. fst d = ''u'') (allow_run (Some (newRateLimiter (1/100) 2))
      [(''u'', 0), (''u'', 0), (''u'', 0), (''v'', 61 * second), (''u'', 61 * second)]))
     = [True, True, False, True]"
  "user_run (newRateLimiter (1/100) 2) None [0, 0, 0, 61 * second] = [True, True, False, False]"
  by (simp_all add: newRateLimiter_def Allow_def reapLocked_def fresh_bucket_def tb_allow_def
      tb_init_def tb_refill_def is_zero_def zero_time_def seconds_def second_def minute_def Let_def)

text \<open>A rate below one per second with the burst left at its default never grants a call.\<close>

lemma slow_rate_never_allows:
  assumes "0 < r" "r < 1" "tb_inv b" "tb_burst b = rl_burst (newRateLimiter r 0)"
  shows "fst (tb_allow b now) = False"
proof -
  have "tb_tokens (tb_refill b now) < 1"
    using tb_refill_bounds(2) [OF assms(3), of now] assms(2,4) by (simp add: newRateLimiter_def)
  moreover have "tb_init b now = b" using assms(3) by (simp add: tb_init_id tb_inv_def)
  ultimately show ?thesis by (simp add: tb_allow_def Let_def)
qed

end
