(* ===== verification/Caches.thy ===== *)
theory Caches
  imports Prelude "HOL-Library.Mapping"
begin

text \<open>
  The two response caches: the generic \<open>ttlCache\<close> of \<open>src/internal/streamproxy/cache.go\<close> (raw
  playlists by channel id) and the \<open>guideCache\<close> of \<open>src/internal/server/cache.go\<close> (encoded guide
  responses by request key). Both sit behind one interface, the locale \<open>fresh_cache\<close>, in which
  the facts about a cached fetch are proved once: an answer is never staler than the time to
  live, and requests within it collapse onto one fetch. Methods run under the cache's mutex, so
  each is one atomic step; the clock is the argument \<open>now\<close>.
\<close>

section \<open>The interface\<close>

text \<open>
  A fetch with a cache in front, as \<open>fetchPlaylistBody\<close> and \<open>guideWindow\<close> do it: a hit is served,
  a miss goes to the source, and only a successful answer is stored.
\<close>

definition through ::
  "(time \<Rightarrow> 'k \<Rightarrow> 'c \<Rightarrow> 'v option \<times> 'c) \<Rightarrow> (time \<Rightarrow> 'k \<Rightarrow> 'v \<Rightarrow> 'c \<Rightarrow> 'c) \<Rightarrow>
   (time \<Rightarrow> 'k \<Rightarrow> 'v option) \<Rightarrow> time \<Rightarrow> 'k \<Rightarrow> 'c \<Rightarrow> 'v option \<times> 'c" where
  "through get put fetch now k c =
     (case get now k c of
        (Some v, c') \<Rightarrow> (Some v, c')
      | (None, c') \<Rightarrow>
          (case fetch now k of None \<Rightarrow> (None, c') | Some v \<Rightarrow> (Some v, put now k v c')))"

fun through_run ::
  "(time \<Rightarrow> 'k \<Rightarrow> 'c \<Rightarrow> 'v option \<times> 'c) \<Rightarrow> (time \<Rightarrow> 'k \<Rightarrow> 'v \<Rightarrow> 'c \<Rightarrow> 'c) \<Rightarrow>
   (time \<Rightarrow> 'k \<Rightarrow> 'v option) \<Rightarrow> 'c \<Rightarrow> (time \<times> 'k) list \<Rightarrow> 'v option list" where
  "through_run get put fetch c [] = []"
| "through_run get put fetch c ((t, k) # es) =
     (let (a, c') = through get put fetch t k c in a # through_run get put fetch c' es)"

locale fresh_cache =
  fixes get :: "time \<Rightarrow> 'k \<Rightarrow> 'c \<Rightarrow> 'v option \<times> 'c"
    and put :: "time \<Rightarrow> 'k \<Rightarrow> 'v \<Rightarrow> 'c \<Rightarrow> 'c"
    and view :: "'c \<Rightarrow> 'k \<Rightarrow> ('v \<times> time) option"
    and ttl :: "'c \<Rightarrow> duration"
  assumes get_hit: "get t k c = (Some v, c') \<Longrightarrow> 0 < ttl c \<and> (\<exists>e. view c k = Some (v, e) \<and> t \<le> e)"
    and get_fresh: "0 < ttl c \<Longrightarrow> view c k = Some (v, e) \<Longrightarrow> t \<le> e \<Longrightarrow> get t k c = (Some v, c)"
    and get_view: "get t k c = (r, c') \<Longrightarrow> view c x = Some (v, e) \<Longrightarrow> t \<le> e \<Longrightarrow> view c' x = Some (v, e)"
    and get_old: "get t k c = (r, c') \<Longrightarrow> view c' x = Some p \<Longrightarrow> view c x = Some p"
    and get_ttl: "get t k c = (r, c') \<Longrightarrow> ttl c' = ttl c"
    and put_same: "0 < ttl c \<Longrightarrow> view (put t k v c) k = Some (v, t + ttl c)"
    and put_view: "x \<noteq> k \<Longrightarrow> view c x = Some (w, e) \<Longrightarrow> t \<le> e \<Longrightarrow> view (put t k v c) x = Some (w, e)"
    and put_old: "x \<noteq> k \<Longrightarrow> view (put t k v c) x = Some p \<Longrightarrow> view c x = Some p"
    and put_off: "ttl c \<le> 0 \<Longrightarrow> put t k v c = c"
    and put_ttl: "ttl (put t k v c) = ttl c"
begin

text \<open>Every stored value was fetched, \<open>ttl\<close> before it expires and not in the future.\<close>

definition honest :: "(time \<Rightarrow> 'k \<Rightarrow> 'v option) \<Rightarrow> time \<Rightarrow> 'c \<Rightarrow> bool" where
  "honest fetch now c \<longleftrightarrow>
     (0 < ttl c \<longrightarrow>
      (\<forall>k v e. view c k = Some (v, e) \<longrightarrow> fetch (e - ttl c) k = Some v \<and> e - ttl c \<le> now))"

lemma through_honest:
  assumes "honest fetch now c" "now \<le> t" "through get put fetch t k c = (a, c')"
  shows "honest fetch t c' \<and> ttl c' = ttl c"
proof -
  obtain r c1 where g: "get t k c = (r, c1)" by fastforce
  have h1: "honest fetch t c1"
    using assms(1,2) get_old [OF g] get_ttl [OF g] by (fastforce simp: honest_def)
  show ?thesis
  proof (cases "\<exists>v. r = None \<and> fetch t k = Some v")
    case False
    with assms(3) g have "c' = c1" by (auto simp: through_def split: option.splits)
    with h1 get_ttl [OF g] show ?thesis by simp
  next
    case True
    then obtain v where v: "r = None" "fetch t k = Some v" by blast
    with assms(3) g have c': "c' = put t k v c1" by (simp add: through_def)
    have "honest fetch t (put t k v c1)"
      unfolding honest_def
    proof (intro impI allI)
      fix x w e
      assume pos: "0 < ttl (put t k v c1)" and x: "view (put t k v c1) x = Some (w, e)"
      show "fetch (e - ttl (put t k v c1)) x = Some w \<and> e - ttl (put t k v c1) \<le> t"
      proof (cases "x = k")
        case True
        with x pos put_same [of c1 t k v] put_ttl [of t k v c1] v show ?thesis by auto
      next
        case False
        with put_old [OF False x] h1 pos put_ttl [of t k v c1] show ?thesis
          by (simp add: honest_def)
      qed
    qed
    with c' get_ttl [OF g] put_ttl show ?thesis by simp
  qed
qed

lemma through_answer:
  assumes "honest fetch now c" "now \<le> t" "through get put fetch t k c = (Some v, c')"
  shows "\<exists>t'. t - max 0 (ttl c) \<le> t' \<and> t' \<le> t \<and> fetch t' k = Some v"
proof -
  obtain r c1 where g: "get t k c = (r, c1)" by fastforce
  show ?thesis
  proof (cases r)
    case None
    with assms(3) g have "fetch t k = Some v" by (auto simp: through_def split: option.splits)
    then show ?thesis by (intro exI [of _ t]) simp
  next
    case (Some w)
    with assms(3) g have "w = v" by (simp add: through_def)
    with Some g get_hit obtain e where e: "0 < ttl c" "view c k = Some (v, e)" "t \<le> e" by blast
    with assms(1,2) have "fetch (e - ttl c) k = Some v" "e - ttl c \<le> t"
      by (auto simp: honest_def intro: order_trans)
    with e show ?thesis by (intro exI [of _ "e - ttl c"]) auto
  qed
qed

text \<open>Over a run: no answer is staler than the time to live.\<close>

lemma run_staleness:
  assumes "honest fetch now c" "sorted (now # map fst es)" "i < length es"
    and "through_run get put fetch c es ! i = Some v"
  shows "\<exists>t'. fst (es ! i) - max 0 (ttl c) \<le> t' \<and> t' \<le> fst (es ! i) \<and> fetch t' (snd (es ! i)) = Some v"
  using assms
proof (induction es arbitrary: now c i)
  case (Cons e es)
  obtain t k where e: "e = (t, k)" by (cases e)
  obtain a c' where th: "through get put fetch t k c = (a, c')" by fastforce
  have t: "now \<le> t" "sorted (t # map fst es)" using Cons.prems(2) e by auto
  note h = through_honest [OF Cons.prems(1) t(1) th]
  show ?case
  proof (cases i)
    case 0
    with Cons.prems(4) e th have "a = Some v" by simp
    with through_answer [OF Cons.prems(1) t(1)] th 0 e show ?thesis by auto
  next
    case (Suc j)
    with Cons.prems(3,4) e th h Cons.IH [of t c' j] t(2) show ?thesis by simp
  qed
qed simp

text \<open>While an entry is fresh every request for its key is answered from it.\<close>

lemma run_collapse:
  assumes "0 < ttl c" "view c k = Some (v, e)" "sorted (map fst es)" "\<forall>p \<in> set es. fst p \<le> e"
    and "i < length es" "snd (es ! i) = k"
  shows "through_run get put fetch c es ! i = Some v"
  using assms
proof (induction es arbitrary: c i)
  case (Cons p es)
  obtain t x where p: "p = (t, x)" by (cases p)
  obtain r c1 where g: "get t x c = (r, c1)" by fastforce
  obtain a c' where th: "through get put fetch t x c = (a, c')" by fastforce
  have te: "t \<le> e" using Cons.prems(4) p by simp
  have v1: "view c1 k = Some (v, e)" using get_view [OF g Cons.prems(2) te] .
  have t1: "ttl c1 = ttl c" using get_ttl [OF g] .
  have hit: "r = Some v" if "x = k"
    using get_fresh [OF Cons.prems(1,2) te] g that by simp
  show ?case
  proof (cases i)
    case 0
    with Cons.prems(6) p have "x = k" by simp
    with hit g 0 p show ?thesis by (simp add: through_def)
  next
    case (Suc j)
    have "view c' k = Some (v, e)" "ttl c' = ttl c"
    proof -
      have "c' = c1 \<or> (x \<noteq> k \<and> (\<exists>w. c' = put t x w c1))"
        using th g hit by (auto simp: through_def split: option.splits)
      then show "view c' k = Some (v, e)" "ttl c' = ttl c"
        using v1 t1 put_view [OF _ v1 te] put_ttl by auto
    qed
    with Cons.prems Cons.IH [of c' j] Suc p th show ?thesis by simp
  qed
qed simp

end

section \<open>\<open>ttlCache\<close>\<close>

record 'v cacheEntry =
  ce_val :: 'v
  ce_expiry :: time

record ('k, 'v) ttlCache =
  tc_ttl :: duration
  tc_entries :: "('k, 'v cacheEntry) mapping"

definition newTTLCache :: "duration \<Rightarrow> ('k, 'v) ttlCache" where
  "newTTLCache d = \<lparr>tc_ttl = d, tc_entries = Mapping.empty\<rparr>"

text \<open>A nil receiver is \<^const>\<open>None\<close>.\<close>

fun ttlCache_Get :: "time \<Rightarrow> 'k \<Rightarrow> ('k, 'v) ttlCache option \<Rightarrow> 'v option \<times> ('k, 'v) ttlCache option"
  where
  "ttlCache_Get now key None = (None, None)"
| "ttlCache_Get now key (Some c) =
     (if tc_ttl c \<le> 0 then (None, Some c)
      else case Mapping.lookup (tc_entries c) key of
             None \<Rightarrow> (None, Some c)
           | Some e \<Rightarrow>
               if ce_expiry e < now
               then (None, Some (c\<lparr>tc_entries := Mapping.delete key (tc_entries c)\<rparr>))
               else (Some (ce_val e), Some c))"

fun ttlCache_Set :: "time \<Rightarrow> 'k \<Rightarrow> 'v \<Rightarrow> ('k, 'v) ttlCache option \<Rightarrow> ('k, 'v) ttlCache option" where
  "ttlCache_Set now key val None = None"
| "ttlCache_Set now key val (Some c) =
     (if tc_ttl c \<le> 0 then Some c
      else Some (c\<lparr>tc_entries :=
        Mapping.update key \<lparr>ce_val = val, ce_expiry = now + tc_ttl c\<rparr> (tc_entries c)\<rparr>))"

definition tc_view :: "('k, 'v) ttlCache option \<Rightarrow> 'k \<Rightarrow> ('v \<times> time) option" where
  "tc_view c k =
     Option.bind c (\<lambda>c. map_option (\<lambda>e. (ce_val e, ce_expiry e)) (Mapping.lookup (tc_entries c) k))"

definition tc_ttl_of :: "('k, 'v) ttlCache option \<Rightarrow> duration" where
  "tc_ttl_of c = (case c of None \<Rightarrow> 0 | Some c \<Rightarrow> tc_ttl c)"

lemma lookup_delete_iff:
  "Mapping.lookup (Mapping.delete k m) x = (if x = k then None else Mapping.lookup m x)"
  by transfer simp

lemmas tc_defs = tc_view_def tc_ttl_of_def

interpretation tc: fresh_cache ttlCache_Get ttlCache_Set tc_view tc_ttl_of
proof (unfold_locales, goal_cases)
  case (1 t k c v c') then show ?case
    by (cases c) (auto simp: tc_defs split: if_splits option.splits)
next
  case (2 c k v e t) then show ?case
    by (cases c) (auto simp: tc_defs)
next
  case (3 t k c r c' x v e) then show ?case
    by (cases c) (auto simp: tc_defs lookup_delete_iff split: if_splits option.splits)
next
  case (4 t k c r c' x p) then show ?case
    by (cases c) (auto simp: tc_defs lookup_delete_iff split: if_splits option.splits)
next
  case (5 t k c r c') then show ?case
    by (cases c) (auto simp: tc_defs split: if_splits option.splits)
next
  case (6 c t k v) then show ?case
    by (cases c) (auto simp: tc_defs lookup_update)
next
  case (7 x k c w e t v) then show ?case
    by (cases c) (auto simp: tc_defs lookup_update')
next
  case (8 x k t v c p) then show ?case
    by (cases c) (auto simp: tc_defs lookup_update' split: if_splits)
next
  case (9 c t k v) then show ?case
    by (cases c) (auto simp: tc_defs)
next
  case (10 t k v c) then show ?case
    by (cases c) (auto simp: tc_defs)
qed

lemma tc_new_honest: "tc.honest fetch now (Some (newTTLCache d))"
  by (simp add: tc.honest_def newTTLCache_def tc_defs)

lemma tc_ttl_new [simp]: "tc_ttl_of (Some (newTTLCache d)) = d"
  by (simp add: newTTLCache_def tc_defs)

text \<open>
  Property C17: behind the playlist cache (\<open>fetchPlaylistBody\<close>'s shape: serve a hit, otherwise
  fetch and store), starting from an empty cache, the answer to every request of any run is
  what upstream served for that channel at some instant at most the time to live ago; a zero or
  negative time to live means every answer is current.
\<close>

theorem ttl_cache_staleness:
  assumes "sorted (map fst es)" "i < length es"
    and "through_run ttlCache_Get ttlCache_Set fetch (Some (newTTLCache d)) es ! i = Some v"
  shows "\<exists>t'. fst (es ! i) - max 0 d \<le> t' \<and> t' \<le> fst (es ! i) \<and> fetch t' (snd (es ! i)) = Some v"
proof -
  obtain e es' where es: "es = e # es'" using assms(2) by (cases es) auto
  with assms(1) have "sorted (fst e # map fst es)" by simp
  from tc.run_staleness [OF tc_new_honest this assms(2,3)] show ?thesis by simp
qed

theorem ttl_cache_staleness_witness:
  "\<exists>t'. 5 - max 0 2 \<le> t' \<and> t' \<le> (5::int) \<and> (if even t' then Some t' else None) = Some (4::int)"
  using ttl_cache_staleness [of "[(4, ''c''), (5, ''c'')]" 1
      "\<lambda>t k. if even t then Some t else None" 2 4]
  by (simp add: through_def newTTLCache_def lookup_update lookup_empty)

text \<open>
  Concurrent viewers collapse onto one fetch. Once a body is stored, every request
  for its channel up to the end of the time to live is answered with it, whatever is asked for
  other channels in between and whatever upstream would now serve.
\<close>

theorem ttl_cache_collapse:
  assumes "0 < tc_ttl c" "sorted (map fst es)" "\<forall>p \<in> set es. fst p \<le> now + tc_ttl c"
    and "i < length es" "snd (es ! i) = k"
  shows "through_run ttlCache_Get ttlCache_Set fetch (ttlCache_Set now k v (Some c)) es ! i = Some v"
proof -
  have "tc_view (ttlCache_Set now k v (Some c)) k = Some (v, now + tc_ttl c)"
    using tc.put_same [of "Some c" now k v] assms(1) by (simp add: tc_ttl_of_def)
  from tc.run_collapse [OF _ this assms(2-5)] show ?thesis
    using assms(1) by (simp add: tc_ttl_of_def)
qed

theorem ttl_cache_collapse_witness:
  "through_run ttlCache_Get ttlCache_Set (\<lambda>_ _. Some 9)
     (ttlCache_Set 1 ''c'' (7::int) (Some (newTTLCache 3))) [(2, ''d''), (4, ''c'')] ! 1 = Some 7"
  by (rule ttl_cache_collapse) (simp_all add: newTTLCache_def)

section \<open>\<open>guideCache\<close>\<close>

record guideCacheEntry =
  ge_body :: string
  ge_expiry :: time

record guideCache =
  gc_ttl :: duration
  gc_entries :: "(string, guideCacheEntry) mapping"

definition newGuideCache :: "duration \<Rightarrow> guideCache" where
  "newGuideCache d = \<lparr>gc_ttl = d, gc_entries = Mapping.empty\<rparr>"

fun guideCache_Get :: "time \<Rightarrow> string \<Rightarrow> guideCache option \<Rightarrow> string option \<times> guideCache option" where
  "guideCache_Get now key None = (None, None)"
| "guideCache_Get now key (Some c) =
     (if gc_ttl c \<le> 0 then (None, Some c)
      else case Mapping.lookup (gc_entries c) key of
             None \<Rightarrow> (None, Some c)
           | Some e \<Rightarrow>
               if ge_expiry e < now
               then (None, Some (c\<lparr>gc_entries := Mapping.delete key (gc_entries c)\<rparr>))
               else (Some (ge_body e), Some c))"

text \<open>\<open>Set\<close> sweeps the expired entries once the map has more than 256.\<close>

definition gc_sweep :: "time \<Rightarrow> (string, guideCacheEntry) mapping \<Rightarrow> (string, guideCacheEntry) mapping"
  where
  "gc_sweep now m =
     (if 256 < Mapping.size m then Mapping.filter (\<lambda>k e. \<not> ge_expiry e < now) m else m)"

fun guideCache_Set :: "time \<Rightarrow> string \<Rightarrow> string \<Rightarrow> guideCache option \<Rightarrow> guideCache option" where
  "guideCache_Set now key body None = None"
| "guideCache_Set now key body (Some c) =
     (if gc_ttl c \<le> 0 then Some c
      else Some (c\<lparr>gc_entries :=
        Mapping.update key \<lparr>ge_body = body, ge_expiry = now + gc_ttl c\<rparr>
          (gc_sweep now (gc_entries c))\<rparr>))"

definition gc_view :: "guideCache option \<Rightarrow> string \<Rightarrow> (string \<times> time) option" where
  "gc_view c k =
     Option.bind c (\<lambda>c. map_option (\<lambda>e. (ge_body e, ge_expiry e)) (Mapping.lookup (gc_entries c) k))"

definition gc_ttl_of :: "guideCache option \<Rightarrow> duration" where
  "gc_ttl_of c = (case c of None \<Rightarrow> 0 | Some c \<Rightarrow> gc_ttl c)"

lemmas gc_defs = gc_view_def gc_ttl_of_def

lemma lookup_gc_sweep_old:
  "Mapping.lookup (gc_sweep now m) k = Some e \<Longrightarrow> Mapping.lookup m k = Some e"
  by (auto simp: gc_sweep_def lookup_filter split: if_splits option.splits)

lemma lookup_gc_sweep_fresh:
  "Mapping.lookup m k = Some e \<Longrightarrow> now \<le> ge_expiry e \<Longrightarrow>
   Mapping.lookup (gc_sweep now m) k = Some e"
  by (auto simp: gc_sweep_def lookup_filter)

interpretation gc: fresh_cache guideCache_Get guideCache_Set gc_view gc_ttl_of
proof (unfold_locales, goal_cases)
  case (1 t k c v c') then show ?case
    by (cases c) (auto simp: gc_defs split: if_splits option.splits)
next
  case (2 c k v e t) then show ?case
    by (cases c) (auto simp: gc_defs)
next
  case (3 t k c r c' x v e) then show ?case
    by (cases c) (auto simp: gc_defs lookup_delete_iff split: if_splits option.splits)
next
  case (4 t k c r c' x p) then show ?case
    by (cases c) (auto simp: gc_defs lookup_delete_iff split: if_splits option.splits)
next
  case (5 t k c r c') then show ?case
    by (cases c) (auto simp: gc_defs split: if_splits option.splits)
next
  case (6 c t k v) then show ?case
    by (cases c) (auto simp: gc_defs lookup_update)
next
  case (7 x k c w e t v) then show ?case
    by (cases c) (auto simp: gc_defs lookup_update' lookup_gc_sweep_fresh)
next
  case (8 x k t v c p) then show ?case
    by (cases c) (auto simp: gc_defs lookup_update' split: if_splits dest!: lookup_gc_sweep_old)
next
  case (9 c t k v) then show ?case
    by (cases c) (auto simp: gc_defs)
next
  case (10 t k v c) then show ?case
    by (cases c) (auto simp: gc_defs)
qed

lemma gc_new_honest: "gc.honest fetch now (Some (newGuideCache d))"
  by (simp add: gc.honest_def newGuideCache_def gc_defs)

lemma gc_ttl_new [simp]: "gc_ttl_of (Some (newGuideCache d)) = d"
  by (simp add: newGuideCache_def gc_defs)

text \<open>
  Property C18: a guide response served through the cache is the response the database gave for
  the same request key at most the time to live earlier, in every run from the empty cache, the
  sweeps of \<open>Set\<close> included.
\<close>

theorem guide_cache_staleness:
  assumes "sorted (map fst es)" "i < length es"
    and "through_run guideCache_Get guideCache_Set fetch (Some (newGuideCache d)) es ! i = Some v"
  shows "\<exists>t'. fst (es ! i) - max 0 d \<le> t' \<and> t' \<le> fst (es ! i) \<and> fetch t' (snd (es ! i)) = Some v"
proof -
  obtain e es' where es: "es = e # es'" using assms(2) by (cases es) auto
  with assms(1) have "sorted (fst e # map fst es)" by simp
  from gc.run_staleness [OF gc_new_honest this assms(2,3)] show ?thesis by simp
qed

theorem guide_cache_staleness_witness:
  "\<exists>t'. 5 - max 0 2 \<le> t' \<and> t' \<le> (5::int) \<and> (if even t' then Some ''x'' else None) = Some ''x''"
  using guide_cache_staleness [of "[(4, ''c''), (5, ''c'')]" 1
      "\<lambda>t k. if even t then Some ''x'' else None" 2 "''x''"]
  by (simp add: through_def newGuideCache_def lookup_update lookup_empty gc_sweep_def)

text \<open>
  Property C19: the guide cache stays bounded. After any \<open>Set\<close> on an enabled cache, either it has
  at most 257 entries or every entry in it is still fresh; an entry that is fresh is never
  evicted by the sweep, and the stored key always holds the new body.
\<close>

theorem guide_cache_bounded:
  assumes "0 < gc_ttl c" "guideCache_Set now k b (Some c) = Some c'"
  shows "(Mapping.size (gc_entries c') \<le> 257 \<or>
      (\<forall>x e. Mapping.lookup (gc_entries c') x = Some e \<longrightarrow> now \<le> ge_expiry e)) \<and>
    Mapping.lookup (gc_entries c') k = Some \<lparr>ge_body = b, ge_expiry = now + gc_ttl c\<rparr> \<and>
    (\<forall>x e. x \<noteq> k \<longrightarrow> Mapping.lookup (gc_entries c) x = Some e \<longrightarrow> now \<le> ge_expiry e \<longrightarrow>
       Mapping.lookup (gc_entries c') x = Some e)"
proof -
  have c': "gc_entries c' = Mapping.update k \<lparr>ge_body = b, ge_expiry = now + gc_ttl c\<rparr>
      (gc_sweep now (gc_entries c))"
    using assms by auto
  have bound: "Mapping.size (gc_entries c') \<le> 257 \<or>
      (\<forall>x e. Mapping.lookup (gc_entries c') x = Some e \<longrightarrow> now \<le> ge_expiry e)"
  proof (cases "256 < Mapping.size (gc_entries c)")
    case True
    then have "now \<le> ge_expiry e" if "Mapping.lookup (gc_entries c') x = Some e" for x e
      using that assms(1)
      by (auto simp: c' gc_sweep_def lookup_update' lookup_filter split: if_splits option.splits)
    then show ?thesis by blast
  next
    case False
    then have "Mapping.size (gc_entries c') \<le> Mapping.size (gc_entries c) + 1"
      by (simp add: c' gc_sweep_def Mapping.size_def card_insert_le_m1 card_insert_if
          split: if_splits)
    with False show ?thesis by simp
  qed
  show ?thesis
    using bound by (simp add: c' lookup_update' lookup_gc_sweep_fresh)
qed

theorem guide_cache_bounded_witness:
  "Mapping.lookup (gc_entries (the (guideCache_Set 3 ''k'' ''b'' (Some (newGuideCache 5))))) ''k'' =
     Some \<lparr>ge_body = ''b'', ge_expiry = 8\<rparr>"
  using guide_cache_bounded [of "newGuideCache 5" 3 "''k''" "''b''"]
  by (simp add: newGuideCache_def)

end
