(* ===== verification/NetAddr.thy ===== *)
theory NetAddr
  imports Prelude "HOL-Library.Word"
begin

unbundle bit_operations_syntax

text \<open>
  What the plugin uses of the package \<open>net\<close>: an \<open>IP\<close> is a byte slice of length 4 or 16
  (\<open>goip\<close>), with the classification methods, \<open>SplitHostPort\<close>, \<open>ParseIP\<close> and \<open>IP.String\<close>. The
  lemmas give the value of an address, prefix tests by division, and the reading of a printed
  IPv4 address.
\<close>

type_synonym goip = "8 word list"

section \<open>Bytes and prefixes\<close>

lemma and_not_mask_unat:
  fixes w :: "'a::len word"
  shows "unat (w AND NOT (mask n)) = 2 ^ n * (unat w div 2 ^ n)"
proof -
  have "w AND NOT (mask n) = push_bit n (drop_bit n w)"
    by (rule bit_word_eqI) (auto simp: bit_simps)
  also have "unat \<dots> = 2 ^ n * (unat w div 2 ^ n) mod 2 ^ LENGTH('a)"
    by (simp only: unsigned_push_bit_eq unat_drop_bit_eq)
      (simp only: drop_bit_eq_div push_bit_eq_mult take_bit_eq_mod mult.commute)
  also have "\<dots> = 2 ^ n * (unat w div 2 ^ n)"
  proof (rule mod_less)
    have "2 ^ n * (unat w div 2 ^ n) \<le> unat w" by simp
    also have "\<dots> < 2 ^ LENGTH('a)" by simp
    finally show "2 ^ n * (unat w div 2 ^ n) < 2 ^ LENGTH('a)" .
  qed
  finally show ?thesis .
qed

lemma byte_neg: "(- 16 :: 8 word) = 0xF0" "(- 64 :: 8 word) = 0xC0" "(- 2 :: 8 word) = 0xFE"
  by simp_all

lemma byte_and_F0: "unat ((w :: 8 word) AND 0xF0) = 16 * (unat w div 16)"
  using and_not_mask_unat [of w 4] byte_neg by (simp add: mask_numeral mask_eq_decr_exp)

lemma byte_and_C0: "unat ((w :: 8 word) AND 0xC0) = 64 * (unat w div 64)"
  using and_not_mask_unat [of w 6] byte_neg by (simp add: mask_numeral mask_eq_decr_exp)

lemma byte_and_FE: "unat ((w :: 8 word) AND 0xFE) = 2 * (unat w div 2)"
  using and_not_mask_unat [of w 1] byte_neg by (simp add: mask_numeral mask_eq_decr_exp)

lemma byte_eq_unat: "(w :: 8 word) = numeral n \<longleftrightarrow> unat w = unat (numeral n :: 8 word)"
  by (rule word_unat_eq_iff)

lemma byte_unat_less: "unat (w :: 8 word) < 256"
  using unsigned_less [of w] by simp

section \<open>Addresses\<close>

definition v4InV6Prefix :: goip where
  "v4InV6Prefix = [0, 0, 0, 0, 0, 0, 0, 0, 0, 0, 0xFF, 0xFF]"

definition To4 :: "goip \<Rightarrow> goip option" where
  "To4 ip =
     (if length ip = 4 then Some ip
      else if length ip = 16 \<and> take 12 ip = v4InV6Prefix then Some (drop 12 ip)
      else None)"

definition IPv6loopback :: goip where
  "IPv6loopback = replicate 15 0 @ [1]"

definition ip_Equal :: "goip \<Rightarrow> goip \<Rightarrow> bool" where
  "ip_Equal a b \<longleftrightarrow>
     a = b \<or> (length a = 4 \<and> length b = 16 \<and> b = v4InV6Prefix @ a)
           \<or> (length a = 16 \<and> length b = 4 \<and> a = v4InV6Prefix @ b)"

definition IsUnspecified :: "goip \<Rightarrow> bool" where
  "IsUnspecified ip \<longleftrightarrow> ip_Equal ip [0, 0, 0, 0] \<or> ip_Equal ip (replicate 16 0)"

definition IsLoopback :: "goip \<Rightarrow> bool" where
  "IsLoopback ip = (case To4 ip of Some a \<Rightarrow> a ! 0 = 127 | None \<Rightarrow> ip_Equal ip IPv6loopback)"

definition IsMulticast :: "goip \<Rightarrow> bool" where
  "IsMulticast ip =
     (case To4 ip of
        Some a \<Rightarrow> a ! 0 AND 0xF0 = 0xE0
      | None \<Rightarrow> length ip = 16 \<and> ip ! 0 = 0xFF)"

definition IsInterfaceLocalMulticast :: "goip \<Rightarrow> bool" where
  "IsInterfaceLocalMulticast ip \<longleftrightarrow> length ip = 16 \<and> ip ! 0 = 0xFF \<and> ip ! 1 AND 0x0F = 0x01"

definition IsLinkLocalMulticast :: "goip \<Rightarrow> bool" where
  "IsLinkLocalMulticast ip =
     (case To4 ip of
        Some a \<Rightarrow> a ! 0 = 224 \<and> a ! 1 = 0 \<and> a ! 2 = 0
      | None \<Rightarrow> length ip = 16 \<and> ip ! 0 = 0xFF \<and> ip ! 1 AND 0x0F = 0x02)"

definition IsLinkLocalUnicast :: "goip \<Rightarrow> bool" where
  "IsLinkLocalUnicast ip =
     (case To4 ip of
        Some a \<Rightarrow> a ! 0 = 169 \<and> a ! 1 = 254
      | None \<Rightarrow> length ip = 16 \<and> ip ! 0 = 0xFE \<and> ip ! 1 AND 0xC0 = 0x80)"

text \<open>The number an address stands for, most significant byte first, and CIDR blocks.\<close>

fun ip_num :: "goip \<Rightarrow> nat" where
  "ip_num [] = 0"
| "ip_num (b # bs) = unat b * 2 ^ (8 * length bs) + ip_num bs"

definition in_cidr :: "nat \<Rightarrow> goip \<Rightarrow> nat \<times> nat \<Rightarrow> bool" where
  "in_cidr w ip c \<longleftrightarrow> ip_num ip div 2 ^ (w - snd c) = fst c div 2 ^ (w - snd c)"

lemma ip_num_less: "ip_num bs < 2 ^ (8 * length bs)"
proof (induction bs)
  case (Cons b bs)
  have "unat b * 2 ^ (8 * length bs) + ip_num bs < (unat b + 1) * 2 ^ (8 * length bs)"
    using Cons.IH by (simp add: add_mult_distrib)
  also have "\<dots> \<le> 256 * 2 ^ (8 * length bs)"
    using byte_unat_less [of b] by (intro mult_right_mono) auto
  finally show ?case by (simp add: power_add)
qed simp

lemma ip_num_append: "ip_num (xs @ ys) = ip_num xs * 2 ^ (8 * length ys) + ip_num ys"
proof (induction xs)
  case (Cons x xs)
  have "(2::nat) ^ (8 * (length xs + length ys)) = 2 ^ (8 * length xs) * 2 ^ (8 * length ys)"
    by (simp add: power_add distrib_left)
  with Cons.IH show ?case by (simp add: distrib_right distrib_left)
qed simp

lemma ip_num_div: "ip_num (xs @ ys) div 2 ^ (8 * length ys) = ip_num xs"
  by (simp add: ip_num_append ip_num_less)

lemma ip_num_0: "ip_num xs = 0 \<longleftrightarrow> (\<forall>x \<in> set xs. x = 0)"
  by (induction xs) (auto simp: unat_eq_0)

section \<open>\<open>SplitHostPort\<close>\<close>

definition SplitHostPort :: "string \<Rightarrow> (string \<times> string) option" where
  "SplitHostPort hp =
     (case last_index_byte hp CHR '':'' of
        None \<Rightarrow> None
      | Some i \<Rightarrow>
          if hd hp = CHR ''['' then
            (case index_byte hp CHR '']'' of
               None \<Rightarrow> None
             | Some e \<Rightarrow>
                 if e + 1 \<noteq> i then None
                 else if CHR ''['' \<in> set (drop 1 hp) \<or> CHR '']'' \<in> set (drop (e + 1) hp) then None
                 else Some (drop 1 (take e hp), drop (i + 1) hp))
          else if CHR '':'' \<in> set (take i hp) then None
          else if CHR ''['' \<in> set hp \<or> CHR '']'' \<in> set hp then None
          else Some (take i hp, drop (i + 1) hp))"

lemma SplitHostPort_plain:
  assumes "\<forall>c \<in> {CHR '':'', CHR ''['', CHR '']''}. c \<notin> set h \<and> c \<notin> set p"
  shows "SplitHostPort (h @ '':'' @ p) = Some (h, p)"
proof -
  have l: "last_index_byte (h @ '':'' @ p) CHR '':'' = Some (length h)"
    using last_index_byte_append [of "CHR '':''" p h] assms by simp
  have "hd (h @ '':'' @ p) \<noteq> CHR ''[''"
    using assms by (cases h) auto
  with l assms show ?thesis by (simp add: SplitHostPort_def)
qed

lemma SplitHostPort_bracket:
  assumes "\<forall>c \<in> {CHR ''['', CHR '']''}. c \<notin> set h \<and> c \<notin> set p" "CHR '':'' \<notin> set p"
  shows "SplitHostPort (''['' @ h @ '']:'' @ p) = Some (h, p)"
proof -
  have "last_index_byte ((''['' @ h @ '']'') @ CHR '':'' # p) CHR '':'' = Some (length (''['' @ h @ '']''))"
    by (rule last_index_byte_append) (use assms in simp)
  then have l: "last_index_byte (''['' @ h @ '']:'' @ p) CHR '':'' = Some (length h + 2)" by simp
  have r: "index_byte (''['' @ h @ '']:'' @ p) CHR '']'' = Some (length h + 1)"
    using index_byte_append [of "CHR '']''" "CHR ''['' # h" "'':'' @ p"] assms by simp
  show ?thesis
    unfolding SplitHostPort_def l option.case using r assms by simp
qed

section \<open>\<open>ParseIP\<close>\<close>

text \<open>Dotted quads: digits seen so far \<open>v\<close> and their number \<open>dl\<close>, finished fields \<open>fs\<close>.\<close>

fun parse4 :: "string \<Rightarrow> char option \<Rightarrow> nat \<Rightarrow> nat \<Rightarrow> nat list \<Rightarrow> nat list option" where
  "parse4 [] prev v dl fs = (if length fs < 3 then None else Some (fs @ [v]))"
| "parse4 (c # cs) prev v dl fs =
     (if is_digit c then
        (if dl = 1 \<and> v = 0 then None
         else if 255 < v * 10 + (code c - 48) then None
         else parse4 cs (Some c) (v * 10 + (code c - 48)) (dl + 1) fs)
      else if c = CHR ''.'' then
        (if prev = None \<or> cs = [] \<or> prev = Some CHR ''.'' then None
         else if length fs = 3 then None
         else parse4 cs (Some c) 0 0 (fs @ [v]))
      else None)"

definition hex_digit :: "char \<Rightarrow> nat option" where
  "hex_digit c =
     (if is_digit c then Some (code c - 48)
      else if 97 \<le> code c \<and> code c \<le> 102 then Some (code c - 87)
      else if 65 \<le> code c \<and> code c \<le> 70 then Some (code c - 55)
      else None)"

fun hex_run :: "nat \<Rightarrow> nat \<Rightarrow> string \<Rightarrow> (nat \<times> nat \<times> string) option" where
  "hex_run off acc [] = Some (off, acc, [])"
| "hex_run off acc (c # cs) =
     (case hex_digit c of
        None \<Rightarrow> Some (off, acc, c # cs)
      | Some d \<Rightarrow> if 3 < off then None else hex_run (off + 1) (16 * acc + d) cs)"

function parse6 :: "string \<Rightarrow> goip \<Rightarrow> nat option \<Rightarrow> (string \<times> goip \<times> nat option) option" where
  "parse6 s bs ell =
     (if 16 \<le> length bs then Some (s, bs, ell)
      else case hex_run 0 0 s of
        None \<Rightarrow> None
      | Some (off, acc, r) \<Rightarrow>
          if off = 0 then None
          else if r \<noteq> [] \<and> hd r = CHR ''.'' then
            (if (ell = None \<and> length bs \<noteq> 12) \<or> 16 < length bs + 4 then None
             else map_option (\<lambda>fs. ([], bs @ map of_nat fs, ell)) (parse4 s None 0 0 []))
          else
            let bs' = bs @ [of_nat (acc div 256), of_nat (acc mod 256)] in
            if r = [] then Some ([], bs', ell)
            else if hd r \<noteq> CHR '':'' \<or> length r = 1 then None
            else if hd (tl r) = CHR '':'' then
              (if ell \<noteq> None then None
               else if tl (tl r) = [] then Some ([], bs', Some (length bs'))
               else parse6 (tl (tl r)) bs' (Some (length bs')))
            else parse6 (tl r) bs' ell)"
  by pat_completeness auto
termination by (relation "measure (\<lambda>(s, bs, ell). 16 - length bs)") auto

declare parse6.simps [simp del]

text \<open>A zone is not allowed by \<open>net.ParseIP\<close>; the double colon stands for at least one group.\<close>

definition parseIPv6 :: "string \<Rightarrow> goip option" where
  "parseIPv6 s =
     (if CHR ''%'' \<in> set s then None
      else if s = ''::'' then Some (replicate 16 0)
      else
        let (s', ell) = (if has_prefix s ''::'' then (drop 2 s, Some 0) else (s, None)) in
        case parse6 s' [] ell of
          None \<Rightarrow> None
        | Some (r, bs, ell') \<Rightarrow>
            if r \<noteq> [] then None
            else if length bs < 16 then
              (case ell' of
                 None \<Rightarrow> None
               | Some e \<Rightarrow> Some (take e bs @ replicate (16 - length bs) 0 @ drop e bs))
            else if ell' \<noteq> None then None else Some bs)"

definition ParseIP :: "string \<Rightarrow> goip option" where
  "ParseIP s =
     (case find (\<lambda>c. c \<in> {CHR ''.'', CHR '':'', CHR ''%''}) s of
        Some d \<Rightarrow>
          (if d = CHR ''.'' then
             map_option (\<lambda>fs. v4InV6Prefix @ map of_nat fs) (parse4 s None 0 0 [])
           else if d = CHR '':'' then parseIPv6 s
           else None)
      | None \<Rightarrow> None)"

section \<open>\<open>IP.String\<close>\<close>

definition show_v4 :: "goip \<Rightarrow> string" where
  "show_v4 ip =
     dec_digits (unat (ip ! 0)) @ ''.'' @ dec_digits (unat (ip ! 1)) @ ''.'' @
     dec_digits (unat (ip ! 2)) @ ''.'' @ dec_digits (unat (ip ! 3))"

definition hex_char :: "nat \<Rightarrow> char" where
  "hex_char d = char_of (if d < 10 then 48 + d else 87 + d)"

fun hex_digits :: "nat \<Rightarrow> string" where
  "hex_digits n = (if n < 16 then [hex_char n] else hex_digits (n div 16) @ [hex_char (n mod 16)])"

declare hex_digits.simps [simp del]

definition groups :: "goip \<Rightarrow> nat list" where
  "groups ip = map (\<lambda>i. 256 * unat (ip ! (2 * i)) + unat (ip ! (2 * i + 1))) [0..<8]"

text \<open>The first longest run of at least two zero groups is written \<open>::\<close>.\<close>

definition zero_run :: "nat list \<Rightarrow> nat \<times> nat" where
  "zero_run gs =
     foldl (\<lambda>(zs, ze) i.
         let l = length (takeWhile (\<lambda>g. g = 0) (drop i gs))
         in if 2 \<le> l \<and> ze - zs < l then (i, i + l) else (zs, ze))
       (255, 255) [0..<8]"

fun join_colon :: "string list \<Rightarrow> string" where
  "join_colon [] = []"
| "join_colon [g] = g"
| "join_colon (g # gs) = g @ '':'' @ join_colon gs"

definition show_v6 :: "goip \<Rightarrow> string" where
  "show_v6 ip =
     (let gs = groups ip; (zs, ze) = zero_run gs in
      if zs = 255 then join_colon (map hex_digits gs)
      else join_colon (map hex_digits (take zs gs)) @ ''::'' @ join_colon (map hex_digits (drop ze gs)))"

definition ip_String :: "goip \<Rightarrow> string" where
  "ip_String ip =
     (case To4 ip of
        Some a \<Rightarrow> show_v4 a
      | None \<Rightarrow>
          if length ip = 16 then show_v6 ip
          else if ip = [] then ''<nil>''
          else ''?'' @ concat (map (\<lambda>b. [hex_char (unat b div 16), hex_char (unat b mod 16)]) ip))"

section \<open>Reading a printed IPv4 address\<close>

lemma parse4_digit:
  "d \<le> 9 \<Longrightarrow> \<not> (dl = 1 \<and> v = 0) \<Longrightarrow> v * 10 + d \<le> 255 \<Longrightarrow>
   parse4 (char_of (48 + d) # cs) prev v dl fs
     = parse4 cs (Some (char_of (48 + d))) (v * 10 + d) (dl + 1) fs"
  by (auto simp: is_digit_def)

lemma parse4_octet:
  assumes "n < 256"
  shows "\<exists>d dl. is_digit d \<and> parse4 (dec_digits n @ rest) prev 0 0 fs = parse4 rest (Some d) n dl fs"
proof -
  have m: "k mod 10 \<le> 9" for k :: nat by (simp add: less_Suc_eq_le [symmetric])
  have dig: "is_digit (char_of (48 + k mod 10 :: nat))" for k :: nat
    using m [of k] by (simp add: is_digit_def)
  consider "n < 10" | "10 \<le> n" "n < 100" | "100 \<le> n" by linarith
  then have "\<exists>dl. parse4 (dec_digits n @ rest) prev 0 0 fs
      = parse4 rest (Some (char_of (48 + n mod 10))) n dl fs"
  proof cases
    case 1
    then show ?thesis
      by (intro exI [of _ 1])
        (simp add: dec_digits.simps [of n] parse4_digit [of n] del: parse4.simps)
  next
    case 2
    then have "dec_digits n = [char_of (48 + n div 10), char_of (48 + n mod 10)]"
        "n div 10 \<le> 9" "0 < n div 10"
      by (simp_all add: dec_digits.simps [of n] dec_digits.simps [of "n div 10"])
    with 2 show ?thesis
      by (intro exI [of _ 2]) (simp add: parse4_digit m numeral_2_eq_2 del: parse4.simps)
  next
    case 3
    have b: "n div 100 \<le> 9" "0 < n div 100" "\<not> n div 10 < 10"
      "n div 100 * 10 + n div 10 mod 10 = n div 10"
    proof -
      have "n div 10 div 10 = n div 100" by (simp add: div_mult2_eq [symmetric])
      then show "n div 100 * 10 + n div 10 mod 10 = n div 10" by (metis div_mult_mod_eq)
    qed (use 3 assms(1) in \<open>simp_all add: div_greater_zero_iff not_less less_eq_div_iff_mult_less_eq\<close>)
    have d: "dec_digits n =
        [char_of (48 + n div 100), char_of (48 + n div 10 mod 10), char_of (48 + n mod 10)]"
      using 3 b by (simp add: dec_digits.simps [of n] dec_digits.simps [of "n div 10"]
          dec_digits.simps [of "n div 100"] div_mult2_eq [symmetric])
    have "n div 10 \<le> 255" using assms by simp
    with 3 assms b show ?thesis
      by (intro exI [of _ 3]) (simp add: d parse4_digit m numeral_3_eq_3 del: parse4.simps)
  qed
  with dig show ?thesis by blast
qed

lemma parse4_show:
  assumes "length ip = 4"
  shows "parse4 (show_v4 ip) None 0 0 [] = Some (map unat ip)"
proof -
  obtain a b c d where ip: "ip = [a, b, c, d]"
    using assms by (auto simp: numeral_eq_Suc length_Suc_conv)
  note o = parse4_octet [OF byte_unat_less]
  have dot: "\<exists>d dl. is_digit d \<and> parse4 (dec_digits (unat x) @ CHR ''.'' # y # ys) prev 0 0 fs
      = parse4 (y # ys) (Some CHR ''.'') 0 0 (fs @ [unat x])" if "length fs < 3" for x :: "8 word" and prev fs y ys
  proof -
    from o [of x "CHR ''.'' # y # ys" prev fs] obtain e dl where
      "is_digit e" "parse4 (dec_digits (unat x) @ CHR ''.'' # y # ys) prev 0 0 fs
        = parse4 (CHR ''.'' # y # ys) (Some e) (unat x) dl fs" by blast
    moreover from this have "e \<noteq> CHR ''.''" by (auto simp: is_digit_def)
    ultimately show ?thesis using that by (auto simp: is_digit_def)
  qed
  have dot': "parse4 (dec_digits (unat x) @ CHR ''.'' # s) prev 0 0 fs
      = parse4 s (Some CHR ''.'') 0 0 (fs @ [unat x])" if "length fs < 3" "s \<noteq> []" for x :: "8 word" and prev fs s
    using dot [OF that(1)] that(2) by (cases s) auto
  have fin: "parse4 (dec_digits (unat x)) prev 0 0 fs = Some (fs @ [unat x])" if "length fs = 3" for x :: "8 word" and prev fs
  proof -
    from o [of x "[]" prev fs] obtain e dl where
      "parse4 (dec_digits (unat x) @ []) prev 0 0 fs = parse4 [] (Some e) (unat x) dl fs" by blast
    with that show ?thesis by simp
  qed
  show ?thesis by (simp add: ip show_v4_def dot' fin)
qed

lemma show_v4_chars: "c \<in> set (show_v4 ip) \<Longrightarrow> is_digit c \<or> c = CHR ''.''"
  using dec_digits_digits by (auto simp: show_v4_def list_all_iff)

lemma find_dot: "list_all is_digit ds \<Longrightarrow>
  find (\<lambda>c. c \<in> {CHR ''.'', CHR '':'', CHR ''%''}) (ds @ CHR ''.'' # s) = Some CHR ''.''"
  by (induction ds) (auto simp: is_digit_def)

text \<open>Reading a printed IPv4 address gives it back, in its 16-byte form.\<close>

lemma ParseIP_show_v4:
  assumes "length ip = 4"
  shows "ParseIP (show_v4 ip) = Some (v4InV6Prefix @ ip)"
proof -
  have "find (\<lambda>c. c \<in> {CHR ''.'', CHR '':'', CHR ''%''}) (show_v4 ip) = Some CHR ''.''"
    using find_dot [OF dec_digits_digits] by (simp add: show_v4_def)
  then show ?thesis
    by (simp add: ParseIP_def parse4_show [OF assms] comp_def)
qed

lemma SplitHostPort_show_v4:
  assumes "\<forall>c \<in> {CHR '':'', CHR ''['', CHR '']''}. c \<notin> set p"
  shows "SplitHostPort (show_v4 ip @ '':'' @ p) = Some (show_v4 ip, p)"
  by (rule SplitHostPort_plain) (use assms in \<open>auto simp: is_digit_def dest!: show_v4_chars\<close>)

lemma ParseIP_length: "ParseIP s = Some ip \<Longrightarrow> length ip = 16"
proof -
  have p4: "parse4 s prev v dl fs = Some r \<Longrightarrow> length fs \<le> 3 \<Longrightarrow> length r = 4" for s prev v dl fs r
    by (induction s prev v dl fs rule: parse4.induct) (auto split: if_splits)
  have p6: "parse6 s bs ell = Some (r, bs', ell') \<Longrightarrow> even (length bs) \<Longrightarrow> length bs \<le> 16 \<Longrightarrow>
      (\<forall>e. ell = Some e \<longrightarrow> e \<le> length bs) \<Longrightarrow>
      length bs' \<le> 16 \<and> (\<forall>e. ell' = Some e \<longrightarrow> e \<le> length bs')" for s bs ell r bs' ell'
  proof (induction s bs ell rule: parse6.induct)
    case (1 s bs ell)
    show ?case
    proof (cases "16 \<le> length bs")
      case True
      with 1 show ?thesis by (simp add: parse6.simps [of s bs ell])
    next
      case False
      with "1.prems"(2) have l: "length bs + 2 \<le> 16" by presburger
      from False "1.prems"(1) obtain off acc t where h: "hex_run 0 0 s = Some (off, acc, t)"
        by (auto simp: parse6.simps [of s bs ell] split: option.splits)
      let ?bs = "bs @ [of_nat (acc div 256), of_nat (acc mod 256)] :: goip"
      note IH1 = "1.IH"(1) [OF False h refl refl _ _ refl] and IH2 = "1.IH"(2) [OF False h refl refl _ _ refl]
      have b: "even (length ?bs)" "length ?bs \<le> 16" "\<forall>e. ell = Some e \<longrightarrow> e \<le> length ?bs"
          "\<forall>e. ell = Some e \<longrightarrow> e \<le> length bs + 4"
        using "1.prems" l by auto
      let ?ok = "length bs' \<le> 16 \<and> (\<forall>e. ell' = Some e \<longrightarrow> e \<le> length bs')"
      have i1: ?ok if "off \<noteq> 0" "t \<noteq> []" "hd t = CHR '':''" "length t \<noteq> 1" "hd (tl t) = CHR '':''"
          "ell = None" "tl (tl t) \<noteq> []" "parse6 (tl (tl t)) ?bs (Some (length ?bs)) = Some (r, bs', ell')"
        using IH1 that b(1,2) by simp
      have i2: ?ok if "off \<noteq> 0" "t \<noteq> []" "hd t = CHR '':''" "length t \<noteq> 1" "hd (tl t) \<noteq> CHR '':''"
          "parse6 (tl t) ?bs ell = Some (r, bs', ell')"
        using IH2 that b(1-3) by simp
      have eq: "Some (r, bs', ell') =
          (if off = 0 then None
           else if t \<noteq> [] \<and> hd t = CHR ''.'' then
             (if (ell = None \<and> length bs \<noteq> 12) \<or> 16 < length bs + 4 then None
              else map_option (\<lambda>fs. ([], bs @ map of_nat fs, ell)) (parse4 s None 0 0 []))
           else if t = [] then Some ([], ?bs, ell)
           else if hd t \<noteq> CHR '':'' \<or> length t = 1 then None
           else if hd (tl t) = CHR '':'' then
              (if ell \<noteq> None then None
               else if tl (tl t) = [] then Some ([], ?bs, Some (length ?bs))
               else parse6 (tl (tl t)) ?bs (Some (length ?bs)))
            else parse6 (tl t) ?bs ell)"
        using "1.prems"(1)
        by (simp only: parse6.simps [of s bs ell] False h if_False option.case prod.case Let_def)
      have off: "off \<noteq> 0" using eq by (rule contrapos_pn) simp
      show ?thesis
      proof (cases "t = [] \<or> hd t = CHR ''.''")
        case True
        then show ?thesis
        proof (cases "t = []")
          case True
          with eq off b(1-3) show ?thesis by simp
        next
          case f: False
          with True have d: "hd t = CHR ''.''" by simp
          with eq off f have n: "\<not> ((ell = None \<and> length bs \<noteq> 12) \<or> 16 < length bs + 4)"
            by (simp split: if_splits)
          with eq off f d have "Some (r, bs', ell') = map_option (\<lambda>fs. ([], bs @ map of_nat fs, ell)) (parse4 s None 0 0 [])"
            by (auto split: if_splits)
          then obtain fs where "parse4 s None 0 0 [] = Some fs" "bs' = bs @ map of_nat fs" "ell' = ell"
            by (cases "parse4 s None 0 0 []") simp_all
          with n b(4) p4 [of s None 0 0 "[]" fs] show ?thesis by simp
        qed
      next
        case False
        then have c: "hd t = CHR '':''" "length t \<noteq> 1" using eq off by (auto split: if_splits)
        show ?thesis
        proof (cases "hd (tl t) = CHR '':''")
          case True
          with eq off c False have "ell = None" by (auto split: if_splits)
          with eq off c False True b(2) i1 show ?thesis by (cases "tl (tl t) = []") simp_all
        next
          case cc: False
          with eq off c False i2 show ?thesis by simp
        qed
      qed
    qed
  qed
  have q: "parse6 s [] None = Some (r, bs', ell') \<Longrightarrow> length bs' \<le> 16 \<and> (\<forall>e. ell' = Some e \<longrightarrow> e \<le> length bs')"
    "parse6 s [] (Some 0) = Some (r, bs', ell') \<Longrightarrow> length bs' \<le> 16 \<and> (\<forall>e. ell' = Some e \<longrightarrow> e \<le> length bs')"
    for s r bs' ell'
    using p6 [of s "[]"] by simp_all
  assume "ParseIP s = Some ip"
  then show ?thesis
    by (auto simp: ParseIP_def parseIPv6_def v4InV6Prefix_def Let_def split: option.splits if_splits
        dest!: p4 q)
qed

end
