(* ===== verification/HttpGuard.thy ===== *)
theory HttpGuard
  imports Prelude NetAddr
begin

unbundle bit_operations_syntax

text \<open>
  The hardened HTTP clients of \<open>src/internal/httpclient\<close>: the address guard of the dialer
  (\<open>isPublicIP\<close>, \<open>guardedControl\<close>), the phase timeouts and the two client flavours, and the body
  limit. The process environment and the test hook \<open>AllowLoopback\<close> are a record \<open>guard_env\<close>. The
  specification is the list of CIDR blocks the documentation and the comments name.
\<close>

section \<open>The address guard\<close>

definition isPublicIP :: "goip \<Rightarrow> bool" where
  "isPublicIP ip =
     (if IsLoopback ip \<or> IsLinkLocalUnicast ip \<or> IsLinkLocalMulticast ip \<or>
         IsInterfaceLocalMulticast ip \<or> IsMulticast ip \<or> IsUnspecified ip
      then False
      else case To4 ip of
        Some ip4 \<Rightarrow>
          (if ip4 ! 0 = 10 then False
           else if ip4 ! 0 = 172 \<and> ip4 ! 1 AND 0xF0 = 16 then False
           else if ip4 ! 0 = 192 \<and> ip4 ! 1 = 168 then False
           else if ip4 ! 0 = 100 \<and> ip4 ! 1 AND 0xC0 = 64 then False
           else if ip4 ! 0 = 169 \<and> ip4 ! 1 = 254 then False
           else if ip4 ! 0 = 192 \<and> ip4 ! 1 = 0 \<and> ip4 ! 2 = 0 then False
           else if ip4 ! 0 = 0 then False
           else True)
      | None \<Rightarrow>
          (if length ip = 16 \<and> ip ! 0 AND 0xFE = 0xFC then False else True))"

record guard_env =
  AllowLoopback :: bool
  env_ALLOW_PRIVATE_IPS :: string
  env_PLUGIN_CONFIG_ALLOW_PRIVATE_IPS :: string

record ErrBlockedAddress =
  eb_Host :: string
  eb_IP :: string

definition guardedControl :: "guard_env \<Rightarrow> string \<Rightarrow> ErrBlockedAddress option" where
  "guardedControl env address =
     (let host = (case SplitHostPort address of None \<Rightarrow> address | Some (h, _) \<Rightarrow> h) in
      case ParseIP host of
        None \<Rightarrow> Some \<lparr>eb_Host = address, eb_IP = host\<rparr>
      | Some ip \<Rightarrow>
          if IsLoopback ip \<and> AllowLoopback env then None
          else if env_ALLOW_PRIVATE_IPS env = ''true'' \<or>
                  env_PLUGIN_CONFIG_ALLOW_PRIVATE_IPS env = ''true'' then None
          else if \<not> isPublicIP ip then Some \<lparr>eb_Host = address, eb_IP = ip_String ip\<rparr>
          else None)"

section \<open>Clients and limits\<close>

record http_client =
  hc_Timeout :: duration
  hc_guarded :: bool
  hc_dialTimeout :: duration
  hc_KeepAlive :: duration
  hc_MaxIdleConns :: int
  hc_IdleConnTimeout :: duration
  hc_TLSHandshakeTimeout :: duration
  hc_ResponseHeaderTimeout :: duration
  hc_ExpectContinueTimeout :: duration

text \<open>\<open>newTransport\<close> with \<open>Client.Timeout\<close>; zero is no timeout. \<open>hc_guarded\<close>: the dialer's
  \<open>Control\<close> hook is \<open>guardedControl\<close>.\<close>

definition newTransport :: "duration \<Rightarrow> http_client" where
  "newTransport t =
     \<lparr>hc_Timeout = t, hc_guarded = True, hc_dialTimeout = 10 * second, hc_KeepAlive = 30 * second,
      hc_MaxIdleConns = 100, hc_IdleConnTimeout = 90 * second,
      hc_TLSHandshakeTimeout = 10 * second, hc_ResponseHeaderTimeout = 30 * second,
      hc_ExpectContinueTimeout = 1 * second\<rparr>"

definition Streaming :: http_client where
  "Streaming = newTransport 0"

definition ShortLived :: http_client where
  "ShortLived = newTransport (60 * second)"

definition PlaylistMaxBytes :: nat where "PlaylistMaxBytes = 50 * 2 ^ 20"
definition XMLTVMaxBytes :: nat where "XMLTVMaxBytes = 512 * 2 ^ 20"

text \<open>
  A body is what the upstream sends and how the reading ends: \<^const>\<open>None\<close> for the end of the
  body, an error otherwise. \<open>io.LimitReader\<close> reports the end of file once \<open>max\<close> bytes are read.
\<close>

type_synonym http_body = "string \<times> err option"

definition LimitBody :: "http_body \<Rightarrow> nat \<Rightarrow> http_body" where
  "LimitBody b mx = (if mx \<le> length (fst b) then (take mx (fst b), None) else b)"

lemma LimitBody_length: "length (fst (LimitBody b mx)) \<le> mx"
  by (simp add: LimitBody_def)

section \<open>Specification: the blocked address blocks\<close>

text \<open>Base address and prefix length. \<open>ipv4 a b c d\<close> is the number of a dotted quad.\<close>

definition ipv4 :: "nat \<Rightarrow> nat \<Rightarrow> nat \<Rightarrow> nat \<Rightarrow> nat" where
  "ipv4 a b c d = ((a * 256 + b) * 256 + c) * 256 + d"

definition blocked4 :: "(nat \<times> nat) list" where
  "blocked4 =
     [(ipv4 0 0 0 0, 8), (ipv4 10 0 0 0, 8), (ipv4 100 64 0 0, 10), (ipv4 127 0 0 0, 8),
      (ipv4 169 254 0 0, 16), (ipv4 172 16 0 0, 12), (ipv4 192 0 0 0, 24),
      (ipv4 192 168 0 0, 16), (ipv4 224 0 0 0, 4)]"

definition blocked6 :: "(nat \<times> nat) list" where
  "blocked6 =
     [(0, 128), (1, 128), (0xFC * 2 ^ 120, 7), (0xFE80 * 2 ^ 112, 10), (0xFF * 2 ^ 120, 8)]"

definition blocked :: "goip \<Rightarrow> bool" where
  "blocked ip =
     (case To4 ip of
        Some a \<Rightarrow> list_ex (in_cidr 32 a) blocked4
      | None \<Rightarrow> list_ex (in_cidr 128 ip) blocked6)"

section \<open>The guard implements the specification\<close>

lemma quad_div:
  fixes a b c d :: "8 word"
  shows "ip_num [a, b, c, d] div 2 ^ 24 = unat a"
    and "ip_num [a, b, c, d] div 2 ^ 16 = unat a * 256 + unat b"
    and "ip_num [a, b, c, d] div 2 ^ 8 = (unat a * 256 + unat b) * 256 + unat c"
  using ip_num_div [of "[a]" "[b, c, d]"] ip_num_div [of "[a, b]" "[c, d]"]
    ip_num_div [of "[a, b, c]" "[d]"]
  by simp_all

lemma div_64_16: "(x * 256 + y) div 64 = x * 4 + y div 64" for x y :: nat
proof -
  have "x * 256 = (x * 4) * 64" by simp
  then show ?thesis by (simp only: div_mult_self3)
qed

lemma div_16_16: "(x * 256 + y) div 16 = x * 16 + y div 16" for x y :: nat
proof -
  have "x * 256 = (x * 16) * 16" by simp
  then show ?thesis by (simp only: div_mult_self3)
qed

lemma quad_div2:
  fixes a b c d :: "8 word"
  shows "ip_num [a, b, c, d] div 2 ^ 28 = unat a div 16"
    and "ip_num [a, b, c, d] div 2 ^ 22 = unat a * 4 + unat b div 64"
    and "ip_num [a, b, c, d] div 2 ^ 20 = unat a * 16 + unat b div 16"
proof -
  have m: "x div 2 ^ 28 = x div 2 ^ 24 div 16" "x div 2 ^ 22 = x div 2 ^ 16 div 64"
    "x div 2 ^ 20 = x div 2 ^ 16 div 16" for x :: nat
    by (simp_all add: div_mult2_eq [symmetric])
  have r: "(x * 256 + y) div 64 = x * 4 + y div 64" "(x * 256 + y) div 16 = x * 16 + y div 16"
    for x y :: nat by (rule div_64_16, rule div_16_16)
  show "ip_num [a, b, c, d] div 2 ^ 28 = unat a div 16" unfolding m quad_div ..
  show "ip_num [a, b, c, d] div 2 ^ 22 = unat a * 4 + unat b div 64" unfolding m quad_div r ..
  show "ip_num [a, b, c, d] div 2 ^ 20 = unat a * 16 + unat b div 16" unfolding m quad_div r ..
qed

lemma byte_unat_eq:
  fixes x :: "8 word"
  shows "x = numeral n \<longleftrightarrow> unat x = unat (numeral n :: 8 word)" "x = 0 \<longleftrightarrow> unat x = 0"
  by (rule word_unat_eq_iff) (simp add: unat_eq_0)

lemma digit_eq:
  fixes a b k x y :: nat
  assumes "b < k" "y < k"
  shows "a * k + b = x * k + y \<longleftrightarrow> a = x \<and> b = y"
proof
  assume e: "a * k + b = x * k + y"
  have "(a * k + b) div k = a" "(x * k + y) div k = x" using assms by simp_all
  with e show "a = x \<and> b = y" by simp
qed simp

lemma cidr4_parts:
  fixes a b c d :: "8 word"
  shows "in_cidr 32 [a, b, c, d] (ipv4 x 0 0 0, 8) \<longleftrightarrow> unat a = x"
    and "y < 256 \<Longrightarrow> in_cidr 32 [a, b, c, d] (ipv4 x y 0 0, 16) \<longleftrightarrow> unat a = x \<and> unat b = y"
    and "in_cidr 32 [a, b, c, d] (ipv4 192 0 0 0, 24) \<longleftrightarrow> unat a = 192 \<and> unat b = 0 \<and> unat c = 0"
    and "in_cidr 32 [a, b, c, d] (ipv4 100 64 0 0, 10) \<longleftrightarrow> unat a = 100 \<and> unat b div 64 = 1"
    and "in_cidr 32 [a, b, c, d] (ipv4 172 16 0 0, 12) \<longleftrightarrow> unat a = 172 \<and> unat b div 16 = 1"
    and "in_cidr 32 [a, b, c, d] (ipv4 224 0 0 0, 4) \<longleftrightarrow> unat a div 16 = 14"
proof -
  have l: "unat a < 256" "unat b < 256" "unat c < 256" "unat b div 64 < 4" "unat b div 16 < 16"
    using byte_unat_less [of a] byte_unat_less [of b] byte_unat_less [of c] by simp_all
  note q = quad_div [simplified] quad_div2 [simplified]
  show "in_cidr 32 [a, b, c, d] (ipv4 x 0 0 0, 8) \<longleftrightarrow> unat a = x"
    by (simp add: in_cidr_def ipv4_def q)
  show "in_cidr 32 [a, b, c, d] (ipv4 x y 0 0, 16) \<longleftrightarrow> unat a = x \<and> unat b = y" if "y < 256"
  proof -
    have "in_cidr 32 [a, b, c, d] (ipv4 x y 0 0, 16) \<longleftrightarrow> unat a * 256 + unat b = x * 256 + y"
      by (simp add: in_cidr_def ipv4_def q mult.commute)
    also have "\<dots> \<longleftrightarrow> unat a = x \<and> unat b = y" using digit_eq [OF l(2) that] .
    finally show ?thesis .
  qed
  have "in_cidr 32 [a, b, c, d] (ipv4 192 0 0 0, 24) \<longleftrightarrow>
      (unat a * 256 + unat b) * 256 + unat c = 192 * 65536"
    by (simp add: in_cidr_def ipv4_def q)
  also have "\<dots> \<longleftrightarrow> unat a = 192 \<and> unat b = 0 \<and> unat c = 0" using digit_eq [of "unat c" 256 0 "unat a * 256 + unat b" "192 * 256"] digit_eq [of "unat b" 256 0 "unat a" 192] l by simp
  finally show "in_cidr 32 [a, b, c, d] (ipv4 192 0 0 0, 24) \<longleftrightarrow> unat a = 192 \<and> unat b = 0 \<and> unat c = 0" .
  have "in_cidr 32 [a, b, c, d] (ipv4 100 64 0 0, 10) \<longleftrightarrow> unat a * 4 + unat b div 64 = 401"
    by (simp add: in_cidr_def ipv4_def q)
  also have "\<dots> \<longleftrightarrow> unat a = 100 \<and> unat b div 64 = 1" using digit_eq [of "unat b div 64" 4 1 "unat a" 100] l by simp
  finally show "in_cidr 32 [a, b, c, d] (ipv4 100 64 0 0, 10) \<longleftrightarrow> unat a = 100 \<and> unat b div 64 = 1" .
  have "in_cidr 32 [a, b, c, d] (ipv4 172 16 0 0, 12) \<longleftrightarrow> unat a * 16 + unat b div 16 = 2753"
    by (simp add: in_cidr_def ipv4_def q)
  also have "\<dots> \<longleftrightarrow> unat a = 172 \<and> unat b div 16 = 1" using digit_eq [of "unat b div 16" 16 1 "unat a" 172] l by simp
  finally show "in_cidr 32 [a, b, c, d] (ipv4 172 16 0 0, 12) \<longleftrightarrow> unat a = 172 \<and> unat b div 16 = 1" .
  show "in_cidr 32 [a, b, c, d] (ipv4 224 0 0 0, 4) \<longleftrightarrow> unat a div 16 = 14"
    by (simp add: in_cidr_def ipv4_def q)
qed

lemma cidr4:
  fixes a b c d :: "8 word"
  shows "list_ex (in_cidr 32 [a, b, c, d]) blocked4 \<longleftrightarrow>
    a = 0 \<or> a = 10 \<or> (a = 100 \<and> unat b div 64 = 1) \<or> a = 127 \<or> (a = 169 \<and> b = 254) \<or>
    (a = 172 \<and> unat b div 16 = 1) \<or> (a = 192 \<and> b = 0 \<and> c = 0) \<or> (a = 192 \<and> b = 168) \<or>
    unat a div 16 = 14"
  unfolding blocked4_def by (simp add: cidr4_parts byte_unat_eq)

lemma byte_masks:
  fixes x :: "8 word"
  shows "x AND 0xF0 = 16 \<longleftrightarrow> unat x div 16 = 1" "x AND 0xF0 = 0xE0 \<longleftrightarrow> unat x div 16 = 14"
    "x AND 0xC0 = 64 \<longleftrightarrow> unat x div 64 = 1" "x AND 0xC0 = 0x80 \<longleftrightarrow> unat x div 64 = 2"
    "x AND 0xFE = 0xFC \<longleftrightarrow> unat x div 2 = 126"
  by (simp_all add: byte_unat_eq byte_and_F0 byte_and_C0 byte_and_FE)

lemma public4:
  assumes "length ip = 4 \<or> length ip = 16" "To4 ip = Some q"
  shows "isPublicIP ip \<longleftrightarrow> \<not> list_ex (in_cidr 32 q) blocked4"
proof -
  have q: "length q = 4" "ip = q \<or> ip = v4InV6Prefix @ q"
    using assms by (auto simp: To4_def split: if_splits) (metis append_take_drop_id)
  then obtain a b c d where abcd: "q = [a, b, c, d]"
    by (auto simp: numeral_eq_Suc length_Suc_conv)
  have u: "IsUnspecified ip \<Longrightarrow> a = 0"
    using q(2) by (auto simp: IsUnspecified_def ip_Equal_def abcd v4InV6Prefix_def numeral_eq_Suc)
  have i: "\<not> IsInterfaceLocalMulticast ip"
    using q(2) by (auto simp: IsInterfaceLocalMulticast_def abcd v4InV6Prefix_def)
  show ?thesis
    using u i
    by (auto simp: isPublicIP_def IsLoopback_def IsLinkLocalUnicast_def IsLinkLocalMulticast_def
        IsMulticast_def assms(2) cidr4 byte_masks abcd)
qed

lemma zeros_iff: "(\<forall>x \<in> set xs. x = 0) \<longleftrightarrow> xs = replicate (length xs) 0"
  by (induction xs) auto

lemma ip_num_eq_0: "ip_num xs = 0 \<longleftrightarrow> xs = replicate (length xs) 0"
  by (simp only: ip_num_0 zeros_iff)

lemma ip_num_eq_1: "ip_num (ys @ [l]) = 1 \<longleftrightarrow> ys @ [l] = replicate (length ys) 0 @ [1]"
proof -
  have "ip_num (ys @ [l]) = ip_num ys * 256 + unat l" by (simp add: ip_num_append)
  then have "ip_num (ys @ [l]) = 1 \<longleftrightarrow> ip_num ys = 0 \<and> unat l = 1"
    using digit_eq [of "unat l" 256 1 "ip_num ys" 0] byte_unat_less [of l] by simp
  also have "\<dots> \<longleftrightarrow> ys = replicate (length ys) 0 \<and> l = 1"
    using word_unat_eq_iff [of l 1] by (simp add: ip_num_eq_0 [symmetric])
  also have "\<dots> \<longleftrightarrow> ys @ [l] = replicate (length ys) 0 @ [1]" by simp
  finally show ?thesis .
qed

lemma cidr6:
  fixes a b :: "8 word"
  assumes "length r = 14"
  shows "list_ex (in_cidr 128 (a # b # r)) blocked6 \<longleftrightarrow>
    a # b # r = replicate 16 0 \<or> a # b # r = IPv6loopback \<or> unat a div 2 = 126 \<or>
    (unat a = 254 \<and> unat b div 64 = 2) \<or> unat a = 255"
proof -
  let ?ip = "a # b # r"
  have n8: "ip_num ?ip div 2 ^ 120 = unat a"
    using ip_num_div [of "[a]" "b # r"] assms by simp
  have n16: "ip_num ?ip div 2 ^ 112 = unat a * 256 + unat b"
    using ip_num_div [of "[a, b]" r] assms by simp
  have m: "x div 2 ^ 121 = x div 2 ^ 120 div 2" "x div 2 ^ 118 = x div 2 ^ 112 div 64" for x :: nat
    by (simp_all only: div_mult2_eq [symmetric]) simp_all
  have z: "in_cidr 128 ?ip (0, 128) \<longleftrightarrow> ?ip = replicate 16 0"
    using ip_num_eq_0 [of ?ip] assms by (simp add: in_cidr_def)
  define ys l where "ys = butlast ?ip" and "l = last ?ip"
  then have yl: "?ip = ys @ [l]" "length ys = 15" using assms by auto
  have o: "in_cidr 128 ?ip (1, 128) \<longleftrightarrow> ?ip = IPv6loopback"
    using ip_num_eq_1 [of ys l] by (simp add: in_cidr_def yl IPv6loopback_def)
  have f: "in_cidr 128 ?ip (0xFC * 2 ^ 120, 7) \<longleftrightarrow> unat a div 2 = 126"
    unfolding in_cidr_def fst_conv snd_conv using n8 m(1) [of "ip_num ?ip"] by simp
  have ff: "in_cidr 128 ?ip (0xFF * 2 ^ 120, 8) \<longleftrightarrow> unat a = 255"
    unfolding in_cidr_def fst_conv snd_conv using n8 by simp
  have "in_cidr 128 ?ip (0xFE80 * 2 ^ 112, 10) \<longleftrightarrow> unat a * 4 + unat b div 64 = 1018"
    unfolding in_cidr_def fst_conv snd_conv using n16 m(2) [of "ip_num ?ip"] by (simp add: div_64_16)
  also have "\<dots> \<longleftrightarrow> unat a = 254 \<and> unat b div 64 = 2"
    using digit_eq [of "unat b div 64" 4 2 "unat a" 254] byte_unat_less [of b] by simp
  finally have fe: "in_cidr 128 ?ip (0xFE80 * 2 ^ 112, 10) \<longleftrightarrow> unat a = 254 \<and> unat b div 64 = 2" .
  show ?thesis
    unfolding blocked6_def list_ex_Cons_iff list_ex_Nil_iff z o f ff fe by blast
qed

lemma public6:
  assumes "length ip = 16" "To4 ip = None"
  shows "isPublicIP ip \<longleftrightarrow> \<not> list_ex (in_cidr 128 ip) blocked6"
proof -
  obtain a b r where ip: "ip = a # b # r" "length r = 14"
    using assms(1) by (auto simp: numeral_eq_Suc length_Suc_conv)
  have e: "ip_Equal ip [0, 0, 0, 0] \<longleftrightarrow> False"
    using assms by (auto simp: ip_Equal_def To4_def v4InV6Prefix_def)
  have u: "ip_Equal ip x \<longleftrightarrow> ip = x" if "length x = 16" for x
    using that assms(1) by (auto simp: ip_Equal_def)
  have l: "length IPv6loopback = 16" by (simp add: IPv6loopback_def)
  show ?thesis
    unfolding ip(1) cidr6 [OF ip(2)]
    unfolding ip(1) [symmetric] isPublicIP_def IsLoopback_def IsLinkLocalUnicast_def
      IsLinkLocalMulticast_def IsInterfaceLocalMulticast_def IsMulticast_def IsUnspecified_def
      assms(2) option.case e u [OF l] u [OF length_replicate]
    using ip by (auto simp: byte_masks byte_unat_eq byte_and_FE byte_and_C0)
qed

text \<open>
  Property C9: the address guard is exactly the documented block list. An IPv4 address, in its
  4-byte or its IPv4-mapped 16-byte form, is dialled iff its number lies in none of the nine
  blocked CIDR blocks, an IPv6 address iff it lies in none of the five.
\<close>

theorem isPublicIP_spec:
  assumes "length ip = 4 \<or> length ip = 16"
  shows "isPublicIP ip \<longleftrightarrow> \<not> blocked ip"
proof (cases "To4 ip")
  case None
  with assms have "length ip = 16" by (auto simp: To4_def)
  with None show ?thesis by (simp add: blocked_def public6)
next
  case (Some q)
  with assms show ?thesis by (simp add: blocked_def public4)
qed

theorem isPublicIP_spec_witness:
  "isPublicIP [8, 8, 8, 8] \<longleftrightarrow> \<not> blocked [8, 8, 8, 8]"
  by (rule isPublicIP_spec) simp

lemma isPublicIP_parsed: "ParseIP h = Some ip \<Longrightarrow> isPublicIP ip \<longleftrightarrow> \<not> blocked ip"
  using ParseIP_length [of h ip] public4 [of ip] public6 [of ip]
  by (cases "To4 ip") (simp_all add: blocked_def)

definition strict :: "guard_env \<Rightarrow> bool" where
  "strict env \<longleftrightarrow>
     \<not> AllowLoopback env \<and> env_ALLOW_PRIVATE_IPS env \<noteq> ''true'' \<and>
     env_PLUGIN_CONFIG_ALLOW_PRIVATE_IPS env \<noteq> ''true''"

definition host_of :: "string \<Rightarrow> string" where
  "host_of address = (case SplitHostPort address of None \<Rightarrow> address | Some (h, _) \<Rightarrow> h)"

text \<open>
  Property C20: with no override set, a connection is let through iff the address the kernel is
  about to dial reads as an IP address outside every blocked block. In particular a name, an
  address with a zone, and malformed text are all refused.
\<close>

theorem guardedControl_strict:
  assumes "strict env"
  shows "guardedControl env address = None \<longleftrightarrow>
    (\<exists>ip. ParseIP (host_of address) = Some ip \<and> \<not> blocked ip)"
  using assms isPublicIP_parsed
  by (auto simp: guardedControl_def strict_def host_of_def Let_def split: option.splits)

theorem guardedControl_strict_witness:
  "guardedControl \<lparr>AllowLoopback = False, env_ALLOW_PRIVATE_IPS = [],
      env_PLUGIN_CONFIG_ALLOW_PRIVATE_IPS = []\<rparr> ''not-an-ip:80'' \<noteq> None"
proof -
  have "ParseIP (host_of ''not-an-ip:80'') = None" by code_simp
  then show ?thesis
    using guardedControl_strict [of "\<lparr>AllowLoopback = False, env_ALLOW_PRIVATE_IPS = [],
      env_PLUGIN_CONFIG_ALLOW_PRIVATE_IPS = []\<rparr>" "''not-an-ip:80''"]
    by (simp add: strict_def)
qed

text \<open>
  The guard end to end on what the dialer hands it. For every IPv4 address and
  port, printed as the network layer prints them, the connection goes ahead iff the address
  lies outside the blocked blocks; the cloud metadata address, private and loopback ranges are
  refused whatever name they were resolved from.
\<close>

theorem guardedControl_v4:
  assumes "strict env" "length ip = 4" "list_all is_digit port"
  shows "guardedControl env (show_v4 ip @ '':'' @ port) = None \<longleftrightarrow>
    \<not> list_ex (in_cidr 32 ip) blocked4"
proof -
  have d: "is_digit c \<Longrightarrow> c \<noteq> CHR '':'' \<and> c \<noteq> CHR ''['' \<and> c \<noteq> CHR '']''" for c
    by (auto simp: is_digit_def)
  then have "SplitHostPort (show_v4 ip @ '':'' @ port) = Some (show_v4 ip, port)"
    using assms(3) by (intro SplitHostPort_show_v4) (auto simp: list_all_iff)
  moreover have "isPublicIP (v4InV6Prefix @ ip) \<longleftrightarrow> \<not> list_ex (in_cidr 32 ip) blocked4"
    using assms(2) by (intro public4) (simp_all add: To4_def v4InV6Prefix_def)
  ultimately show ?thesis
    using assms(1) by (simp add: guardedControl_def strict_def ParseIP_show_v4 [OF assms(2)])
qed

theorem guardedControl_v4_witness:
  "guardedControl \<lparr>AllowLoopback = False, env_ALLOW_PRIVATE_IPS = [],
      env_PLUGIN_CONFIG_ALLOW_PRIVATE_IPS = []\<rparr> (show_v4 [169, 254, 169, 254] @ '':'' @ ''80'') \<noteq> None"
  by (subst guardedControl_v4)
    (simp_all add: strict_def is_digit_def blocked4_def in_cidr_def ipv4_def)

text \<open>The reserved block and the limited broadcast address are not in the list and are let
  through, as is the benchmarking network.\<close>

lemma reserved_is_public:
  "isPublicIP [255, 255, 255, 255]" "isPublicIP [240, 0, 0, 1]" "isPublicIP [198, 18, 0, 1]"
  by code_simp+

end
