(* ===== verification/Codec.thy ===== *)
theory Codec
  imports Prelude
begin

text \<open>
  The byte codecs the plugin uses: \<open>encoding/hex\<close> (session secrets in tokens) and
  \<open>base64.RawURLEncoding\<close> (segment tokens and page cursors), with their round trips and the
  alphabets of what they print.
\<close>

section \<open>\<open>encoding/hex\<close>\<close>

definition hexc :: "nat \<Rightarrow> char" where
  "hexc d = char_of (if d < 10 then 48 + d else 87 + d)"

definition unhexc :: "char \<Rightarrow> nat option" where
  "unhexc c =
     (let n = code c in
      if 48 \<le> n \<and> n \<le> 57 then Some (n - 48)
      else if 97 \<le> n \<and> n \<le> 102 then Some (n - 87)
      else if 65 \<le> n \<and> n \<le> 70 then Some (n - 55)
      else None)"

fun hex_EncodeToString :: "string \<Rightarrow> string" where
  "hex_EncodeToString [] = []"
| "hex_EncodeToString (c # cs) = hexc (code c div 16) # hexc (code c mod 16) # hex_EncodeToString cs"

fun hex_DecodeString :: "string \<Rightarrow> string option" where
  "hex_DecodeString [] = Some []"
| "hex_DecodeString [c] = None"
| "hex_DecodeString (a # b # cs) =
     (case (unhexc a, unhexc b, hex_DecodeString cs) of
        (Some x, Some y, Some s) \<Rightarrow> Some (char_of (16 * x + y) # s)
      | _ \<Rightarrow> None)"

lemma code_less: "code c < 256"
  by (rule nat_of_char_less_256)

lemma char_of_code [simp]: "char_of (code c) = c"
  by simp

lemma unhexc_hexc: "d < 16 \<Longrightarrow> unhexc (hexc d) = Some d"
  by (auto simp: unhexc_def hexc_def Let_def)

lemma code_div_16 [simp]: "code c div 16 < 16"
  using code_less [of c] by (simp add: less_mult_imp_div_less)

lemma hex_roundtrip: "hex_DecodeString (hex_EncodeToString s) = Some s"
proof (induction s)
  case (Cons c s)
  have "16 * (code c div 16) + code c mod 16 = code c" by simp
  with Cons show ?case by (simp add: unhexc_hexc)
qed simp

lemma length_hex: "length (hex_EncodeToString s) = 2 * length s"
  by (induction s) auto

lemma hex_empty [simp]: "hex_EncodeToString s = [] \<longleftrightarrow> s = []"
  by (cases s) auto

text \<open>What is printed uses the lower-case hexadecimal digits only.\<close>

definition is_hexc :: "char \<Rightarrow> bool" where
  "is_hexc c \<longleftrightarrow> is_digit c \<or> (97 \<le> code c \<and> code c \<le> 102)"

lemma hexc_is: "d < 16 \<Longrightarrow> is_hexc (hexc d)"
  by (auto simp: is_hexc_def hexc_def is_digit_def)

lemma hex_chars: "list_all is_hexc (hex_EncodeToString s)"
  by (induction s) (auto simp: hexc_is)

lemma hex_decode_length: "hex_DecodeString t = Some s \<Longrightarrow> length t = 2 * length s"
  by (induction t arbitrary: s rule: hex_DecodeString.induct) (auto split: option.splits)

section \<open>\<open>base64.RawURLEncoding\<close>\<close>

definition b64c :: "nat \<Rightarrow> char" where
  "b64c n =
     (if n < 26 then char_of (65 + n) else if n < 52 then char_of (71 + n)
      else if n < 62 then char_of (n - 4) else if n = 62 then CHR ''-'' else CHR ''_'')"

definition unb64c :: "char \<Rightarrow> nat option" where
  "unb64c c =
     (let n = code c in
      if 65 \<le> n \<and> n \<le> 90 then Some (n - 65)
      else if 97 \<le> n \<and> n \<le> 122 then Some (n - 71)
      else if 48 \<le> n \<and> n \<le> 57 then Some (n + 4)
      else if c = CHR ''-'' then Some 62
      else if c = CHR ''_'' then Some 63
      else None)"

fun b64_EncodeToString :: "string \<Rightarrow> string" where
  "b64_EncodeToString [] = []"
| "b64_EncodeToString [a] = [b64c (code a div 4), b64c (code a mod 4 * 16)]"
| "b64_EncodeToString [a, b] =
     [b64c (code a div 4), b64c (code a mod 4 * 16 + code b div 16), b64c (code b mod 16 * 4)]"
| "b64_EncodeToString (a # b # c # s) =
     b64c (code a div 4) # b64c (code a mod 4 * 16 + code b div 16) #
     b64c (code b mod 16 * 4 + code c div 64) # b64c (code c mod 64) # b64_EncodeToString s"

text \<open>
  Decoding skips carriage returns and line feeds; a final group of one symbol is an error, the
  unused low bits of a final group of two or three are ignored.
\<close>

fun b64_groups :: "nat list \<Rightarrow> string option" where
  "b64_groups [] = Some []"
| "b64_groups [p] = None"
| "b64_groups [p, q] = Some [char_of (p * 4 + q div 16)]"
| "b64_groups [p, q, r] = Some [char_of (p * 4 + q div 16), char_of (q mod 16 * 16 + r div 4)]"
| "b64_groups (p # q # r # t # s) =
     map_option (\<lambda>u. char_of (p * 4 + q div 16) # char_of (q mod 16 * 16 + r div 4) #
         char_of (r mod 4 * 64 + t) # u) (b64_groups s)"

definition b64_DecodeString :: "string \<Rightarrow> string option" where
  "b64_DecodeString s =
     (let vs = map unb64c (filter (\<lambda>c. c \<noteq> CR \<and> c \<noteq> LF) s) in
      if list_all (\<lambda>v. v \<noteq> None) vs then b64_groups (map the vs) else None)"

definition is_b64 :: "char \<Rightarrow> bool" where
  "is_b64 c \<longleftrightarrow> is_upper c \<or> is_lower c \<or> is_digit c \<or> c = CHR ''-'' \<or> c = CHR ''_''"

lemma b64c_is: "n < 64 \<Longrightarrow> is_b64 (b64c n)"
  by (auto simp: is_b64_def b64c_def is_upper_def is_lower_def is_digit_def)

lemma unb64c_b64c: "n < 64 \<Longrightarrow> unb64c (b64c n) = Some n"
proof -
  assume "n < 64"
  then consider "n < 26" | "26 \<le> n" "n < 52" | "52 \<le> n" "n < 62" | "n = 62" | "n = 63" by linarith
  then show ?thesis by cases (auto simp: unb64c_def b64c_def Let_def)
qed

lemma is_b64_plain: "is_b64 c \<Longrightarrow> c \<noteq> CR \<and> c \<noteq> LF \<and> c \<noteq> CHR ''.''"
  by (auto simp: is_b64_def is_upper_def is_lower_def is_digit_def)

lemma b64_bounds:
  "code a div 4 < 64" "code a mod 4 * 16 < 64" "code a mod 4 * 16 + code b div 16 < 64"
  "code b mod 16 * 4 < 64" "code b mod 16 * 4 + code c div 64 < 64" "code c mod 64 < 64"
proof -
  have m: "code a mod 4 < 4" "code b mod 16 < 16" by simp_all
  have d: "code b div 16 < 16" "code c div 64 < 4"
    using code_less [of b] code_less [of c] by (simp_all add: less_mult_imp_div_less)
  show "code a div 4 < 64" using code_less [of a] by (simp add: less_mult_imp_div_less)
  show "code a mod 4 * 16 < 64" "code a mod 4 * 16 + code b div 16 < 64"
    "code b mod 16 * 4 < 64" "code b mod 16 * 4 + code c div 64 < 64" "code c mod 64 < 64"
    using m d by linarith+
qed

lemma b64_chars: "list_all is_b64 (b64_EncodeToString s)"
  by (induction s rule: b64_EncodeToString.induct) (simp_all add: b64c_is b64_bounds)

lemma b64_filter: "filter (\<lambda>c. c \<noteq> CR \<and> c \<noteq> LF) (b64_EncodeToString s) = b64_EncodeToString s"
  using b64_chars [of s] is_b64_plain by (simp add: filter_id_conv list_all_iff)

lemma b64_join:
  "char_of (code a div 4 * 4 + (code a mod 4 * 16 + k) div 16) = a" if "k < 16"
proof -
  have "(code a mod 4 * 16 + k) div 16 = code a mod 4" using that by simp
  then show ?thesis by simp
qed

lemma b64_join2:
  "char_of ((k * 16 + code b div 16) mod 16 * 16 + (code b mod 16 * 4 + j) div 4) = b" if "j < 4"
proof -
  have "(code b mod 16 * 4 + j) div 4 = code b mod 16" using that by simp
  moreover have "(k * 16 + code b div 16) mod 16 = code b div 16"
    using code_less [of b] by (simp add: less_mult_imp_div_less)
  ultimately show ?thesis by simp
qed

lemma b64_join3: "char_of ((k * 4 + code c div 64) mod 4 * 64 + code c mod 64) = c"
proof -
  have "(k * 4 + code c div 64) mod 4 = code c div 64"
    using code_less [of c] by (simp add: less_mult_imp_div_less)
  then show ?thesis by simp
qed

lemma b64_symbols:
  "\<exists>vs. map unb64c (b64_EncodeToString s) = map Some vs \<and> b64_groups vs = Some s"
proof (induction s rule: b64_EncodeToString.induct)
  case 1
  show ?case by simp
next
  case (2 a)
  have "char_of (code a div 4 * 4 + code a mod 4 * 16 div 16) = a"
    using b64_join [of 0 a] by simp
  then show ?case
    by (intro exI [of _ "[code a div 4, code a mod 4 * 16]"]) (simp add: unb64c_b64c b64_bounds)
next
  case (3 a b)
  have "code b div 16 < 16" using code_less [of b] by (simp add: less_mult_imp_div_less)
  with b64_join [of "code b div 16" a] b64_join2 [of 0 "code a mod 4" b] show ?case
    by (intro exI [of _ "[code a div 4, code a mod 4 * 16 + code b div 16, code b mod 16 * 4]"])
      (simp add: unb64c_b64c b64_bounds)
next
  case (4 a b c s)
  then obtain vs where vs: "map unb64c (b64_EncodeToString s) = map Some vs" "b64_groups vs = Some s"
    by blast
  have d: "code b div 16 < 16" "code c div 64 < 4"
    using code_less [of b] code_less [of c] by (simp_all add: less_mult_imp_div_less)
  let ?g = "[code a div 4, code a mod 4 * 16 + code b div 16, code b mod 16 * 4 + code c div 64,
      code c mod 64]"
  have "map unb64c (b64_EncodeToString (a # b # c # s)) = map Some (?g @ vs)"
    using vs(1) by (simp add: unb64c_b64c b64_bounds)
  moreover have "b64_groups (?g @ vs) = Some (a # b # c # s)"
    using vs(2) b64_join [OF d(1), of a] b64_join2 [OF d(2), of "code a mod 4" b]
      b64_join3 [of "code b mod 16" c]
    by simp
  ultimately show ?case by blast
qed

lemma b64_roundtrip: "b64_DecodeString (b64_EncodeToString s) = Some s"
proof -
  obtain vs where "map unb64c (b64_EncodeToString s) = map Some vs" "b64_groups vs = Some s"
    using b64_symbols by blast
  then show ?thesis
    by (simp add: b64_DecodeString_def b64_filter Let_def list_all_iff comp_def)
qed

end
