(* ===== verification/NetUrl.thy ===== *)
theory NetUrl
  imports Codec NetAddr
begin

text \<open>
  The part of Go's \<open>net/url\<close> (Go 1.26) that the plugin uses: escaping, \<open>Parse\<close>, \<open>String\<close>,
  \<open>ResolveReference\<close> and query strings. Parse errors keep their message; quoting of the offending
  URL in that message is exact for ASCII text. The lemma of use to the other theories is that
  unescaping inverts escaping.
\<close>

section \<open>Escaping\<close>

datatype url_mode = encPath | encHost | encZone | encUser | encQuery | encFragment

definition alnum :: "char \<Rightarrow> bool" where
  "alnum c \<longleftrightarrow> is_digit c \<or> is_upper c \<or> is_lower c"

definition host_chars :: string where
  "host_chars = ''!$&'' @ [CHR 0x27] @ ''()*+,;=:[]<>'' @ [QUOTE]"

definition shouldEscape :: "char \<Rightarrow> url_mode \<Rightarrow> bool" where
  "shouldEscape c m =
     (if alnum c then False
      else if (m = encHost \<or> m = encZone) \<and> c \<in> set host_chars then False
      else if c \<in> set ''-_.~'' then False
      else if c \<in> set ''$&+,/:;=?@'' \<and> m = encPath then c = CHR ''?''
      else if c \<in> set ''$&+,/:;=?@'' \<and> m = encUser then c \<in> set ''@/?:''
      else if c \<in> set ''$&+,/:;=?@'' \<and> m = encQuery then True
      else if c \<in> set ''$&+,/:;=?@'' \<and> m = encFragment then False
      else if m = encFragment \<and> c \<in> set ''!()*'' then False
      else True)"

definition upper_hex :: "nat \<Rightarrow> char" where
  "upper_hex d = char_of (if d < 10 then 48 + d else 55 + d)"

definition esc_byte :: "char \<Rightarrow> string" where
  "esc_byte c = [CHR ''%'', upper_hex (code c div 16), upper_hex (code c mod 16)]"

definition escape :: "string \<Rightarrow> url_mode \<Rightarrow> string" where
  "escape s m = concat (map (\<lambda>c.
     if c = CHR '' '' \<and> m = encQuery then ''+''
     else if shouldEscape c m then esc_byte c else [c]) s)"

definition url_unhex :: "char \<Rightarrow> nat option" where
  "url_unhex c =
     (if is_digit c then Some (code c - 48)
      else if 97 \<le> code c \<and> code c \<le> 102 then Some (code c - 87)
      else if 65 \<le> code c \<and> code c \<le> 70 then Some (code c - 55)
      else None)"

text \<open>The error of a bad escape carries the three bytes at fault.\<close>

definition escape_error :: "string \<Rightarrow> string" where
  "escape_error s = ''invalid URL escape '' @ [QUOTE] @ take 3 s @ [QUOTE]"

fun unescape :: "string \<Rightarrow> url_mode \<Rightarrow> string + string" where
  "unescape [] m = Inr []"
| "unescape (c # s) m =
     (if c = CHR ''%'' then
        (case s of
           a # b # t \<Rightarrow>
             (case (url_unhex a, url_unhex b) of
                (Some x, Some y) \<Rightarrow>
                  let v = char_of (16 * x + y) in
                  if m = encHost \<and> x < 8 \<and> [a, b] \<noteq> ''25'' then Inl (escape_error (c # s))
                  else if m = encZone \<and> [a, b] \<noteq> ''25'' \<and> v \<noteq> CHR '' '' \<and> shouldEscape v encHost
                  then Inl (escape_error (c # s))
                  else map_sum id (\<lambda>r. v # r) (unescape t m)
              | _ \<Rightarrow> Inl (escape_error (c # s)))
         | _ \<Rightarrow> Inl (escape_error (c # s)))
      else if (m = encHost \<or> m = encZone) \<and> is_ascii c \<and> shouldEscape c m then
        Inl (''invalid character '' @ [QUOTE, c, QUOTE] @ '' in host name'')
      else map_sum id (\<lambda>r. (if m = encQuery \<and> c = CHR ''+'' then CHR '' '' else c) # r) (unescape s m))"

definition QueryEscape :: "string \<Rightarrow> string" where
  "QueryEscape s = escape s encQuery"

lemma url_unhex_upper: "d < 16 \<Longrightarrow> url_unhex (upper_hex d) = Some d"
  by (auto simp: url_unhex_def upper_hex_def is_digit_def)

lemma escape_Nil [simp]: "escape [] m = []"
  by (simp add: escape_def)

lemma escape_Cons:
  "escape (c # s) m =
     (if c = CHR '' '' \<and> m = encQuery then ''+'' else if shouldEscape c m then esc_byte c else [c]) @ escape s m"
  by (simp add: escape_def)

lemma unescape_esc_byte:
  assumes "m \<noteq> encHost" "m \<noteq> encZone"
  shows "unescape (esc_byte c @ t) m = map_sum id (\<lambda>r. c # r) (unescape t m)"
proof -
  have "code c div 16 < 16" using code_less [of c] by simp
  moreover have "char_of (16 * (code c div 16) + code c mod 16) = c"
    by simp
  ultimately show ?thesis using assms by (simp add: esc_byte_def url_unhex_upper)
qed

lemma unescape_escape:
  assumes "m \<noteq> encHost" "m \<noteq> encZone"
  shows "unescape (escape s m @ t) m = map_sum id (\<lambda>r. s @ r) (unescape t m)"
proof (induction s)
  case Nil
  show ?case by (cases "unescape t m") simp_all
next
  case (Cons c s)
  have pct: "shouldEscape (CHR ''%'') m" using assms by (cases m) (simp_all add: shouldEscape_def alnum_def is_digit_def is_upper_def is_lower_def)
  have plus: "shouldEscape (CHR ''+'') encQuery" by (simp add: shouldEscape_def alnum_def is_digit_def is_upper_def is_lower_def)
  show ?case
  proof (cases "unescape (escape s m @ t) m")
    case (Inl e)
    with Cons.IH obtain e' where "unescape t m = Inl e'" by (cases "unescape t m") auto
    with Inl Cons.IH assms pct show ?thesis
      by (auto simp: escape_Cons unescape_esc_byte)
  next
    case (Inr r)
    with Cons.IH obtain r' where "unescape t m = Inr r'" "r = s @ r'" by (cases "unescape t m") auto
    with Inr Cons.IH assms pct plus show ?thesis
      by (auto simp: escape_Cons unescape_esc_byte)
  qed
qed

lemma unescape_QueryEscape [simp]: "unescape (QueryEscape s) encQuery = Inr s"
  using unescape_escape [of encQuery s "[]"] by (simp add: QueryEscape_def)

section \<open>Parsing\<close>

record userinfo =
  ui_username :: string
  ui_password :: string
  ui_passwordSet :: bool

record url =
  url_Scheme :: string
  url_Opaque :: string
  url_User :: "userinfo option"
  url_Host :: string
  url_Path :: string
  url_RawPath :: string
  url_OmitHost :: bool
  url_ForceQuery :: bool
  url_RawQuery :: string
  url_Fragment :: string
  url_RawFragment :: string

definition empty_url :: url where
  "empty_url = \<lparr>url_Scheme = [], url_Opaque = [], url_User = None, url_Host = [], url_Path = [],
     url_RawPath = [], url_OmitHost = False, url_ForceQuery = False, url_RawQuery = [],
     url_Fragment = [], url_RawFragment = []\<rparr>"

text \<open>\<open>getScheme\<close>: the scheme and the rest, or an error when a colon comes first.\<close>

fun scheme_loop :: "string \<Rightarrow> string \<Rightarrow> string \<Rightarrow> string + (string \<times> string)" where
  "scheme_loop raw acc [] = Inr ([], raw)"
| "scheme_loop raw acc (c # s) =
     (if is_upper c \<or> is_lower c then scheme_loop raw (c # acc) s
      else if is_digit c \<or> c \<in> set ''+-.'' then
        (if acc = [] then Inr ([], raw) else scheme_loop raw (c # acc) s)
      else if c = CHR '':'' then
        (if acc = [] then Inl ''missing protocol scheme'' else Inr (rev acc, s))
      else Inr ([], raw))"

definition cut :: "string \<Rightarrow> char \<Rightarrow> string \<times> string" where
  "cut s c = (case split2 s c of (a, None) \<Rightarrow> (a, []) | (a, Some b) \<Rightarrow> (a, b))"

definition validOptionalPort :: "string \<Rightarrow> bool" where
  "validOptionalPort p \<longleftrightarrow> p = [] \<or> (hd p = CHR '':'' \<and> list_all is_digit (tl p))"

definition port_error :: "string \<Rightarrow> string" where
  "port_error p = ''invalid port '' @ [QUOTE] @ p @ [QUOTE] @ '' after host''"

text \<open>The text between the brackets must be an IPv6 address, with an optional zone.\<close>

definition bracket_ok :: "string \<Rightarrow> bool" where
  "bracket_ok h =
     (case index_byte h (CHR ''%'') of
        None \<Rightarrow> parseIPv6 h \<noteq> None
      | Some i \<Rightarrow> i + 1 < length h \<and> parseIPv6 (take i h) \<noteq> None)"

fun split_zone :: "string \<Rightarrow> string \<Rightarrow> (string \<times> string) option" where
  "split_zone acc [] = None"
| "split_zone acc (c # s) =
     (if has_prefix (c # s) ''%25'' then Some (rev acc, c # s) else split_zone (c # acc) s)"

definition parseHost :: "string \<Rightarrow> string + string" where
  "parseHost h =
     (case last_index_byte h (CHR ''['') of
        Some (Suc _) \<Rightarrow> Inl ''invalid IP-literal''
      | Some 0 \<Rightarrow>
          (case last_index_byte h (CHR '']'') of
             None \<Rightarrow> Inl ''missing ']' in host''
           | Some i \<Rightarrow>
               if \<not> validOptionalPort (drop (Suc i) h) then Inl (port_error (drop (Suc i) h))
               else
                 let name = take (i - 1) (tl h);
                     un = (case split_zone [] name of
                         None \<Rightarrow> unescape name encHost
                       | Some (a, z) \<Rightarrow>
                           (case (unescape a encHost, unescape z encZone) of
                              (Inl e, _) \<Rightarrow> Inl e
                            | (_, Inl e) \<Rightarrow> Inl e
                            | (Inr x, Inr y) \<Rightarrow> Inr (x @ y)))
                 in (case un of
                      Inl e \<Rightarrow> Inl e
                    | Inr n \<Rightarrow>
                        if bracket_ok n then Inr ([CHR ''[''] @ n @ [CHR '']''] @ drop (Suc i) h)
                        else Inl ''invalid host''))
      | None \<Rightarrow>
          (case index_byte h (CHR '':'') of
             None \<Rightarrow> unescape h encHost
           | Some i \<Rightarrow>
               if validOptionalPort (drop i h) then unescape h encHost else Inl (port_error (drop i h))))"

definition validUserinfo :: "string \<Rightarrow> bool" where
  "validUserinfo s \<longleftrightarrow>
     list_all (\<lambda>c. alnum c \<or> c \<in> set (''-._:~!$&'' @ [CHR 0x27] @ ''()*+,;=%@'')) s"

definition parseUser :: "string \<Rightarrow> string + userinfo" where
  "parseUser ui =
     (if \<not> validUserinfo ui then Inl ''net/url: invalid userinfo''
      else
        let (u, p) = split2 ui (CHR '':'') in
        case (unescape u encUser, unescape (case p of None \<Rightarrow> [] | Some p \<Rightarrow> p) encUser) of
          (Inl e, _) \<Rightarrow> Inl e
        | (_, Inl e) \<Rightarrow> Inl e
        | (Inr u, Inr q) \<Rightarrow> Inr \<lparr>ui_username = u, ui_password = q, ui_passwordSet = (p \<noteq> None)\<rparr>)"

definition parseAuthority :: "string \<Rightarrow> string + (userinfo option \<times> string)" where
  "parseAuthority a =
     (case last_index_byte a (CHR ''@'') of
        None \<Rightarrow> map_sum id (\<lambda>h. (None, h)) (parseHost a)
      | Some i \<Rightarrow>
          (case (parseHost (drop (Suc i) a), parseUser (take i a)) of
             (Inl e, _) \<Rightarrow> Inl e
           | (_, Inl e) \<Rightarrow> Inl e
           | (Inr h, Inr u) \<Rightarrow> Inr (Some u, h)))"

definition setPath :: "string \<Rightarrow> url \<Rightarrow> string + url" where
  "setPath p u =
     (case unescape p encPath of
        Inl e \<Rightarrow> Inl e
      | Inr path \<Rightarrow>
          Inr (u\<lparr>url_Path := path, url_RawPath := (if escape path encPath = p then [] else p)\<rparr>))"

definition setFragment :: "string \<Rightarrow> url \<Rightarrow> string + url" where
  "setFragment f u =
     (case unescape f encFragment of
        Inl e \<Rightarrow> Inl e
      | Inr g \<Rightarrow>
          Inr (u\<lparr>url_Fragment := g, url_RawFragment := (if escape g encFragment = f then [] else f)\<rparr>))"

definition is_ctl :: "char \<Rightarrow> bool" where
  "is_ctl c \<longleftrightarrow> code c < 32 \<or> code c = 127"

text \<open>\<open>parse(rawURL, false)\<close>.\<close>

definition url_parse_nofrag :: "string \<Rightarrow> string + url" where
  "url_parse_nofrag raw =
     (if list_ex is_ctl raw then Inl ''net/url: invalid control character in URL''
      else if raw = ''*'' then Inr (empty_url\<lparr>url_Path := ''*''\<rparr>)
      else case scheme_loop raw [] raw of
        Inl e \<Rightarrow> Inl e
      | Inr (sch, rest) \<Rightarrow>
          let force = (has_suffix rest ''?'' \<and> length (filter (\<lambda>c. c = CHR ''?'') rest) = 1);
              (rest, q) = cut rest (CHR ''?'');
              u = empty_url\<lparr>url_Scheme := to_lower sch, url_ForceQuery := force, url_RawQuery := q\<rparr>
          in if \<not> has_prefix rest ''/'' \<and> sch \<noteq> [] then Inr (u\<lparr>url_Opaque := rest\<rparr>)
             else if \<not> has_prefix rest ''/'' \<and> CHR '':'' \<in> set (fst (cut rest (CHR ''/''))) then
               Inl ''first path segment in URL cannot contain colon''
             else if (sch \<noteq> [] \<or> \<not> has_prefix rest ''///'') \<and> has_prefix rest ''//'' then
               (let auth = takeWhile (\<lambda>c. c \<noteq> CHR ''/'') (drop 2 rest);
                    path = dropWhile (\<lambda>c. c \<noteq> CHR ''/'') (drop 2 rest)
                in case parseAuthority auth of
                     Inl e \<Rightarrow> Inl e
                   | Inr (ui, h) \<Rightarrow> setPath path (u\<lparr>url_User := ui, url_Host := h\<rparr>))
             else setPath rest (u\<lparr>url_OmitHost := (sch \<noteq> [] \<and> has_prefix rest ''/'')\<rparr>))"

text \<open>\<open>%q\<close>, exact for ASCII text.\<close>

definition go_quote :: "string \<Rightarrow> string" where
  "go_quote s = [QUOTE] @ concat (map (\<lambda>c.
     if c = QUOTE \<or> c = CHR 0x5C then [CHR 0x5C, c]
     else if c = LF then [CHR 0x5C, CHR ''n''] else if c = CR then [CHR 0x5C, CHR ''r'']
     else if c = TAB then [CHR 0x5C, CHR ''t'']
     else if code c = 7 then [CHR 0x5C, CHR ''a''] else if code c = 8 then [CHR 0x5C, CHR ''b'']
     else if code c = 11 then [CHR 0x5C, CHR ''v''] else if code c = 12 then [CHR 0x5C, CHR ''f'']
     else if is_ctl c then [CHR 0x5C, CHR ''x''] @ hex_EncodeToString [c]
     else [c]) s) @ [QUOTE]"

definition url_Parse :: "string \<Rightarrow> err + url" where
  "url_Parse raw =
     (let (u, frag) = cut raw (CHR ''#'') in
      case url_parse_nofrag u of
        Inl e \<Rightarrow> Inl (Err OtherErr (''parse '' @ go_quote u @ '': '' @ e))
      | Inr x \<Rightarrow>
          (if frag = [] then Inr x
           else case setFragment frag x of
             Inl e \<Rightarrow> Inl (Err OtherErr (''parse '' @ go_quote raw @ '': '' @ e))
           | Inr y \<Rightarrow> Inr y))"

section \<open>Printing and resolving\<close>

definition validEncoded :: "string \<Rightarrow> url_mode \<Rightarrow> bool" where
  "validEncoded s m \<longleftrightarrow>
     list_all (\<lambda>c. c \<in> set (''!$&'' @ [CHR 0x27] @ ''()*+,;=:@[]%'') \<or> \<not> shouldEscape c m) s"

definition EscapedPath :: "url \<Rightarrow> string" where
  "EscapedPath u =
     (if url_RawPath u \<noteq> [] \<and> validEncoded (url_RawPath u) encPath \<and>
         unescape (url_RawPath u) encPath = Inr (url_Path u) then url_RawPath u
      else if url_Path u = ''*'' then ''*''
      else escape (url_Path u) encPath)"

definition EscapedFragment :: "url \<Rightarrow> string" where
  "EscapedFragment u =
     (if url_RawFragment u \<noteq> [] \<and> validEncoded (url_RawFragment u) encFragment \<and>
         unescape (url_RawFragment u) encFragment = Inr (url_Fragment u) then url_RawFragment u
      else escape (url_Fragment u) encFragment)"

definition user_String :: "userinfo \<Rightarrow> string" where
  "user_String ui =
     (if ui_username ui = [] \<and> ui_password ui = [] then []
      else escape (ui_username ui) encUser @
        (if ui_passwordSet ui then CHR '':'' # escape (ui_password ui) encUser else []))"

definition url_String :: "url \<Rightarrow> string" where
  "url_String u =
     (let sch = (if url_Scheme u = [] then [] else url_Scheme u @ '':'');
          auth = (if url_Scheme u = [] \<and> url_Host u = [] \<and> url_User u = None then []
            else if url_OmitHost u \<and> url_Host u = [] \<and> url_User u = None then []
            else (if url_Host u \<noteq> [] \<or> url_Path u \<noteq> [] \<or> url_User u \<noteq> None then ''//'' else []) @
              (case url_User u of None \<Rightarrow> [] | Some ui \<Rightarrow> user_String ui @ ''@'') @
              escape (url_Host u) encHost);
          path = EscapedPath u;
          slash = (if path \<noteq> [] \<and> hd path \<noteq> CHR ''/'' \<and> url_Host u \<noteq> [] then ''/'' else []);
          dot = (if sch @ auth @ slash = [] \<and> CHR '':'' \<in> set (fst (cut path (CHR ''/''))) then ''./'' else []);
          hier = (if url_Opaque u \<noteq> [] then url_Opaque u else auth @ slash @ dot @ path)
      in sch @ hier @
         (if url_ForceQuery u \<or> url_RawQuery u \<noteq> [] then CHR ''?'' # url_RawQuery u else []) @
         (if url_Fragment u \<noteq> [] then CHR ''#'' # EscapedFragment u else []))"

text \<open>The loop of \<open>resolvePath\<close>: \<open>dst\<close> is what is written after the leading slash.\<close>

fun dot_segments :: "bool \<Rightarrow> string \<Rightarrow> string list \<Rightarrow> string" where
  "dot_segments first dst [] = dst"
| "dot_segments first dst (e # es) =
     (if e = ''.'' then dot_segments False dst es @ (if es = [] then ''/'' else [])
      else if e = ''..'' then
        (case last_index_byte dst (CHR ''/'') of
           None \<Rightarrow> dot_segments True [] es
         | Some i \<Rightarrow> dot_segments first (take i dst) es) @ (if es = [] then ''/'' else [])
      else dot_segments False (dst @ (if first then [] else ''/'') @ e) es)"

definition resolvePath :: "string \<Rightarrow> string \<Rightarrow> string" where
  "resolvePath base ref =
     (let full = (if ref = [] then base
            else if hd ref \<noteq> CHR ''/'' then
              (case last_index_byte base (CHR ''/'') of None \<Rightarrow> ref | Some i \<Rightarrow> take (Suc i) base @ ref)
            else ref)
      in if full = [] then []
         else
           let r = CHR ''/'' # dot_segments True [] (split_all full (CHR ''/'')) in
           if has_prefix r ''//'' then tl r else r)"

text \<open>\<open>setPath\<close> whose error is ignored.\<close>

definition setPath_or :: "string \<Rightarrow> url \<Rightarrow> url" where
  "setPath_or p u = (case setPath p u of Inl _ \<Rightarrow> u | Inr v \<Rightarrow> v)"

definition ResolveReference :: "url \<Rightarrow> url \<Rightarrow> url" where
  "ResolveReference u ref =
     (let url = ref\<lparr>url_Scheme := (if url_Scheme ref = [] then url_Scheme u else url_Scheme ref)\<rparr> in
      if url_Scheme ref \<noteq> [] \<or> url_Host ref \<noteq> [] \<or> url_User ref \<noteq> None then
        setPath_or (resolvePath (EscapedPath ref) []) url
      else if url_Opaque ref \<noteq> [] then url\<lparr>url_User := None, url_Host := [], url_Path := []\<rparr>
      else
        let url = (if url_Path ref = [] \<and> \<not> url_ForceQuery ref \<and> url_RawQuery ref = [] then
              url\<lparr>url_RawQuery := url_RawQuery u,
                url_Fragment := (if url_Fragment ref = [] then url_Fragment u else url_Fragment ref),
                url_RawFragment := (if url_Fragment ref = [] then url_RawFragment u else url_RawFragment ref)\<rparr>
            else url)
        in if url_Path ref = [] \<and> url_Opaque u \<noteq> [] then
             url\<lparr>url_Opaque := url_Opaque u, url_User := None, url_Host := [], url_Path := []\<rparr>
           else
             setPath_or (resolvePath (EscapedPath u) (EscapedPath ref))
               (url\<lparr>url_Host := url_Host u, url_User := url_User u\<rparr>))"

section \<open>Query strings\<close>

definition query_pair :: "string \<Rightarrow> (string \<times> string) option" where
  "query_pair s =
     (if s = [] \<or> CHR '';'' \<in> set s then None
      else let (k, v) = cut s (CHR ''='') in
        case (unescape k encQuery, unescape v encQuery) of
          (Inr k, Inr v) \<Rightarrow> Some (k, v)
        | _ \<Rightarrow> None)"

text \<open>\<open>URL.Query()\<close>: the pairs in order; malformed ones are dropped.\<close>

definition ParseQuery :: "string \<Rightarrow> (string \<times> string) list" where
  "ParseQuery q = List.map_filter query_pair (split_all q (CHR ''&''))"

definition query_Get :: "string \<Rightarrow> (string \<times> string) list \<Rightarrow> string" where
  "query_Get k q = (case map_of q k of None \<Rightarrow> [] | Some v \<Rightarrow> v)"

end
