(* ===== verification/Sha256.thy ===== *)
theory Sha256
  imports Codec "HOL-Library.Word"
begin

unbundle bit_operations_syntax

text \<open>
  \<open>crypto/sha256\<close> and \<open>crypto/hmac\<close> as FIPS 180-4 and RFC 2104 define them. No theorem of the
  development depends on a cryptographic assumption; what is used is that both are functions of
  their arguments with results of 32 bytes.
\<close>

text \<open>
  The constants are the first 32 bits of the fractional parts of the cube roots of the first 64
  primes, and of the square roots of the first eight: \<open>frac_root k p\<close> finds the k-th root of
  \<open>p * 2 ^ (32 * k)\<close> bit by bit and keeps its low 32 bits.
\<close>

definition sha_primes :: "nat list" where
  "sha_primes = filter (\<lambda>p. list_all (\<lambda>d. p mod d \<noteq> 0) [2..<p]) [2..<312]"

definition int_root :: "nat \<Rightarrow> int \<Rightarrow> int" where
  "int_root k n = foldl (\<lambda>r b. if (r + 2 ^ b) ^ k \<le> n then r + 2 ^ b else r) 0 (rev [0..<40])"

definition frac_root :: "nat \<Rightarrow> nat \<Rightarrow> 32 word" where
  "frac_root k p = word_of_int (int_root k (int p * 2 ^ (32 * k)))"

definition sha_K :: "32 word list" where
  "sha_K = map (frac_root 3) sha_primes"

definition sha_init :: "32 word list" where
  "sha_init = map (frac_root 2) (take 8 sha_primes)"

abbreviation ror :: "nat \<Rightarrow> 32 word \<Rightarrow> 32 word" where
  "ror n x \<equiv> word_rotr n x"

definition be32 :: "int list \<Rightarrow> 32 word" where
  "be32 bs = of_int (foldl (\<lambda>a b. 256 * a + b) 0 bs)"

definition bytes_of :: "nat \<Rightarrow> int \<Rightarrow> int list" where
  "bytes_of k n = map (\<lambda>i. n div 256 ^ (k - 1 - i) mod 256) [0..<k]"

definition sha_pad :: "int list \<Rightarrow> int list" where
  "sha_pad bs =
     (let l = length bs; z = (119 - l mod 64) mod 64
      in bs @ [0x80] @ replicate z 0 @ bytes_of 8 (8 * int l))"

fun sha_schedule :: "nat \<Rightarrow> 32 word list \<Rightarrow> 32 word list" where
  "sha_schedule 0 ws = ws"
| "sha_schedule (Suc n) ws =
     (let t = length ws; w2 = ws ! (t - 2); w15 = ws ! (t - 15);
          s1 = ror 17 w2 XOR ror 19 w2 XOR drop_bit 10 w2;
          s0 = ror 7 w15 XOR ror 18 w15 XOR drop_bit 3 w15
      in sha_schedule n (ws @ [s1 + ws ! (t - 7) + s0 + ws ! (t - 16)]))"

definition sha_round :: "32 word list \<Rightarrow> 32 word \<times> 32 word \<Rightarrow> 32 word list" where
  "sha_round v kw =
     (let a = v ! 0; b = v ! 1; c = v ! 2; d = v ! 3; e = v ! 4; f = v ! 5; g = v ! 6; h = v ! 7;
          t1 = h + (ror 6 e XOR ror 11 e XOR ror 25 e) + ((e AND f) XOR (NOT e AND g)) + fst kw + snd kw;
          t2 = (ror 2 a XOR ror 13 a XOR ror 22 a) + ((a AND b) XOR (a AND c) XOR (b AND c))
      in [t1 + t2, a, b, c, d + t1, e, f, g])"

definition sha_block :: "32 word list \<Rightarrow> int list \<Rightarrow> 32 word list" where
  "sha_block hs blk =
     (let ws = sha_schedule 48 (map (\<lambda>i. be32 (take 4 (drop (4 * i) blk))) [0..<16])
      in map2 (+) hs (foldl sha_round hs (zip sha_K ws)))"

fun sha_blocks :: "nat \<Rightarrow> 32 word list \<Rightarrow> int list \<Rightarrow> 32 word list" where
  "sha_blocks 0 hs bs = hs"
| "sha_blocks (Suc n) hs bs = sha_blocks n (sha_block hs (take 64 bs)) (drop 64 bs)"

definition sha256 :: "string \<Rightarrow> string" where
  "sha256 s =
     (let p = sha_pad (map of_char s); hs = sha_blocks (length p div 64) sha_init p
      in map char_of (concat (map (\<lambda>i. bytes_of 4 (uint (hs ! i))) [0..<8])))"

definition xor_key :: "int \<Rightarrow> string \<Rightarrow> string" where
  "xor_key p k = map (\<lambda>c. char_of ((of_char c :: int) XOR p)) k"

definition hmac_sha256 :: "string \<Rightarrow> string \<Rightarrow> string" where
  "hmac_sha256 key msg =
     (let k = (if 64 < length key then sha256 key else key);
          k = k @ replicate (64 - length k) (CHR 0x00)
      in sha256 (xor_key 0x5C k @ sha256 (xor_key 0x36 k @ msg)))"

lemma length_bytes_of [simp]: "length (bytes_of k n) = k"
  by (simp add: bytes_of_def)

lemma length_sha256 [simp]: "length (sha256 s) = 32"
  by (simp add: sha256_def Let_def length_concat comp_def sum_list_triv)

lemma length_hmac [simp]: "length (hmac_sha256 k m) = 32"
  by (simp add: hmac_sha256_def Let_def)

end
