(* ===== verification/Http.thy ===== *)
theory Http
  imports HttpGuard NetUrl Sha256
begin

text \<open>
  The parts of \<open>net/http\<close> the plugin uses. An outgoing request is its method, parsed URL and
  header; an upstream response is its status, header and body, a body being the bytes read
  and how the reading ends (\<^typ>\<open>http_body\<close>). An incoming request carries what the router and the
  library took from the wire: path parameters, header, cookies, raw query, body and peer
  address, and the user id the middleware puts in its context. Headers map canonical names
  to single values.
\<close>

section \<open>Headers\<close>

definition tchar :: "char \<Rightarrow> bool" where
  "tchar c \<longleftrightarrow> alnum c \<or> c \<in> set (''!#$%&'' @ [CHR 0x27] @ ''*+-.^_`|~'')"

fun canon_loop :: "bool \<Rightarrow> string \<Rightarrow> string" where
  "canon_loop up [] = []"
| "canon_loop up (c # s) =
     (if up \<and> is_lower c then char_of (code c - 32) else if \<not> up then lower_char c else c) #
       canon_loop (c = CHR ''-'') s"

text \<open>\<open>textproto.CanonicalMIMEHeaderKey\<close>: a name with other bytes is left alone.\<close>

definition canon_key :: "string \<Rightarrow> string" where
  "canon_key k = (if list_all tchar k then canon_loop True k else k)"

definition hdr_Set :: "string \<Rightarrow> string \<Rightarrow> smap \<Rightarrow> smap" where
  "hdr_Set k v h = AList.update (canon_key k) v h"

definition hdr_Get :: "string \<Rightarrow> smap \<Rightarrow> string" where
  "hdr_Get k h = (case map_of h (canon_key k) of None \<Rightarrow> [] | Some v \<Rightarrow> v)"

text \<open>\<open>for k, v := range headers { req.Header.Set(k, v) }\<close>.\<close>

definition hdr_SetAll :: "smap \<Rightarrow> smap \<Rightarrow> smap" where
  "hdr_SetAll kvs h = foldl (\<lambda>h (k, v). hdr_Set k v h) h kvs"

lemma hdr_Get_Set [simp]:
  "hdr_Get k (hdr_Set j v h) = (if canon_key k = canon_key j then v else hdr_Get k h)"
  by (simp add: hdr_Get_def hdr_Set_def update_conv')

section \<open>Outgoing requests\<close>

record http_req =
  or_Method :: string
  or_URL :: url
  or_Header :: smap

record http_resp =
  rp_Status :: int
  rp_Header :: smap
  rp_Body :: http_body

text \<open>\<open>http.NewRequest\<close>: an empty port is dropped from the host.\<close>

definition removeEmptyPort :: "string \<Rightarrow> string" where
  "removeEmptyPort h = (if has_suffix h '':'' then butlast h else h)"

definition NewRequest :: "string \<Rightarrow> string \<Rightarrow> err + http_req" where
  "NewRequest meth raw =
     (case url_Parse raw of
        Inl e \<Rightarrow> Inl e
      | Inr u \<Rightarrow> Inr \<lparr>or_Method = meth, or_URL = u\<lparr>url_Host := removeEmptyPort (url_Host u)\<rparr>, or_Header = []\<rparr>)"

section \<open>Incoming requests and responses\<close>

record request =
  rq_ctx :: bool
  rq_UserID :: string
  rq_params :: smap
  rq_Header :: smap
  rq_Cookies :: smap
  rq_Path :: string
  rq_RawQuery :: string
  rq_Body :: string
  rq_RemoteAddr :: string

definition URLParam :: "request \<Rightarrow> string \<Rightarrow> string" where
  "URLParam r k = (case map_of (rq_params r) k of None \<Rightarrow> [] | Some v \<Rightarrow> v)"

definition Query :: "request \<Rightarrow> string \<Rightarrow> string" where
  "Query r k = query_Get k (ParseQuery (rq_RawQuery r))"

text \<open>All the values of a parameter, in order.\<close>

definition QueryAll :: "request \<Rightarrow> string \<Rightarrow> string list" where
  "QueryAll r k = map snd (filter (\<lambda>kv. fst kv = k) (ParseQuery (rq_RawQuery r)))"

record response =
  rs_Status :: int
  rs_Header :: smap
  rs_Cookie :: smap
  rs_Body :: string

definition response0 :: response where
  "response0 = \<lparr>rs_Status = 200, rs_Header = [], rs_Cookie = [], rs_Body = []\<rparr>"

text \<open>\<open>http.Error\<close>.\<close>

definition http_Error :: "string \<Rightarrow> int \<Rightarrow> response" where
  "http_Error msg status = response0\<lparr>rs_Status := status,
     rs_Header := [(''Content-Type'', ''text/plain; charset=utf-8''), (''X-Content-Type-Options'', ''nosniff'')],
     rs_Body := msg @ [LF]\<rparr>"

lemma http_Error_simps [simp]:
  "rs_Status (http_Error m c) = c" "rs_Body (http_Error m c) = m @ [LF]" "rs_Cookie (http_Error m c) = []"
  by (simp_all add: http_Error_def response0_def)

end
