(* ===== verification/Tables.thy ===== *)
theory Tables
  imports Http
begin

text \<open>
  The database the plugin works on, as created by \<open>src/internal/migrate/files\<close>, and the way the
  code calls it. A table is the list of its rows (table order is what a query without an
  \<open>ORDER BY\<close> returns); the columns that no query reads (\<open>created_at\<close> and \<open>updated_at\<close> outside
  \<open>user_favorites\<close>) are left out. The \<open>jsonb\<close> columns hold the string maps they encode.

  PostgreSQL itself is not part of the repository: its text collation and its \<open>lower\<close> are the
  fields \<open>pg_coll\<close> (a sort key) and \<open>pg_lower\<close> of the database state, and a statement may fail
  for reasons the model does not see. The \<open>world\<close> therefore carries a script: for each
  database call how much later it runs and the error it fails with, if any. A failing
  statement leaves the database unchanged. \<open>ulid\<close> supplies the identifiers the code mints, \<open>uni_lower\<close> is
  the case folding of Go's Unicode tables on text that is not ASCII. The world also holds the other
  outside parties: \<open>upstream\<close> answers the n-th HTTP request of the plugin after a delay, \<open>sent\<close>
  is the list of the requests made so far, and \<open>entropy\<close> the outcomes of \<open>crypto/rand.Read\<close>.
\<close>

section \<open>Rows\<close>

text \<open>A PostgreSQL \<open>interval\<close> (\<open>pgtype.Interval\<close>; the columns are \<open>NOT NULL\<close>).\<close>

record interval =
  iv_Microseconds :: int
  iv_Days :: int
  iv_Months :: int

record source_row =
  sr_id :: string
  sr_name :: string
  sr_url :: string
  sr_http_headers :: smap
  sr_enabled :: bool
  sr_refresh_interval :: interval
  sr_last_refreshed_at :: "time option"
  sr_last_status :: string
  sr_etag :: string
  sr_last_modified :: string

record xmltv_row = source_row +
  sr_gzip :: bool

record settings_row =
  st_default_m3u_refresh :: interval
  st_default_xmltv_refresh :: interval
  st_guide_window_cap :: interval
  st_per_user_stream_cap :: int
  st_per_channel_default_cap :: int
  st_session_idle_timeout :: interval

record channel_row =
  ch_ID :: string
  ch_SourceM3UID :: string
  ch_SourceChannelID :: string
  ch_DisplayName :: string
  ch_LogoURL :: string
  ch_UpstreamURL :: string
  ch_UpstreamKind :: string
  ch_ChannelNumberSrc :: string
  ch_ChannelNumberAdmin :: "string option"
  ch_GroupTitleSrc :: string
  ch_GroupTitleAdmin :: "string option"
  ch_Attrs :: smap
  ch_EnabledSrc :: bool
  ch_EnabledAdmin :: "bool option"
  ch_Position :: int

record epg_key =
  ek_channel_id :: string
  ek_xmltv_channel_id :: string
  ek_auto_linked :: bool

record Credit =
  cr_Kind :: string
  cr_Name :: string
  cr_Position :: int

record program_row =
  pr_ID :: string
  pr_XMLTVChannelID :: string
  pr_Title :: string
  pr_SubTitle :: string
  pr_Description :: string
  pr_EpisodeNum :: string
  pr_Rating :: string
  pr_IconURL :: string
  pr_Start :: time
  pr_Stop :: time
  pr_Categories :: "string list"
  pr_SeasonNum :: "int option"
  pr_Episode :: "int option"
  pr_OriginalAirDate :: "time option"

record credit_row = Credit +
  cr_program_id :: string

record favorite_row =
  fv_user_id :: string
  fv_channel_id :: string
  fv_position :: int
  fv_created_at :: time

record recent_row =
  rc_user_id :: string
  rc_channel_id :: string
  rc_last_tuned_at :: time

record session_row =
  ss_id :: string
  ss_user_id :: string
  ss_channel_id :: string
  ss_scoped_grant_id :: string
  ss_session_secret :: string
  ss_started_at :: time
  ss_last_byte_at :: time
  ss_bytes_streamed :: int
  ss_client_ip :: "goip option"
  ss_user_agent :: string
  ss_ended_at :: "time option"
  ss_end_reason :: string

record db =
  m3u_sources :: "source_row list"
  xmltv_sources :: "xmltv_row list"
  settings :: "settings_row option"
  channels :: "channel_row list"
  channel_epg_keys :: "epg_key list"
  programs :: "program_row list"
  program_credits :: "credit_row list"
  user_favorites :: "favorite_row list"
  user_recent :: "recent_row list"
  stream_sessions :: "session_row list"
  pg_lower :: "string \<Rightarrow> string"
  pg_coll :: "string \<Rightarrow> string"

section \<open>Statements\<close>

record world =
  wdb :: db
  wnow :: time
  script :: "(nat \<times> err option) list"
  ulid :: "nat \<Rightarrow> string"
  ulid_next :: nat
  uni_lower :: "string \<Rightarrow> string"
  upstream :: "nat \<Rightarrow> http_req \<Rightarrow> nat \<times> (err + http_resp)"
  sent :: "http_req list"
  entropy :: "nat \<Rightarrow> err + string"
  entropy_next :: nat

text \<open>Whether the request context a call is made under has been cancelled.\<close>

type_synonym ctx = bool

abbreviation (input) live :: ctx where "live \<equiv> False"

definition err_canceled :: err where
  "err_canceled = Err CtxCanceled ''context canceled''"

definition err_no_rows :: err where
  "err_no_rows = Err NoRows ''no rows in result set''"

definition constraint_error :: "string \<Rightarrow> err" where
  "constraint_error m = Err DbFailure m"

type_synonym 'a stmt = "time \<Rightarrow> db \<Rightarrow> (err + 'a) \<times> db"

text \<open>\<open>timestamptz\<close> has a resolution of one microsecond.\<close>

definition pg_ts :: "time \<Rightarrow> time" where
  "pg_ts t = t div 1000 * 1000"

text \<open>The check on \<open>channels.upstream_kind\<close>.\<close>

definition upstream_kinds :: "string list" where
  "upstream_kinds = [''mpegts'', ''hls'', ''unknown'']"

text \<open>The range of an \<open>int\<close> column.\<close>

definition in_int32 :: "int \<Rightarrow> bool" where
  "in_int32 i \<longleftrightarrow> - (2 ^ 31) \<le> i \<and> i < 2 ^ 31"

definition db_call :: "ctx \<Rightarrow> 'a stmt \<Rightarrow> world \<Rightarrow> (err + 'a) \<times> world" where
  "db_call ctx f w =
     (if ctx then (Inl err_canceled, w)
      else
        let (d, flt) = (case script w of [] \<Rightarrow> (0, None) | s # _ \<Rightarrow> s);
            w1 = w\<lparr>wnow := wnow w + int d, script := tl (script w)\<rparr>
        in case flt of
             Some e \<Rightarrow> (Inl e, w1)
           | None \<Rightarrow>
               (case f (pg_ts (wnow w1)) (wdb w1) of
                  (Inl e, _) \<Rightarrow> (Inl e, w1)
                | (Inr a, s) \<Rightarrow> (Inr a, w1\<lparr>wdb := s\<rparr>)))"

definition newULID :: "world \<Rightarrow> string \<times> world" where
  "newULID w = (ulid w (ulid_next w), w\<lparr>ulid_next := Suc (ulid_next w)\<rparr>)"

text \<open>\<open>rand.Read\<close> into a buffer of 32 bytes.\<close>

definition rand_Read :: "world \<Rightarrow> (err + string) \<times> world" where
  "rand_Read w = (entropy w (entropy_next w), w\<lparr>entropy_next := Suc (entropy_next w)\<rparr>)"

text \<open>\<open>Client.Do\<close>; under a cancelled context no connection is made.\<close>

definition http_Do :: "ctx \<Rightarrow> http_req \<Rightarrow> world \<Rightarrow> (err + http_resp) \<times> world" where
  "http_Do ctx req w =
     (if ctx then (Inl err_canceled, w)
      else let (d, r) = upstream w (length (sent w)) req
        in (r, w\<lparr>wnow := wnow w + int d, sent := sent w @ [req]\<rparr>))"

lemma http_Do_wdb [simp]: "wdb (snd (http_Do ctx req w)) = wdb w"
  by (simp add: http_Do_def split: prod.splits)

text \<open>\<open>fmt.Errorf("p: %w", err)\<close> around the result of a call.\<close>

fun wrap_err :: "string \<Rightarrow> (err + 'a) \<times> world \<Rightarrow> (err + 'a) \<times> world" where
  "wrap_err p (Inl e, w) = (Inl (wrapf p e), w)"
| "wrap_err p (Inr a, w) = (Inr a, w)"

text \<open>A statement that only reads, and the number of rows a predicate selects.\<close>

definition sql_read :: "(time \<Rightarrow> db \<Rightarrow> 'a) \<Rightarrow> 'a stmt" where
  "sql_read q = (\<lambda>now s. (Inr (q now s), s))"

definition sql_count :: "('r \<Rightarrow> bool) \<Rightarrow> 'r list \<Rightarrow> int" where
  "sql_count P rs = int (length (filter P rs))"

definition sql_update :: "('r \<Rightarrow> bool) \<Rightarrow> ('r \<Rightarrow> 'r) \<Rightarrow> 'r list \<Rightarrow> 'r list" where
  "sql_update P f rs = map (\<lambda>r. if P r then f r else r) rs"

definition sql_delete :: "('r \<Rightarrow> bool) \<Rightarrow> 'r list \<Rightarrow> 'r list" where
  "sql_delete P rs = filter (\<lambda>r. \<not> P r) rs"

text \<open>\<open>QueryRow\<close> reports a missing row as \<open>pgx.ErrNoRows\<close>.\<close>

definition sql_row :: "(time \<Rightarrow> db \<Rightarrow> 'a option) \<Rightarrow> 'a stmt" where
  "sql_row q = (\<lambda>now s. (case q now s of None \<Rightarrow> Inl err_no_rows | Some a \<Rightarrow> Inr a, s))"

text \<open>The pattern of a \<open>Get\<close> method: \<open>ErrNoRows\<close> becomes \<open>ErrNotFound\<close>.\<close>

fun not_found_of :: "(err + 'a) \<times> world \<Rightarrow> (err + 'a) \<times> world" where
  "not_found_of (Inl e, w) = (Inl (if ekind e = NoRows then err_not_found else e), w)"
| "not_found_of (Inr a, w) = (Inr a, w)"

text \<open>The pattern of an update by id: no row affected becomes \<open>ErrNotFound\<close>.\<close>

fun require_rows :: "(err + int) \<times> world \<Rightarrow> (err + unit) \<times> world" where
  "require_rows (Inl e, w) = (Inl e, w)"
| "require_rows (Inr n, w) = (if n = 0 then (Inl err_not_found, w) else (Inr (), w))"

lemma sql_update_map: "(\<And>r. g (f r) = g r) \<Longrightarrow> map g (sql_update P f rs) = map g rs"
  by (auto simp: sql_update_def)

lemma set_sql_delete [simp]: "set (sql_delete P rs) = {r \<in> set rs. \<not> P r}"
  by (auto simp: sql_delete_def)

lemma distinct_sql_delete: "distinct (map g rs) \<Longrightarrow> distinct (map g (sql_delete P rs))"
  by (simp add: sql_delete_def distinct_map_filter)

lemma sql_count_0 [simp]: "sql_count P rs = 0 \<longleftrightarrow> (\<forall>r \<in> set rs. \<not> P r)"
  by (auto simp: sql_count_def filter_empty_conv)

lemma db_call_canceled [simp]: "db_call True f w = (Inl err_canceled, w)"
  by (simp add: db_call_def)

lemma db_call_wdb:
  "db_call ctx f w = (r, w') \<Longrightarrow>
   wdb w' = wdb w \<or> (\<exists>now a. f now (wdb w) = (Inr a, wdb w') \<and> r = Inr a)"
  by (auto simp: db_call_def Let_def split: if_splits prod.splits option.splits sum.splits list.splits)

text \<open>Statements run without delay or failure when the script is empty.\<close>

lemma db_call_quiet:
  "script w = [] \<Longrightarrow> db_call False f w =
     (case f (pg_ts (wnow w)) (wdb w) of
        (Inl e, _) \<Rightarrow> (Inl e, w) | (Inr a, s) \<Rightarrow> (Inr a, w\<lparr>wdb := s\<rparr>))"
  by (auto simp: db_call_def Let_def split: prod.splits sum.splits)

lemma db_call_read_wdb: "db_call ctx (sql_read q) w = (r, w') \<Longrightarrow> wdb w' = wdb w"
  by (auto simp: db_call_def sql_read_def Let_def split: if_splits prod.splits option.splits list.splits)

lemma db_call_row_wdb: "db_call ctx (sql_row q) w = (r, w') \<Longrightarrow> wdb w' = wdb w"
  by (auto simp: db_call_def sql_row_def Let_def split: if_splits prod.splits option.splits list.splits)

section \<open>Text: case and pattern matching\<close>

text \<open>
  \<open>strings.ToLower\<close>: Go folds ASCII text bytewise; for other text it applies the Unicode
  tables, the parameter \<open>uni\<close>.
\<close>

definition go_ToLower :: "(string \<Rightarrow> string) \<Rightarrow> string \<Rightarrow> string" where
  "go_ToLower uni s = (if list_all is_ascii s then to_lower s else uni s)"

text \<open>SQL \<open>LIKE\<close>: percent sign, underscore and the backslash as the escape character.\<close>

fun like :: "string \<Rightarrow> string \<Rightarrow> bool" where
  "like s [] = (s = [])"
| "like [] (p # ps) = (p = CHR ''%'' \<and> like [] ps)"
| "like (c # s) (p # ps) =
     (if p = CHR ''%'' then like (c # s) ps \<or> like s (p # ps)
      else if p = CHR ''_'' then like (dropWhile (\<lambda>b. 128 \<le> code b \<and> code b < 192) s) ps
      else if p = CHR 0x5C then (case ps of [] \<Rightarrow> False | q # qs \<Rightarrow> c = q \<and> like s qs)
      else c = p \<and> like s ps)"

end
