(* ===== verification/StoreSources.thy ===== *)
theory StoreSources
  imports Tables
begin

text \<open>
  \<open>src/internal/store/sources.go\<close> and \<open>settings.go\<close>: the M3U and XMLTV sources and the singleton
  settings row. The configuration columns of a source are written by \<open>Update\<close>, the status
  columns by \<open>Mark\<close>; deleting an M3U source cascades to its channels and to everything that
  refers to them. Durations are stored as intervals with a resolution of one microsecond.
\<close>

section \<open>Durations and intervals\<close>

text \<open>Go's integer division truncates towards zero.\<close>

definition go_quot :: "int \<Rightarrow> int \<Rightarrow> int" where
  "go_quot a b = (if a < 0 then - ((- a) div b) else a div b)"

definition durationToInterval :: "duration \<Rightarrow> interval" where
  "durationToInterval d = \<lparr>iv_Microseconds = go_quot d 1000, iv_Days = 0, iv_Months = 0\<rparr>"

definition intervalToDuration :: "interval \<Rightarrow> duration" where
  "intervalToDuration iv =
     wrap64 (wrap64 (iv_Microseconds iv * 1000) + wrap64 (iv_Days iv * (24 * hour)) +
       wrap64 (iv_Months iv * (30 * 24 * hour)))"

lemma interval_roundtrip:
  assumes "in_int64 d"
  shows "intervalToDuration (durationToInterval d) = go_quot d 1000 * 1000"
proof -
  have "in_int64 (go_quot d 1000 * 1000)"
  proof (cases "d < 0")
    case True
    have "- d div 1000 * 1000 \<le> - d" by simp
    with assms True show ?thesis by (simp add: in_int64_def go_quot_def)
  next
    case False
    have "d div 1000 * 1000 \<le> d" by simp
    with assms False show ?thesis by (simp add: in_int64_def go_quot_def)
  qed
  then show ?thesis
    by (simp add: intervalToDuration_def durationToInterval_def wrap64_id in_int64_def)
qed

section \<open>Source values and rows\<close>

record M3USource =
  src_ID :: string
  src_Name :: string
  src_URL :: string
  src_HTTPHeaders :: smap
  src_Enabled :: bool
  src_RefreshInterval :: duration
  src_LastRefreshedAt :: "time option"
  src_LastStatus :: string
  src_ETag :: string
  src_LastModified :: string

record XMLTVSource = M3USource +
  src_Gzip :: bool

definition scanM3USource :: "'a source_row_scheme \<Rightarrow> M3USource" where
  "scanM3USource r =
     \<lparr>src_ID = sr_id r, src_Name = sr_name r, src_URL = sr_url r, src_HTTPHeaders = sr_http_headers r,
      src_Enabled = sr_enabled r, src_RefreshInterval = intervalToDuration (sr_refresh_interval r),
      src_LastRefreshedAt = sr_last_refreshed_at r, src_LastStatus = sr_last_status r,
      src_ETag = sr_etag r, src_LastModified = sr_last_modified r\<rparr>"

definition scanXMLTVSource :: "xmltv_row \<Rightarrow> XMLTVSource" where
  "scanXMLTVSource r = M3USource.extend (scanM3USource r) \<lparr>src_Gzip = sr_gzip r\<rparr>"

text \<open>The row an \<open>INSERT\<close> writes: \<open>last_refreshed_at\<close> is not among its columns.\<close>

definition source_to_row :: "'a M3USource_scheme \<Rightarrow> source_row" where
  "source_to_row x =
     \<lparr>sr_id = src_ID x, sr_name = src_Name x, sr_url = src_URL x, sr_http_headers = src_HTTPHeaders x,
      sr_enabled = src_Enabled x, sr_refresh_interval = durationToInterval (src_RefreshInterval x),
      sr_last_refreshed_at = None, sr_last_status = src_LastStatus x, sr_etag = src_ETag x,
      sr_last_modified = src_LastModified x\<rparr>"

definition set_config :: "'b M3USource_scheme \<Rightarrow> 'a source_row_scheme \<Rightarrow> 'a source_row_scheme" where
  "set_config x r =
     r\<lparr>sr_name := src_Name x, sr_url := src_URL x, sr_http_headers := src_HTTPHeaders x,
       sr_enabled := src_Enabled x, sr_refresh_interval := durationToInterval (src_RefreshInterval x)\<rparr>"

definition set_status ::
  "time \<Rightarrow> string \<Rightarrow> string \<Rightarrow> string \<Rightarrow> 'a source_row_scheme \<Rightarrow> 'a source_row_scheme" where
  "set_status t st et lm r =
     r\<lparr>sr_last_refreshed_at := Some (pg_ts t), sr_last_status := st, sr_etag := et,
       sr_last_modified := lm\<rparr>"

section \<open>M3U sources\<close>

definition ListM3USources :: "ctx \<Rightarrow> world \<Rightarrow> (err + M3USource list) \<times> world" where
  "ListM3USources ctx w =
     wrap_err ''list m3u_sources'' (db_call ctx (sql_read (\<lambda>now s.
       map scanM3USource (sort_key (\<lambda>r. pg_coll s (sr_name r)) (m3u_sources s)))) w)"

definition GetM3USource :: "ctx \<Rightarrow> string \<Rightarrow> world \<Rightarrow> (err + M3USource) \<times> world" where
  "GetM3USource ctx sid w =
     not_found_of (wrap_err ''scan m3u_source'' (db_call ctx (sql_row (\<lambda>now s.
       map_option scanM3USource (find (\<lambda>r. sr_id r = sid) (m3u_sources s)))) w))"

definition insert_m3u :: "source_row \<Rightarrow> unit stmt" where
  "insert_m3u r = (\<lambda>now s.
     if sr_id r \<in> sr_id ` set (m3u_sources s) then (Inl (constraint_error ''duplicate key''), s)
     else (Inr (), s\<lparr>m3u_sources := m3u_sources s @ [r]\<rparr>))"

definition CreateM3USource :: "ctx \<Rightarrow> M3USource \<Rightarrow> world \<Rightarrow> (err + M3USource) \<times> world" where
  "CreateM3USource ctx x w =
     (let (sid, w) = (if src_ID x = [] then newULID w else (src_ID x, w));
          x = x\<lparr>src_ID := sid\<rparr>
      in case wrap_err ''create m3u_source'' (db_call ctx (insert_m3u (source_to_row x)) w) of
           (Inl e, w) \<Rightarrow> (Inl e, w)
         | (Inr _, w) \<Rightarrow> GetM3USource ctx sid w)"

definition update_m3u :: "string \<Rightarrow> (source_row \<Rightarrow> source_row) \<Rightarrow> int stmt" where
  "update_m3u sid f = (\<lambda>now s.
     (Inr (sql_count (\<lambda>r. sr_id r = sid) (m3u_sources s)),
      s\<lparr>m3u_sources := sql_update (\<lambda>r. sr_id r = sid) f (m3u_sources s)\<rparr>))"

definition UpdateM3USource :: "ctx \<Rightarrow> M3USource \<Rightarrow> world \<Rightarrow> (err + unit) \<times> world" where
  "UpdateM3USource ctx x w =
     require_rows (wrap_err ''update m3u_source'' (db_call ctx (update_m3u (src_ID x) (set_config x)) w))"

text \<open>\<open>ON DELETE CASCADE\<close>: the channels of the source, then all rows that refer to them.\<close>

definition delete_m3u :: "string \<Rightarrow> int stmt" where
  "delete_m3u sid = (\<lambda>now s.
     let gone = ch_ID ` set (filter (\<lambda>c. ch_SourceM3UID c = sid) (channels s)) in
     (Inr (sql_count (\<lambda>r. sr_id r = sid) (m3u_sources s)),
      if sid \<notin> sr_id ` set (m3u_sources s) then s
      else s\<lparr>m3u_sources := sql_delete (\<lambda>r. sr_id r = sid) (m3u_sources s),
          channels := sql_delete (\<lambda>c. ch_SourceM3UID c = sid) (channels s),
          channel_epg_keys := sql_delete (\<lambda>k. ek_channel_id k \<in> gone) (channel_epg_keys s),
          user_favorites := sql_delete (\<lambda>f. fv_channel_id f \<in> gone) (user_favorites s),
          user_recent := sql_delete (\<lambda>r. rc_channel_id r \<in> gone) (user_recent s),
          stream_sessions := sql_delete (\<lambda>x. ss_channel_id x \<in> gone) (stream_sessions s)\<rparr>))"

definition DeleteM3USource :: "ctx \<Rightarrow> string \<Rightarrow> world \<Rightarrow> (err + unit) \<times> world" where
  "DeleteM3USource ctx sid w =
     require_rows (wrap_err ''delete m3u_source'' (db_call ctx (delete_m3u sid) w))"

definition MarkM3UStatus ::
  "ctx \<Rightarrow> string \<Rightarrow> string \<Rightarrow> string \<Rightarrow> string \<Rightarrow> time \<Rightarrow> world \<Rightarrow> (err + unit) \<times> world" where
  "MarkM3UStatus ctx sid st et lm t w =
     require_rows (wrap_err ''mark m3u status'' (db_call ctx (update_m3u sid (set_status t st et lm)) w))"

section \<open>XMLTV sources\<close>

definition ListXMLTVSources :: "ctx \<Rightarrow> world \<Rightarrow> (err + XMLTVSource list) \<times> world" where
  "ListXMLTVSources ctx w =
     wrap_err ''list xmltv_sources'' (db_call ctx (sql_read (\<lambda>now s.
       map scanXMLTVSource (sort_key (\<lambda>r. pg_coll s (sr_name r)) (xmltv_sources s)))) w)"

definition GetXMLTVSource :: "ctx \<Rightarrow> string \<Rightarrow> world \<Rightarrow> (err + XMLTVSource) \<times> world" where
  "GetXMLTVSource ctx sid w =
     not_found_of (wrap_err ''scan xmltv_source'' (db_call ctx (sql_row (\<lambda>now s.
       map_option scanXMLTVSource (find (\<lambda>r. sr_id r = sid) (xmltv_sources s)))) w))"

definition insert_xmltv :: "xmltv_row \<Rightarrow> unit stmt" where
  "insert_xmltv r = (\<lambda>now s.
     if sr_id r \<in> sr_id ` set (xmltv_sources s) then (Inl (constraint_error ''duplicate key''), s)
     else (Inr (), s\<lparr>xmltv_sources := xmltv_sources s @ [r]\<rparr>))"

definition CreateXMLTVSource :: "ctx \<Rightarrow> XMLTVSource \<Rightarrow> world \<Rightarrow> (err + XMLTVSource) \<times> world" where
  "CreateXMLTVSource ctx x w =
     (let (sid, w) = (if src_ID x = [] then newULID w else (src_ID x, w));
          x = x\<lparr>src_ID := sid\<rparr>
      in case wrap_err ''create xmltv_source'' (db_call ctx
            (insert_xmltv (source_row.extend (source_to_row x) \<lparr>sr_gzip = src_Gzip x\<rparr>)) w) of
           (Inl e, w) \<Rightarrow> (Inl e, w)
         | (Inr _, w) \<Rightarrow> GetXMLTVSource ctx sid w)"

definition update_xmltv :: "string \<Rightarrow> (xmltv_row \<Rightarrow> xmltv_row) \<Rightarrow> int stmt" where
  "update_xmltv sid f = (\<lambda>now s.
     (Inr (sql_count (\<lambda>r. sr_id r = sid) (xmltv_sources s)),
      s\<lparr>xmltv_sources := sql_update (\<lambda>r. sr_id r = sid) f (xmltv_sources s)\<rparr>))"

definition UpdateXMLTVSource :: "ctx \<Rightarrow> XMLTVSource \<Rightarrow> world \<Rightarrow> (err + unit) \<times> world" where
  "UpdateXMLTVSource ctx x w =
     require_rows (wrap_err ''update xmltv_source'' (db_call ctx
       (update_xmltv (src_ID x) (\<lambda>r. (set_config x r)\<lparr>sr_gzip := src_Gzip x\<rparr>)) w))"

definition delete_xmltv :: "string \<Rightarrow> int stmt" where
  "delete_xmltv sid = (\<lambda>now s.
     (Inr (sql_count (\<lambda>r. sr_id r = sid) (xmltv_sources s)),
      s\<lparr>xmltv_sources := sql_delete (\<lambda>r. sr_id r = sid) (xmltv_sources s)\<rparr>))"

definition DeleteXMLTVSource :: "ctx \<Rightarrow> string \<Rightarrow> world \<Rightarrow> (err + unit) \<times> world" where
  "DeleteXMLTVSource ctx sid w =
     require_rows (wrap_err ''delete xmltv_source'' (db_call ctx (delete_xmltv sid) w))"

definition MarkXMLTVStatus ::
  "ctx \<Rightarrow> string \<Rightarrow> string \<Rightarrow> string \<Rightarrow> string \<Rightarrow> time \<Rightarrow> world \<Rightarrow> (err + unit) \<times> world" where
  "MarkXMLTVStatus ctx sid st et lm t w =
     require_rows (wrap_err ''mark xmltv status'' (db_call ctx (update_xmltv sid (set_status t st et lm)) w))"

section \<open>Settings\<close>

record SettingsRow =
  sg_DefaultM3URefresh :: duration
  sg_DefaultXMLTVRefresh :: duration
  sg_GuideWindowCap :: duration
  sg_PerUserStreamCap :: int
  sg_PerChannelDefaultCap :: int
  sg_SessionIdleTimeout :: duration

definition scan_settings :: "settings_row \<Rightarrow> SettingsRow" where
  "scan_settings r =
     \<lparr>sg_DefaultM3URefresh = intervalToDuration (st_default_m3u_refresh r),
      sg_DefaultXMLTVRefresh = intervalToDuration (st_default_xmltv_refresh r),
      sg_GuideWindowCap = intervalToDuration (st_guide_window_cap r),
      sg_PerUserStreamCap = st_per_user_stream_cap r,
      sg_PerChannelDefaultCap = st_per_channel_default_cap r,
      sg_SessionIdleTimeout = intervalToDuration (st_session_idle_timeout r)\<rparr>"

definition GetSettings :: "ctx \<Rightarrow> world \<Rightarrow> (err + SettingsRow) \<times> world" where
  "GetSettings ctx w =
     wrap_err ''get settings'' (db_call ctx (sql_row (\<lambda>now s. map_option scan_settings (settings s))) w)"

definition settings_to_row :: "SettingsRow \<Rightarrow> settings_row" where
  "settings_to_row v =
     \<lparr>st_default_m3u_refresh = durationToInterval (sg_DefaultM3URefresh v),
      st_default_xmltv_refresh = durationToInterval (sg_DefaultXMLTVRefresh v),
      st_guide_window_cap = durationToInterval (sg_GuideWindowCap v),
      st_per_user_stream_cap = sg_PerUserStreamCap v,
      st_per_channel_default_cap = sg_PerChannelDefaultCap v,
      st_session_idle_timeout = durationToInterval (sg_SessionIdleTimeout v)\<rparr>"

definition update_settings :: "SettingsRow \<Rightarrow> unit stmt" where
  "update_settings v = (\<lambda>now s.
     if \<not> (in_int32 (sg_PerUserStreamCap v) \<and> in_int32 (sg_PerChannelDefaultCap v)) then
       (Inl (constraint_error ''integer out of range''), s)
     else (Inr (), s\<lparr>settings := map_option (\<lambda>_. settings_to_row v) (settings s)\<rparr>))"

definition UpdateSettings :: "ctx \<Rightarrow> SettingsRow \<Rightarrow> world \<Rightarrow> (err + unit) \<times> world" where
  "UpdateSettings ctx v w = wrap_err ''update settings'' (db_call ctx (update_settings v) w)"

end
