(* ===== verification/Json.thy ===== *)
theory Json
  imports Prelude Codec
begin

text \<open>
  The part of \<open>encoding/json\<close> the plugin relies on: values, compact encoding with the default
  HTML escaping, decoding, and the access to fields \<open>Unmarshal\<close> performs for a struct (keys
  compared without regard to case, the last value wins, \<open>null\<close> leaves the field alone). A number
  is kept as its literal. The main lemma is that decoding what was encoded gives the value
  back, for values whose strings are valid UTF-8. The decoder's limit of 10000 nesting levels
  is not modelled; the text of a request body is bounded by it only in theory.
\<close>

section \<open>UTF-8\<close>

text \<open>\<open>utf8.DecodeRune\<close>: the length of the valid encoding a text starts with.\<close>

definition between :: "nat \<Rightarrow> char \<Rightarrow> nat \<Rightarrow> bool" where
  "between a c b \<longleftrightarrow> a \<le> code c \<and> code c \<le> b"

fun utf8_len :: "string \<Rightarrow> nat option" where
  "utf8_len [] = None"
| "utf8_len [a] = (if between 0 a 127 then Some 1 else None)"
| "utf8_len [a, b] =
     (if between 0 a 127 then Some 1
      else if between 194 a 223 \<and> between 128 b 191 then Some 2 else None)"
| "utf8_len [a, b, c] =
     (if between 0 a 127 then Some 1
      else if between 194 a 223 \<and> between 128 b 191 then Some 2
      else if between 128 c 191 \<and>
         ((code a = 224 \<and> between 160 b 191) \<or> (between 225 a 236 \<and> between 128 b 191) \<or>
          (code a = 237 \<and> between 128 b 159) \<or> (between 238 a 239 \<and> between 128 b 191))
      then Some 3 else None)"
| "utf8_len (a # b # c # d # s) =
     (if between 0 a 127 then Some 1
      else if between 194 a 223 \<and> between 128 b 191 then Some 2
      else if between 128 c 191 \<and>
         ((code a = 224 \<and> between 160 b 191) \<or> (between 225 a 236 \<and> between 128 b 191) \<or>
          (code a = 237 \<and> between 128 b 159) \<or> (between 238 a 239 \<and> between 128 b 191))
      then Some 3
      else if between 128 c 191 \<and> between 128 d 191 \<and>
         ((code a = 240 \<and> between 144 b 191) \<or> (between 241 a 243 \<and> between 128 b 191) \<or>
          (code a = 244 \<and> between 128 b 143))
      then Some 4 else None)"

definition rune_error :: string where
  "rune_error = [CHR 0xEF, CHR 0xBF, CHR 0xBD]"

text \<open>\<open>utf8.EncodeRune\<close>.\<close>

definition utf8_encode :: "nat \<Rightarrow> string" where
  "utf8_encode r =
     (if r < 128 then [char_of r]
      else if r < 2048 then [char_of (192 + r div 64), char_of (128 + r mod 64)]
      else if (55296 \<le> r \<and> r < 57344) \<or> 1114111 < r then rune_error
      else if r < 65536 then
        [char_of (224 + r div 4096), char_of (128 + r div 64 mod 64), char_of (128 + r mod 64)]
      else
        [char_of (240 + r div 262144), char_of (128 + r div 4096 mod 64),
         char_of (128 + r div 64 mod 64), char_of (128 + r mod 64)])"

lemma utf8_len_bounds: "utf8_len s = Some n \<Longrightarrow> 0 < n \<and> n \<le> length s \<and> n \<le> 4"
  by (induction s rule: utf8_len.induct) (auto split: if_splits)

text \<open>Valid UTF-8 text.\<close>

function utf8_valid :: "string \<Rightarrow> bool" where
  "utf8_valid s =
     (s = [] \<or> (case utf8_len s of None \<Rightarrow> False | Some n \<Rightarrow> utf8_valid (drop n s)))"
  by pat_completeness auto
termination
  by (relation "measure length") (auto dest: utf8_len_bounds)

declare utf8_valid.simps [simp del]

lemma utf8_len_ascii: "is_ascii c \<Longrightarrow> utf8_len (c # s) = Some 1"
  by (cases "c # s" rule: utf8_len.cases) (auto simp: is_ascii_def between_def)

lemma utf8_valid_ascii: "list_all is_ascii s \<Longrightarrow> utf8_valid s"
  by (induction s) (simp_all add: utf8_valid.simps utf8_len_ascii)

section \<open>Encoding strings\<close>

definition BSL :: char where "BSL = CHR 0x5C"

text \<open>The bytes copied as they are: printable ASCII but for the quote, the backslash and the three
  HTML characters.\<close>

definition json_safe :: "char \<Rightarrow> bool" where
  "json_safe c \<longleftrightarrow>
     32 \<le> code c \<and> code c < 128 \<and> c \<notin> {QUOTE, CHR 0x5C, CHR ''<'', CHR ''>'', CHR ''&''}"

definition esc_ascii :: "char \<Rightarrow> string" where
  "esc_ascii c =
     (if json_safe c then [c]
      else if c = QUOTE \<or> c = BSL then [BSL, c]
      else if code c = 8 then [BSL, CHR ''b'']
      else if code c = 12 then [BSL, CHR ''f'']
      else if c = LF then [BSL, CHR ''n'']
      else if c = CR then [BSL, CHR ''r'']
      else if c = TAB then [BSL, CHR ''t'']
      else [BSL, CHR ''u'', CHR ''0'', CHR ''0'', hexc (code c div 16), hexc (code c mod 16)])"

definition line_sep :: "string list" where
  "line_sep = [[CHR 0xE2, CHR 0x80, CHR 0xA8], [CHR 0xE2, CHR 0x80, CHR 0xA9]]"

function json_escape :: "string \<Rightarrow> string" where
  "json_escape s =
     (case s of
        [] \<Rightarrow> []
      | c # cs \<Rightarrow>
          if code c < 128 then esc_ascii c @ json_escape cs
          else (case utf8_len s of
                  None \<Rightarrow> BSL # ''ufffd'' @ json_escape cs
                | Some n \<Rightarrow>
                    (if take 3 s = line_sep ! 0 then BSL # ''u2028''
                     else if take 3 s = line_sep ! 1 then BSL # ''u2029''
                     else take n s) @ json_escape (drop n s)))"
  by pat_completeness auto
termination
  by (relation "measure length") (auto dest: utf8_len_bounds)

declare json_escape.simps [simp del]

definition json_quote :: "string \<Rightarrow> string" where
  "json_quote s = QUOTE # json_escape s @ [QUOTE]"

section \<open>Decoding strings\<close>

definition hex4 :: "string \<Rightarrow> nat option" where
  "hex4 s =
     (case map unhexc (take 4 s) of
        [Some a, Some b, Some c, Some d] \<Rightarrow> Some (((a * 16 + b) * 16 + c) * 16 + d)
      | _ \<Rightarrow> None)"

definition unesc1 :: "char \<Rightarrow> char option" where
  "unesc1 e =
     (if e = QUOTE \<or> e = BSL \<or> e = CHR ''/'' then Some e
      else if e = CHR ''b'' then Some (char_of (8::nat))
      else if e = CHR ''f'' then Some (char_of (12::nat))
      else if e = CHR ''n'' then Some LF
      else if e = CHR ''r'' then Some CR
      else if e = CHR ''t'' then Some TAB
      else None)"

text \<open>A \<open>\u\<close> escape; the surrogate halves combine, a lone one is the replacement character. The
  result is the decoded text and the number of bytes consumed after the \<open>u\<close>.\<close>

definition unesc_u :: "string \<Rightarrow> (string \<times> nat) option" where
  "unesc_u s =
     (case hex4 s of
        None \<Rightarrow> None
      | Some r \<Rightarrow>
          if 55296 \<le> r \<and> r < 57344 then
            (case (drop 4 s) of
               b # u # t \<Rightarrow>
                 (if b = BSL \<and> u = CHR ''u'' then
                    (case hex4 t of
                       None \<Rightarrow> Some (rune_error, 4)
                     | Some r2 \<Rightarrow>
                         if r < 56320 \<and> 56320 \<le> r2 \<and> r2 < 57344
                         then Some (utf8_encode (65536 + (r - 55296) * 1024 + (r2 - 56320)), 10)
                         else Some (rune_error, 4))
                  else Some (rune_error, 4))
             | _ \<Rightarrow> Some (rune_error, 4))
          else Some (utf8_encode r, 4))"

text \<open>The text up to the closing quote and the rest behind it; control characters are errors.\<close>

function json_string :: "string \<Rightarrow> (string \<times> string) option" where
  "json_string s =
     (case s of
        [] \<Rightarrow> None
      | c # cs \<Rightarrow>
          if c = QUOTE then Some ([], cs)
          else if c = BSL then
            (case cs of
               [] \<Rightarrow> None
             | e # t \<Rightarrow>
                 if e = CHR ''u'' then
                   (case unesc_u t of
                      None \<Rightarrow> None
                    | Some (x, k) \<Rightarrow> map_option (\<lambda>(y, r). (x @ y, r)) (json_string (drop k t)))
                 else
                   (case unesc1 e of
                      None \<Rightarrow> None
                    | Some x \<Rightarrow> map_option (\<lambda>(y, r). (x # y, r)) (json_string t)))
          else if code c < 32 then None
          else if code c < 128 then map_option (\<lambda>(y, r). (c # y, r)) (json_string cs)
          else (case utf8_len s of
                  None \<Rightarrow> map_option (\<lambda>(y, r). (rune_error @ y, r)) (json_string cs)
                | Some n \<Rightarrow> map_option (\<lambda>(y, r). (take n s @ y, r)) (json_string (drop n s))))"
  by pat_completeness auto
termination
  by (relation "measure length") (auto dest: utf8_len_bounds)

declare json_string.simps [simp del]

text \<open>Every \<open>\u\<close> escape of two bytes or more consumes input.\<close>

lemma json_string_shorter: "json_string s = Some (x, r) \<Longrightarrow> length r < length s"
proof (induction s arbitrary: x r rule: json_string.induct)
  case (1 s)
  show ?case
  proof (cases s)
    case Nil
    with "1.prems" show ?thesis by (simp add: json_string.simps [of "[]"])
  next
    case (Cons c cs)
    then have s: "json_string (c # cs) = Some (x, r)" using "1.prems" by simp
    show ?thesis
      using s 1 Cons
      by (simp add: json_string.simps [of "c # cs"] split: if_splits list.splits option.splits prod.splits)
        (force dest: utf8_len_bounds)+
  qed
qed

subsection \<open>The round trip of strings\<close>

text \<open>Validity only looks at the bytes it accepts.\<close>

lemma utf8_len_take: "utf8_len s = Some n \<Longrightarrow> utf8_len (take n s @ t) = Some n"
proof -
  have "utf8_len (a # x) = Some 1" if "between 0 a 127" for a x
    using that by (cases "a # x" rule: utf8_len.cases) auto
  note one = this
  have two: "utf8_len (a # b # x) = Some 2"
    if "between 194 a 223" "between 128 b 191" "\<not> between 0 a 127" for a b x
    using that by (cases "a # b # x" rule: utf8_len.cases) auto
  show "utf8_len s = Some n \<Longrightarrow> utf8_len (take n s @ t) = Some n"
  proof (cases s rule: utf8_len.cases)
    case (4 a b c)
    assume "utf8_len s = Some n"
    with 4 consider "between 0 a 127" "n = 1" | "\<not> between 0 a 127" "n = 2" "between 194 a 223" "between 128 b 191"
      | "n = 3" by (auto split: if_splits)
    then show ?thesis
    proof cases
      case 3
      with 4 \<open>utf8_len s = Some n\<close> show ?thesis
        by (cases t) (auto split: if_splits)
    qed (use one two 4 in simp_all)
  next
    case (5 a b c d x)
    assume u: "utf8_len s = Some n"
    with 5 consider "between 0 a 127" "n = 1" | "\<not> between 0 a 127" "n = 2" "between 194 a 223" "between 128 b 191"
      | "n = 3" | "n = 4" by (auto split: if_splits)
    then show ?thesis
    proof cases
      case 3
      with 5 u show ?thesis by (cases t) (auto split: if_splits)
    next
      case 4
      with 5 u show ?thesis by (auto split: if_splits)
    qed (use one two 5 in simp_all)
  qed (use one two in \<open>auto split: if_splits\<close>)
qed

lemma hex4_esc: "code c < 256 \<Longrightarrow>
  hex4 (CHR ''0'' # CHR ''0'' # hexc (code c div 16) # hexc (code c mod 16) # t) = Some (code c)"
proof -
  have "unhexc CHR ''0'' = Some 0" by (simp add: unhexc_def)
  then show ?thesis by (simp add: hex4_def unhexc_hexc)
qed

lemma json_string_esc:
  assumes "code c < 128"
  shows "json_string (esc_ascii c @ t) = map_option (\<lambda>(y, r). (c # y, r)) (json_string t)"
proof -
  consider "json_safe c" | "\<not> json_safe c" "c = QUOTE \<or> c = BSL"
    | "\<not> json_safe c" "c \<noteq> QUOTE" "c \<noteq> BSL" "c = char_of (8::nat) \<or> c = char_of (12::nat) \<or> c = LF \<or> c = CR \<or> c = TAB"
    | "\<not> json_safe c" "c \<noteq> QUOTE" "c \<noteq> BSL"
      "\<not> (c = char_of (8::nat) \<or> c = char_of (12::nat) \<or> c = LF \<or> c = CR \<or> c = TAB)"
    by blast
  then show ?thesis
  proof cases
    case 1
    then show ?thesis
      by (simp add: esc_ascii_def json_string.simps [of "c # t"]) (auto simp: json_safe_def BSL_def)
  next
    case 2
    then show ?thesis
      by (auto simp: esc_ascii_def json_string.simps [of "_ # _ # _"] unesc1_def BSL_def)
  next
    case 3
    then show ?thesis
      by (auto simp: esc_ascii_def json_string.simps [of "_ # _ # _"] unesc1_def BSL_def)
  next
    case 4
    then have n: "code c \<noteq> 8" "code c \<noteq> 12" by (metis char_of_code)+
    have e: "utf8_encode (code c) = [c]" using assms by (simp add: utf8_encode_def)
    have "esc_ascii c = [BSL, CHR ''u'', CHR ''0'', CHR ''0'', hexc (code c div 16), hexc (code c mod 16)]"
      using 4 n by (simp add: esc_ascii_def)
    moreover have "unesc_u (CHR ''0'' # CHR ''0'' # hexc (code c div 16) # hexc (code c mod 16) # t) = Some ([c], 4)"
      using assms by (simp add: unesc_u_def hex4_esc e)
    ultimately show ?thesis
      by (simp add: json_string.simps [of "CHR 0x5C # _"] BSL_def)
  qed
qed

lemma hex4_2028: "hex4 (''2028'' @ t) = Some 8232" "hex4 (''2029'' @ t) = Some 8233"
  by (simp_all add: hex4_def unhexc_def)

lemma json_string_sep:
  "json_string (BSL # ''u2028'' @ t) = map_option (\<lambda>(y, r). (line_sep ! 0 @ y, r)) (json_string t)"
  "json_string (BSL # ''u2029'' @ t) = map_option (\<lambda>(y, r). (line_sep ! 1 @ y, r)) (json_string t)"
proof -
  have u: "unesc_u (''2028'' @ t) = Some (line_sep ! 0, 4)" "unesc_u (''2029'' @ t) = Some (line_sep ! 1, 4)"
    by (simp_all add: unesc_u_def hex4_2028 [simplified] utf8_encode_def line_sep_def char_of_def bit_0)
  then show "json_string (BSL # ''u2028'' @ t) = map_option (\<lambda>(y, r). (line_sep ! 0 @ y, r)) (json_string t)"
    "json_string (BSL # ''u2029'' @ t) = map_option (\<lambda>(y, r). (line_sep ! 1 @ y, r)) (json_string t)"
    by (simp_all add: json_string.simps [of "CHR 0x5C # _"] BSL_def)
qed

lemma utf8_len_high: "utf8_len (c # s) = Some n \<Longrightarrow> 128 \<le> code c \<Longrightarrow> 194 \<le> code c \<and> 2 \<le> n"
  by (cases "c # s" rule: utf8_len.cases) (auto simp: between_def split: if_splits)

lemma json_string_rune:
  assumes "utf8_len (c # cs) = Some n" "128 \<le> code c"
  shows "json_string (take n (c # cs) @ t) =
    map_option (\<lambda>(y, r). (take n (c # cs) @ y, r)) (json_string t)"
proof -
  have u: "utf8_len (take n (c # cs) @ t) = Some n" by (rule utf8_len_take [OF assms(1)])
  obtain m where m: "n = Suc m" using utf8_len_bounds [OF assms(1)] by (cases n) auto
  have l: "length (take n (c # cs)) = n" using utf8_len_bounds [OF assms(1)] by simp
  have "c \<noteq> QUOTE" "c \<noteq> BSL" "\<not> code c < 32" "\<not> code c < 128"
    using assms(2) by (auto simp: BSL_def)
  with u m l show ?thesis
    by (simp add: json_string.simps [of "c # _"])
qed

lemma utf8_len_sep: "utf8_len (line_sep ! 0 @ t) = Some 3" "utf8_len (line_sep ! 1 @ t) = Some 3"
  by (cases t; simp add: line_sep_def between_def)+

lemma json_escape_sep:
  "json_escape (line_sep ! 0 @ t) = BSL # ''u2028'' @ json_escape t"
  "json_escape (line_sep ! 1 @ t) = BSL # ''u2029'' @ json_escape t"
  using utf8_len_sep [of t]
  by (subst json_escape.simps; simp add: line_sep_def)+

lemma json_string_escape:
  "utf8_valid s \<Longrightarrow> json_string (json_escape s @ QUOTE # r) = Some (s, r)"
proof (induction s rule: json_escape.induct)
  case (1 s)
  show ?case
  proof (cases s)
    case Nil
    then show ?thesis by (simp add: json_escape.simps [of "[]"] json_string.simps [of "QUOTE # r"])
  next
    case (Cons c cs)
    show ?thesis
    proof (cases "code c < 128")
      case True
      then have "utf8_len (c # cs) = Some 1" by (simp add: utf8_len_ascii is_ascii_def)
      with "1.prems" Cons have "utf8_valid cs" by (simp add: utf8_valid.simps [of "c # cs"])
      with 1 Cons True have "json_string (json_escape cs @ QUOTE # r) = Some (cs, r)" by simp
      with Cons True show ?thesis
        by (simp add: json_escape.simps [of "c # cs"] json_string_esc)
    next
      case False
      with "1.prems" Cons obtain n where n: "utf8_len (c # cs) = Some n" "utf8_valid (drop n (c # cs))"
        by (auto simp: utf8_valid.simps [of "c # cs"] split: option.splits)
      have ih: "json_string (json_escape (drop n (c # cs)) @ QUOTE # r) = Some (drop n (c # cs), r)"
        using "1.IH"(3) [OF Cons False, of n] n Cons by simp
      show ?thesis
      proof (cases "take 3 (c # cs) \<in> set line_sep")
        case True
        then obtain i t where t: "c # cs = line_sep ! i @ t" "i = 0 \<or> i = 1"
        proof -
          from True have "\<exists>i. (i = 0 \<or> i = 1) \<and> take 3 (c # cs) = line_sep ! i"
            by (auto simp: line_sep_def)
          then show ?thesis using that append_take_drop_id [of 3 "c # cs"] by metis
        qed
        then have n3: "n = 3" using n(1) utf8_len_sep [of t] by auto
        with t have d: "drop n (c # cs) = t" by (auto simp: line_sep_def)
        have "json_escape s = BSL # (if i = 0 then ''u2028'' else ''u2029'') @ json_escape t"
          using t Cons json_escape_sep [of t] by auto
        moreover have "json_string (json_escape t @ QUOTE # r) = Some (t, r)" using ih unfolding d .
        ultimately show ?thesis
          using t json_string_sep [of "json_escape t @ QUOTE # r"] Cons by auto
      next
        case nosep: False
        then have "take 3 (c # cs) \<noteq> line_sep ! 0" "take 3 (c # cs) \<noteq> line_sep ! 1"
          by (auto simp: line_sep_def)
        with ih False n(1) Cons have "json_escape s = take n (c # cs) @ json_escape (drop n (c # cs))"
          by (simp add: json_escape.simps [of "c # cs"])
        with json_string_rune [OF n(1), of "json_escape (drop n (c # cs)) @ QUOTE # r"] ih False Cons
        show ?thesis by simp
      qed
    qed
  qed
qed

section \<open>Values\<close>

datatype json =
  JNull | JBool bool | JNum string | JStr string | JArr "json list" | JObj "(string \<times> json) list"

fun join_comma :: "string list \<Rightarrow> string" where
  "join_comma [] = []"
| "join_comma [x] = x"
| "join_comma (x # xs) = x @ CHR '','' # join_comma xs"

fun json_enc :: "json \<Rightarrow> string" where
  "json_enc JNull = ''null''"
| "json_enc (JBool b) = (if b then ''true'' else ''false'')"
| "json_enc (JNum n) = n"
| "json_enc (JStr s) = json_quote s"
| "json_enc (JArr vs) = CHR ''['' # join_comma (map json_enc vs) @ '']''"
| "json_enc (JObj kvs) =
     CHR ''{'' # join_comma (map (\<lambda>kv. json_quote (fst kv) @ CHR '':'' # json_enc (snd kv)) kvs) @ ''}''"

definition skip_ws :: "string \<Rightarrow> string" where
  "skip_ws s = dropWhile (\<lambda>c. c \<in> {CHR '' '', TAB, LF, CR}) s"

definition span_digits :: "string \<Rightarrow> string \<times> string" where
  "span_digits s = (takeWhile is_digit s, dropWhile is_digit s)"

text \<open>A number literal: sign, integer part without leading zeros, fraction, exponent.\<close>

definition num_int :: "string \<Rightarrow> (string \<times> string) option" where
  "num_int s =
     (let (d, r) = span_digits s in
      if d = [] then None
      else if hd d = CHR ''0'' then Some (''0'', tl s)
      else Some (d, r))"

definition num_frac :: "string \<Rightarrow> (string \<times> string) option" where
  "num_frac s =
     (if has_prefix s ''.'' then
        (let (d, r) = span_digits (tl s) in if d = [] then None else Some (CHR ''.'' # d, r))
      else Some ([], s))"

definition num_exp :: "string \<Rightarrow> (string \<times> string) option" where
  "num_exp s =
     (if has_prefix s ''e'' \<or> has_prefix s ''E'' then
        (let (sg, r) = (if has_prefix (tl s) ''+'' \<or> has_prefix (tl s) ''-''
                        then ([hd (tl s)], tl (tl s)) else ([], tl s));
             (d, r') = span_digits r
         in if d = [] then None else Some (hd s # sg @ d, r'))
      else Some ([], s))"

definition json_num :: "string \<Rightarrow> (string \<times> string) option" where
  "json_num s =
     (let (sg, s0) = (if has_prefix s ''-'' then (''-'', tl s) else ([], s)) in
      case num_int s0 of
        None \<Rightarrow> None
      | Some (i, s1) \<Rightarrow>
          (case num_frac s1 of
             None \<Rightarrow> None
           | Some (f, s2) \<Rightarrow>
               (case num_exp s2 of
                  None \<Rightarrow> None
                | Some (x, s3) \<Rightarrow> Some (sg @ i @ f @ x, s3))))"

text \<open>The decoder; \<open>json_members\<close> and \<open>json_elems\<close> start behind the opening bracket. Fuel: every
  call consumes a byte, so more fuel than bytes never runs out (\<open>json_fuel\<close> below).\<close>

fun json_value :: "nat \<Rightarrow> string \<Rightarrow> (json \<times> string) option"
  and json_members :: "nat \<Rightarrow> string \<Rightarrow> ((string \<times> json) list \<times> string) option"
  and json_elems :: "nat \<Rightarrow> string \<Rightarrow> (json list \<times> string) option" where
  "json_value 0 s = None"
| "json_value (Suc k) s =
     (case skip_ws s of
        [] \<Rightarrow> None
      | c # cs \<Rightarrow>
          if c = QUOTE then map_option (\<lambda>(x, r). (JStr x, r)) (json_string cs)
          else if c = CHR ''{'' then
            (if has_prefix (skip_ws cs) ''}'' then Some (JObj [], tl (skip_ws cs))
             else map_option (\<lambda>(m, r). (JObj m, r)) (json_members k cs))
          else if c = CHR ''['' then
            (if has_prefix (skip_ws cs) '']'' then Some (JArr [], tl (skip_ws cs))
             else map_option (\<lambda>(m, r). (JArr m, r)) (json_elems k cs))
          else if has_prefix (c # cs) ''null'' then Some (JNull, drop 4 (c # cs))
          else if has_prefix (c # cs) ''true'' then Some (JBool True, drop 4 (c # cs))
          else if has_prefix (c # cs) ''false'' then Some (JBool False, drop 5 (c # cs))
          else map_option (\<lambda>(n, r). (JNum n, r)) (json_num (c # cs)))"
| "json_members 0 s = None"
| "json_members (Suc k) s =
     (case skip_ws s of
        [] \<Rightarrow> None
      | q # t0 \<Rightarrow>
          if q \<noteq> QUOTE then None
          else case json_string t0 of
            None \<Rightarrow> None
          | Some (key, t1) \<Rightarrow>
              if \<not> has_prefix (skip_ws t1) '':'' then None
              else case json_value k (tl (skip_ws t1)) of
                None \<Rightarrow> None
              | Some (v, t2) \<Rightarrow>
                  if has_prefix (skip_ws t2) ''}'' then Some ([(key, v)], tl (skip_ws t2))
                  else if has_prefix (skip_ws t2) '','' then
                    map_option (\<lambda>(m, r). ((key, v) # m, r)) (json_members k (tl (skip_ws t2)))
                  else None)"
| "json_elems 0 s = None"
| "json_elems (Suc k) s =
     (case json_value k s of
        None \<Rightarrow> None
      | Some (v, t) \<Rightarrow>
          if has_prefix (skip_ws t) '']'' then Some ([v], tl (skip_ws t))
          else if has_prefix (skip_ws t) '','' then
            map_option (\<lambda>(m, r). (v # m, r)) (json_elems k (tl (skip_ws t)))
          else None)"

definition json_Unmarshal :: "string \<Rightarrow> json option" where
  "json_Unmarshal s =
     (case json_value (2 * length s + 1) s of
        None \<Rightarrow> None
      | Some (v, r) \<Rightarrow> if skip_ws r = [] then Some v else None)"

subsection \<open>The fuel is enough\<close>

lemma length_skip_ws [simp]: "length (skip_ws s) \<le> length s"
  by (simp add: skip_ws_def length_dropWhile_le)

lemma length_tl_skip: "has_prefix (skip_ws s) [c] \<Longrightarrow> length (tl (skip_ws s)) < length s"
  using length_skip_ws [of s] by (cases "skip_ws s") auto

lemma span_digits_le: "span_digits s = (d, r) \<Longrightarrow> length r \<le> length s \<and> (d \<noteq> [] \<longrightarrow> length r < length s)"
  by (auto simp: span_digits_def length_dropWhile_le neq_Nil_conv) (cases s; auto split: if_splits simp: length_dropWhile_le le_imp_less_Suc)

lemma json_num_shorter: "json_num s = Some (n, r) \<Longrightarrow> length r < length s"
proof -
  have i: "num_int t = Some (i, u) \<Longrightarrow> length u < length t" for t i u
    by (auto simp: num_int_def Let_def split: prod.splits if_splits dest: span_digits_le)
  have f: "num_frac t = Some (i, u) \<Longrightarrow> length u \<le> length t" for t i u
    by (cases t) (auto simp: num_frac_def split: prod.splits if_splits dest: span_digits_le)
  have e: "num_exp t = Some (i, u) \<Longrightarrow> length u \<le> length t" for t i u
  proof -
    have "length r \<le> length t" if "span_digits w = (d, r)" "length w \<le> length t" for w d r
      using span_digits_le [OF that(1)] that(2) by simp
    then show "num_exp t = Some (i, u) \<Longrightarrow> length u \<le> length t"
      by (auto simp: num_exp_def Let_def split: prod.splits if_splits)
  qed
  assume "json_num s = Some (n, r)"
  then show ?thesis
    by (auto simp: json_num_def Let_def split: if_splits option.splits prod.splits dest!: i f e)
qed

lemma json_shorter:
  "json_value k s = Some (v, r) \<Longrightarrow> length r < length s"
  "json_members k s = Some (m, r) \<Longrightarrow> length r < length s"
  "json_elems k s = Some (vs, r) \<Longrightarrow> length r < length s"
proof (induction k s and k s and k s arbitrary: v r and m r and vs r
    rule: json_value_json_members_json_elems.induct)
  case (2 k s)
  obtain c cs where c: "skip_ws s = c # cs" using "2.prems" by (cases "skip_ws s") auto
  then have l: "length (c # cs) \<le> length s" using length_skip_ws [of s] by simp
  show ?case
    using "2.prems" "2.IH" [OF c] c l length_tl_skip [of cs]
    by (auto split: if_splits dest!: json_string_shorter json_num_shorter)
      (force dest: length_tl_skip)+
next
  case (4 k s)
  obtain q t0 where c: "skip_ws s = q # t0" using "4.prems" by (cases "skip_ws s") auto
  then have l: "length (q # t0) \<le> length s" using length_skip_ws [of s] by simp
  from "4.prems" c obtain key t1 where j: "q = QUOTE" "json_string t0 = Some (key, t1)"
    "has_prefix (skip_ws t1) '':''" by (auto split: if_splits option.splits)
  from "4.prems" c j obtain w t2 where w: "json_value k (tl (skip_ws t1)) = Some (w, t2)"
    by (auto split: if_splits option.splits)
  have lt: "length t2 < length s"
    using "4.IH"(1) [OF c _ j(2) refl _ w] j l json_string_shorter [OF j(2)] length_tl_skip [OF j(3)] by simp
  have "length (tl (skip_ws t2)) \<le> length t2"
    using length_skip_ws [of t2] unfolding length_tl by linarith
  then show ?case
    using "4.prems" c j w lt "4.IH"(2) [OF c _ j(2) refl _ w refl]
    by (auto split: if_splits dest: order_trans)
next
  case (6 k s)
  then obtain w t where w: "json_value k s = Some (w, t)" by (auto split: option.splits)
  have "length (tl (skip_ws t)) \<le> length t"
    using length_skip_ws [of t] unfolding length_tl by linarith
  then show ?case
    using "6.prems" w "6.IH"(1) [OF w] "6.IH"(2) [OF w refl]
    by (auto split: if_splits)
qed simp_all

lemma json_fuel:
  "2 * length s + 1 \<le> k \<Longrightarrow> 2 * length s + 1 \<le> k' \<Longrightarrow> json_value k s = json_value k' s"
  "2 * length s + 2 \<le> k \<Longrightarrow> 2 * length s + 2 \<le> k' \<Longrightarrow> json_members k s = json_members k' s"
  "2 * length s + 2 \<le> k \<Longrightarrow> 2 * length s + 2 \<le> k' \<Longrightarrow> json_elems k s = json_elems k' s"
proof (induction k s and k s and k s arbitrary: k' and k' and k'
    rule: json_value_json_members_json_elems.induct)
  case (2 k s)
  obtain j where j: "k' = Suc j" using "2.prems"(2) by (cases k') auto
  show ?case
  proof (cases "skip_ws s")
    case Nil
    then show ?thesis by (simp add: j)
  next
    case (Cons c cs)
    have l: "length (c # cs) \<le> length s" using length_skip_ws [of s] Cons by simp
    have m: "json_members k cs = json_members j cs" if "c \<noteq> QUOTE" "c = CHR ''{''" "\<not> has_prefix (skip_ws cs) ''}''"
      using l "2.prems" j that by (intro "2.IH"(1) [OF Cons]) auto
    have e: "json_elems k cs = json_elems j cs" if "c \<noteq> QUOTE" "c \<noteq> CHR ''{''" "c = CHR ''[''" "\<not> has_prefix (skip_ws cs) '']''"
      using l "2.prems" j that by (intro "2.IH"(2) [OF Cons]) auto
    consider "c = QUOTE" | "c \<noteq> QUOTE" "c = CHR ''{''" | "c \<noteq> QUOTE" "c \<noteq> CHR ''{''" "c = CHR ''[''"
      | "c \<noteq> QUOTE" "c \<noteq> CHR ''{''" "c \<noteq> CHR ''[''" by blast
    then show ?thesis
    proof cases
      case 2
      with m show ?thesis
        by (cases "has_prefix (skip_ws cs) ''}''") (simp_all only: j json_value.simps Cons list.case if_True if_False refl not_False_eq_True)
    next
      case 3
      with e show ?thesis
        by (cases "has_prefix (skip_ws cs) '']''") (simp_all only: j json_value.simps Cons list.case if_True if_False refl not_False_eq_True)
    qed (simp_all only: j json_value.simps Cons list.case if_True if_False refl)
  qed
next
  case (4 k s)
  obtain j where j: "k' = Suc j" using "4.prems"(2) by (cases k') auto
  show ?case
  proof (cases "skip_ws s")
    case Nil
    then show ?thesis by (simp add: j)
  next
    case (Cons q t0)
    have l: "length (q # t0) \<le> length s" using length_skip_ws [of s] Cons by simp
    show ?thesis
    proof (cases "q = QUOTE \<and> (\<exists>key t1. json_string t0 = Some (key, t1) \<and> has_prefix (skip_ws t1) '':'')")
      case False
      then consider "q \<noteq> QUOTE" | "q = QUOTE" "json_string t0 = None"
        | key t1 where "q = QUOTE" "json_string t0 = Some (key, t1)" "\<not> has_prefix (skip_ws t1) '':''"
        by (cases "json_string t0") auto
      then show ?thesis by cases (simp_all add: j Cons)
    next
      case True
      then obtain key t1 where t1: "q = QUOTE" "json_string t0 = Some (key, t1)" "has_prefix (skip_ws t1) '':''"
        by blast
      let ?u = "tl (skip_ws t1)"
      have lu: "length ?u + 2 < length s"
        using l json_string_shorter [OF t1(2)] length_tl_skip [OF t1(3)] by simp
      have v: "json_value k ?u = json_value j ?u"
        using lu "4.prems" j by (intro "4.IH"(1) [OF Cons _ t1(2) refl]) (use t1 in auto)
      show ?thesis
      proof (cases "json_value k ?u")
        case None
        with v t1 Cons show ?thesis by (simp add: j)
      next
        case (Some p)
        obtain w t2 where p: "p = (w, t2)" by (cases p)
        have "length t2 < length ?u" by (rule json_shorter(1)) (use Some p in simp)
        then have lt: "length (tl (skip_ws t2)) + 2 < length s"
          using lu length_skip_ws [of t2] unfolding length_tl by linarith
        have "json_members k (tl (skip_ws t2)) = json_members j (tl (skip_ws t2))"
          if "\<not> has_prefix (skip_ws t2) ''}''" "has_prefix (skip_ws t2) '',''"
          using lt "4.prems" j that t1
          by (intro "4.IH"(2) [OF Cons _ t1(2) refl _ Some [unfolded p] refl]) auto
        moreover have "json_value k ?u = Some (w, t2)" "json_value j ?u = Some (w, t2)"
          using v Some p by simp_all
        ultimately show ?thesis using t1 Cons by (simp add: j)
      qed
    qed
  qed
next
  case (6 k s)
  obtain j where j: "k' = Suc j" using "6.prems"(2) by (cases k') auto
  have v: "json_value k s = json_value j s"
    using "6.prems" j by (intro "6.IH"(1)) auto
  show ?case
  proof (cases "json_value k s")
    case None
    with v show ?thesis by (simp add: j)
  next
    case (Some p)
    obtain w t where p: "p = (w, t)" by (cases p)
    have "length t < length s" by (rule json_shorter(1)) (use Some p in simp)
    then have lt: "length (tl (skip_ws t)) + 1 \<le> length s"
      using length_skip_ws [of t] unfolding length_tl by linarith
    have "json_elems k (tl (skip_ws t)) = json_elems j (tl (skip_ws t))"
      if "\<not> has_prefix (skip_ws t) '']''" "has_prefix (skip_ws t) '',''"
      using lt "6.prems" j that by (intro "6.IH"(2) [OF Some [unfolded p] refl]) auto
    moreover have "json_value k s = Some (w, t)" "json_value j s = Some (w, t)"
      using v Some p by simp_all
    ultimately show ?thesis by (simp add: j)
  qed
qed simp_all

subsection \<open>The round trip of values\<close>

text \<open>What the plugin encodes: valid UTF-8 strings and integers.\<close>

fun json_wf :: "json \<Rightarrow> bool" where
  "json_wf JNull = True"
| "json_wf (JBool b) = True"
| "json_wf (JNum n) = (\<exists>i. n = itoa i)"
| "json_wf (JStr s) = utf8_valid s"
| "json_wf (JArr vs) = list_all json_wf vs"
| "json_wf (JObj kvs) = list_all (\<lambda>kv. utf8_valid (fst kv) \<and> json_wf (snd kv)) kvs"

definition stop :: "string \<Rightarrow> bool" where
  "stop t \<longleftrightarrow> t = [] \<or> hd t \<in> {CHR '','', CHR ''}'', CHR '']''}"

lemma skip_ws_id: "s = [] \<or> hd s \<notin> {CHR '' '', TAB, LF, CR} \<Longrightarrow> skip_ws s = s"
  by (cases s) (auto simp: skip_ws_def)

lemma skip_ws_stop [simp]: "stop t \<Longrightarrow> skip_ws t = t"
  by (rule skip_ws_id) (auto simp: stop_def)

lemma stop_Cons [simp]:
  "stop (CHR '','' # t)" "stop (CHR ''}'' # t)" "stop (CHR '']'' # t)"
  by (simp_all add: stop_def)

lemma span_digits_append:
  "list_all is_digit d \<Longrightarrow> t = [] \<or> \<not> is_digit (hd t) \<Longrightarrow> span_digits (d @ t) = (d, t)"
  by (cases t) (auto simp: span_digits_def list_all_iff takeWhile_append dropWhile_append)

lemma dec_digits_lead: "hd (dec_digits n) = CHR ''0'' \<Longrightarrow> n = 0"
proof (induction n rule: dec_digits.induct)
  case (1 n)
  show ?case
  proof (cases "n < 10")
    case True
    then have "dec_digits n = [char_of (48 + n)]" by (simp add: dec_digits.simps [of n])
    with "1.prems" have "code (char_of (48 + n)) = 48" by simp
    with True show ?thesis by simp
  next
    case False
    then have "hd (dec_digits n) = hd (dec_digits (n div 10))"
      by (simp add: dec_digits.simps [of n])
    with 1 False have "n div 10 = 0" by simp
    with False show ?thesis by simp
  qed
qed

lemma num_int_digits:
  assumes "t = [] \<or> \<not> is_digit (hd t)"
  shows "num_int (dec_digits n @ t) = Some (dec_digits n, t)"
proof (cases "n = 0")
  case True
  then have "dec_digits n = ''0''" by (simp add: dec_digits.simps [of 0] char_of_def bit_0)
  then show ?thesis
    using assms span_digits_append [of "''0''" t] by (simp add: num_int_def Let_def is_digit_def)
next
  case False
  then show ?thesis
    using assms span_digits_append [OF dec_digits_digits, of t n] dec_digits_lead [of n]
    by (auto simp: num_int_def Let_def)
qed

lemma stop_plain: "stop t \<Longrightarrow> num_frac t = Some ([], t) \<and> num_exp t = Some ([], t) \<and> (t = [] \<or> \<not> is_digit (hd t))"
  by (cases t) (auto simp: stop_def num_frac_def num_exp_def is_digit_def)

lemma json_num_itoa: "stop t \<Longrightarrow> json_num (itoa i @ t) = Some (itoa i, t)"
proof -
  assume "stop t"
  note t = stop_plain [OF this]
  obtain c cs where c: "dec_digits (nat i) = c # cs" by (cases "dec_digits (nat i)") auto
  then have "is_digit c" using dec_digits_digits [of "nat i"] by simp
  then have "\<not> has_prefix (dec_digits (nat i) @ t) ''-''" by (auto simp: c is_digit_def)
  with t show ?thesis by (simp add: json_num_def itoa_def num_int_digits)
qed

lemma itoa_first: "\<exists>c cs. itoa i = c # cs \<and> (c = CHR ''-'' \<or> is_digit c)"
proof -
  obtain c cs where c: "dec_digits (nat i) = c # cs" by (cases "dec_digits (nat i)") auto
  then have "is_digit c" using dec_digits_digits [of "nat i"] by simp
  with c show ?thesis by (cases "i < 0") (simp_all add: itoa_def)
qed

lemma json_value_num: "stop t \<Longrightarrow> json_value (Suc k) (itoa i @ t) = Some (JNum (itoa i), t)"
proof -
  assume t: "stop t"
  obtain c cs where c: "itoa i = c # cs" "c = CHR ''-'' \<or> is_digit c" using itoa_first by blast
  then have "skip_ws (itoa i @ t) = c # cs @ t" by (simp, intro skip_ws_id) (auto simp: is_digit_def)
  moreover have "c \<noteq> QUOTE" "c \<noteq> CHR ''{''" "c \<noteq> CHR ''[''" "c \<noteq> CHR ''n''" "c \<noteq> CHR ''t''" "c \<noteq> CHR ''f''"
    using c(2) by (auto simp: is_digit_def)
  ultimately show ?thesis using json_num_itoa [OF t, of i] c(1) by simp
qed

lemma json_value_str: "utf8_valid s \<Longrightarrow> json_value (Suc k) (json_quote s @ t) = Some (JStr s, t)"
  by (simp add: json_quote_def skip_ws_id json_string_escape)

lemma join_comma_Cons: "xs \<noteq> [] \<Longrightarrow> join_comma (x # xs) = x @ CHR '','' # join_comma xs"
  by (cases xs) auto

lemma json_elems_enc:
  assumes "\<And>v k t. v \<in> set vs \<Longrightarrow> 2 * length (json_enc v) < k \<Longrightarrow> stop t \<Longrightarrow>
      json_value k (json_enc v @ t) = Some (v, t)"
    and "vs \<noteq> []" "2 * length (join_comma (map json_enc vs)) + 1 < k"
  shows "json_elems k (join_comma (map json_enc vs) @ CHR '']'' # t) = Some (vs, t)"
  using assms
proof (induction vs arbitrary: k)
  case (Cons v vs)
  obtain j where j: "k = Suc j" using Cons.prems(3) by (cases k) auto
  show ?case
  proof (cases "vs = []")
    case True
    then have "json_value j (json_enc v @ CHR '']'' # t) = Some (v, CHR '']'' # t)"
      using Cons.prems(3) j by (intro Cons.prems(1)) auto
    with True j show ?thesis by simp
  next
    case False
    let ?r = "join_comma (map json_enc vs) @ CHR '']'' # t"
    have "json_value j (json_enc v @ CHR '','' # ?r) = Some (v, CHR '','' # ?r)"
      using Cons.prems(3) j False by (intro Cons.prems(1)) (auto simp: join_comma_Cons)
    moreover have "json_elems j ?r = Some (vs, t)"
      using Cons.prems False j by (intro Cons.IH) (auto simp: join_comma_Cons)
    ultimately show ?thesis using False j by (simp add: join_comma_Cons)
  qed
qed simp

abbreviation member :: "string \<times> json \<Rightarrow> string" where
  "member kv \<equiv> json_quote (fst kv) @ CHR '':'' # json_enc (snd kv)"

lemma json_members_enc:
  assumes "\<And>kv k t. kv \<in> set kvs \<Longrightarrow> 2 * length (json_enc (snd kv)) < k \<Longrightarrow> stop t \<Longrightarrow>
      json_value k (json_enc (snd kv) @ t) = Some (snd kv, t)"
    and "\<forall>kv \<in> set kvs. utf8_valid (fst kv)"
    and "kvs \<noteq> []" "2 * length (join_comma (map member kvs)) + 1 < k"
  shows "json_members k (join_comma (map member kvs) @ CHR ''}'' # t) = Some (kvs, t)"
  using assms
proof (induction kvs arbitrary: k)
  case (Cons kv kvs)
  obtain j where j: "k = Suc j" using Cons.prems(4) by (cases k) auto
  have q: "json_string (json_escape (fst kv) @ QUOTE # u) = Some (fst kv, u)" for u
    using Cons.prems(2) by (simp add: json_string_escape)
  show ?case
  proof (cases "kvs = []")
    case True
    have "json_value j (json_enc (snd kv) @ CHR ''}'' # t) = Some (snd kv, CHR ''}'' # t)"
      using Cons.prems(4) j True by (intro Cons.prems(1)) auto
    with True j q show ?thesis by (simp add: json_quote_def skip_ws_id)
  next
    case False
    let ?r = "join_comma (map member kvs) @ CHR ''}'' # t"
    have "json_value j (json_enc (snd kv) @ CHR '','' # ?r) = Some (snd kv, CHR '','' # ?r)"
      using Cons.prems(4) j False by (intro Cons.prems(1)) (auto simp: join_comma_Cons)
    moreover have "json_members j ?r = Some (kvs, t)"
      using Cons.prems False j by (intro Cons.IH) (auto simp: join_comma_Cons)
    ultimately show ?thesis using False j q by (simp add: join_comma_Cons json_quote_def skip_ws_id)
  qed
qed simp

text \<open>Encoded arrays and objects do not start with a closing bracket.\<close>

lemma json_enc_first: "json_wf v \<Longrightarrow> \<exists>c cs. json_enc v = c # cs \<and> c \<notin> {CHR '' '', TAB, LF, CR, CHR '']'', CHR ''}'', CHR '',''}"
proof (cases v)
  case (JNum n)
  moreover assume "json_wf v"
  ultimately obtain i where "n = itoa i" by auto
  with itoa_first [of i] JNum show ?thesis by (auto simp: is_digit_def)
qed (auto simp: json_quote_def)

text \<open>An object closes itself: whatever follows it is left alone.\<close>

lemma json_object_enc:
  assumes "\<And>kv k t. kv \<in> set kvs \<Longrightarrow> 2 * length (json_enc (snd kv)) < k \<Longrightarrow> stop t \<Longrightarrow>
      json_value k (json_enc (snd kv) @ t) = Some (snd kv, t)"
    and "\<forall>kv \<in> set kvs. utf8_valid (fst kv)" "2 * length (json_enc (JObj kvs)) < k"
  shows "json_value k (json_enc (JObj kvs) @ t) = Some (JObj kvs, t)"
proof -
  obtain j where j: "k = Suc j" using assms(3) by (cases k) auto
  show ?thesis
  proof (cases "kvs = []")
    case False
    have "\<exists>u. join_comma (map member kvs) = QUOTE # u"
      using False by (cases kvs; cases "tl kvs") (auto simp: json_quote_def)
    then obtain u where u: "join_comma (map member kvs) = QUOTE # u" by blast
    have "json_members j (join_comma (map member kvs) @ CHR ''}'' # t) = Some (kvs, t)"
      by (rule json_members_enc [OF assms(1,2)]) (use assms(3) False j in auto)
    then show ?thesis using j u by (simp add: skip_ws_id)
  qed (simp add: j skip_ws_id)
qed

lemma json_roundtrip_rest:
  "json_wf v \<Longrightarrow> 2 * length (json_enc v) < k \<Longrightarrow> stop t \<Longrightarrow> json_value k (json_enc v @ t) = Some (v, t)"
proof (induction v arbitrary: k t)
  case (JArr vs)
  obtain j where j: "k = Suc j" using JArr.prems(2) by (cases k) auto
  show ?case
  proof (cases "vs = []")
    case False
    obtain v vs' where v: "vs = v # vs'" using False by (cases vs) auto
    then obtain c cs where c: "json_enc v = c # cs" "c \<notin> {CHR '' '', TAB, LF, CR, CHR '']'', CHR ''}'', CHR '',''}"
      using JArr.prems(1) json_enc_first [of v] by auto
    have "\<exists>u. join_comma (map json_enc vs) = c # u"
      using v c by (cases vs') auto
    then obtain u where u: "join_comma (map json_enc vs) = c # u" by blast
    have "json_elems j (join_comma (map json_enc vs) @ CHR '']'' # t) = Some (vs, t)"
      using JArr.prems False j
      by (intro json_elems_enc) (auto intro!: JArr.IH simp: list_all_iff)
    then show ?thesis using j c u by (simp add: skip_ws_id)
  qed (simp add: j skip_ws_id)
next
  case (JObj kvs)
  then show ?case
    by (intro json_object_enc) (auto intro!: JObj.IH simp: list_all_iff simp del: json_value.simps)
next
  case (JNum n)
  then obtain i where "n = itoa i" by auto
  with JNum show ?case by (cases k) (simp_all add: json_value_num del: json_value.simps)
next
  case (JStr s)
  then show ?case by (cases k) (simp_all add: json_value_str del: json_value.simps)
next
  case JNull
  then show ?case by (cases k) (simp_all add: skip_ws_id)
next
  case (JBool b)
  then show ?case by (cases k) (simp_all add: skip_ws_id)
qed

lemma json_object_rest:
  "json_wf (JObj kvs) \<Longrightarrow> 2 * length (json_enc (JObj kvs)) < k \<Longrightarrow>
   json_value k (json_enc (JObj kvs) @ t) = Some (JObj kvs, t)"
  by (rule json_object_enc) (auto intro!: json_roundtrip_rest simp: list_all_iff simp del: json_value.simps)

lemma json_roundtrip:
  assumes "json_wf v"
  shows "json_Unmarshal (json_enc v) = Some v"
  using json_roundtrip_rest [OF assms, of "2 * length (json_enc v) + 1" "[]"]
  by (simp add: json_Unmarshal_def stop_def skip_ws_def del: json_value.simps)

section \<open>Struct fields\<close>

text \<open>Keys are compared with Unicode case folding: ASCII letters, and the two other code points
  that fold to an ASCII letter (the long s and the Kelvin sign).\<close>

fun fold_name :: "string \<Rightarrow> string" where
  "fold_name [] = []"
| "fold_name [c] = [lower_char c]"
| "fold_name [c, d] = (if c = CHR 0xC5 \<and> d = CHR 0xBF then ''s'' else lower_char c # fold_name [d])"
| "fold_name (c # d # e # s) =
     (if c = CHR 0xC5 \<and> d = CHR 0xBF then CHR ''s'' # fold_name (e # s)
      else if c = CHR 0xE2 \<and> d = CHR 0x84 \<and> e = CHR 0xAA then CHR ''k'' # fold_name s
      else lower_char c # fold_name (d # e # s))"

text \<open>The values given for a field, in order.\<close>

definition jfields :: "string \<Rightarrow> (string \<times> json) list \<Rightarrow> json list" where
  "jfields name kvs = map snd (filter (\<lambda>kv. fold_name (fst kv) = fold_name name) kvs)"

text \<open>Decode into a string, an \<open>int64\<close>, a bool: \<^const>\<open>None\<close> is a type error; \<open>null\<close> keeps the value.\<close>

definition set_str :: "string option \<Rightarrow> json \<Rightarrow> string option" where
  "set_str old v = Option.bind old (\<lambda>x. case v of JStr s \<Rightarrow> Some s | JNull \<Rightarrow> Some x | _ \<Rightarrow> None)"

definition set_int :: "int option \<Rightarrow> json \<Rightarrow> int option" where
  "set_int old v =
     Option.bind old (\<lambda>x. case v of JNum n \<Rightarrow> atoi n | JNull \<Rightarrow> Some x | _ \<Rightarrow> None)"

definition set_bool :: "bool option \<Rightarrow> json \<Rightarrow> bool option" where
  "set_bool old v = Option.bind old (\<lambda>x. case v of JBool b \<Rightarrow> Some b | JNull \<Rightarrow> Some x | _ \<Rightarrow> None)"

definition get_str :: "string \<Rightarrow> (string \<times> json) list \<Rightarrow> string option" where
  "get_str name kvs = foldl set_str (Some []) (jfields name kvs)"

definition get_int :: "string \<Rightarrow> (string \<times> json) list \<Rightarrow> int option" where
  "get_int name kvs = foldl set_int (Some 0) (jfields name kvs)"

end
