(* ===== verification/StoreChannels.thy ===== *)
theory StoreChannels
  imports Tables Json
begin

text \<open>
  \<open>src/internal/store/channels.go\<close>: the channel catalogue. The columns written by a playlist
  refresh (\<open>*_src\<close> and the catalogue fields) and those written by the administrator
  (\<open>*_admin\<close>, \<open>position\<close>) live side by side in a row and are combined by \<open>coalesce\<close> on reading.
  The main results: an upsert never touches an override, and walking the cursors of
  \<open>ListChannelsForUser\<close> yields every visible channel exactly once, in order.
\<close>

section \<open>Types\<close>

record ProgramRef =
  pf_ID :: string
  pf_Title :: string
  pf_Start :: time
  pf_Stop :: time

record Channel = channel_row +
  EffectiveChannelNum :: string
  EffectiveGroupTitle :: string
  EffectiveEnabled :: bool
  HasFavorite :: bool
  CurrentProgram :: "ProgramRef option"
  NextProgram :: "ProgramRef option"

text \<open>\<open>patchValue\<close>: \<^const>\<open>None\<close> is \<open>Set = false\<close>.\<close>

type_synonym 'a patchValue = "'a option"

record ChannelPatch =
  cp_ChannelNumberAdmin :: "string option patchValue"
  cp_GroupTitleAdmin :: "string option patchValue"
  cp_EnabledAdmin :: "bool option patchValue"
  cp_Position :: "int option patchValue"

definition eff_num :: "'a channel_row_scheme \<Rightarrow> string" where
  "eff_num r = (case ch_ChannelNumberAdmin r of Some v \<Rightarrow> v | None \<Rightarrow> ch_ChannelNumberSrc r)"

definition eff_group :: "'a channel_row_scheme \<Rightarrow> string" where
  "eff_group r = (case ch_GroupTitleAdmin r of Some v \<Rightarrow> v | None \<Rightarrow> ch_GroupTitleSrc r)"

definition eff_enabled :: "'a channel_row_scheme \<Rightarrow> bool" where
  "eff_enabled r = (case ch_EnabledAdmin r of Some v \<Rightarrow> v | None \<Rightarrow> ch_EnabledSrc r)"

definition scanChannelRow :: "bool \<Rightarrow> channel_row \<Rightarrow> Channel" where
  "scanChannelRow fav r =
     channel_row.extend r
       \<lparr>EffectiveChannelNum = eff_num r, EffectiveGroupTitle = eff_group r,
        EffectiveEnabled = eff_enabled r, HasFavorite = fav, CurrentProgram = None, NextProgram = None\<rparr>"

definition has_favorite :: "db \<Rightarrow> string \<Rightarrow> channel_row \<Rightarrow> bool" where
  "has_favorite s uid r \<longleftrightarrow>
     list_ex (\<lambda>f. fv_user_id f = uid \<and> fv_channel_id f = ch_ID r) (user_favorites s)"

section \<open>Writing\<close>

definition upsert_channel :: "string \<Rightarrow> 'a channel_row_scheme \<Rightarrow> string \<Rightarrow> string stmt" where
  "upsert_channel cid c kind = (\<lambda>now s.
     let same = (\<lambda>r. ch_SourceM3UID r = ch_SourceM3UID c \<and> ch_SourceChannelID r = ch_SourceChannelID c)
     in if kind \<notin> set upstream_kinds then (Inl (constraint_error ''check upstream_kind''), s)
     else case find same (channels s) of
       Some r \<Rightarrow>
         (Inr (ch_ID r),
          s\<lparr>channels := sql_update same
             (\<lambda>r. r\<lparr>ch_DisplayName := ch_DisplayName c, ch_ChannelNumberSrc := ch_ChannelNumberSrc c,
                    ch_LogoURL := ch_LogoURL c, ch_GroupTitleSrc := ch_GroupTitleSrc c,
                    ch_UpstreamURL := ch_UpstreamURL c, ch_Attrs := ch_Attrs c,
                    ch_EnabledSrc := True\<rparr>) (channels s)\<rparr>)
     | None \<Rightarrow>
         if cid \<in> ch_ID ` set (channels s) then (Inl (constraint_error ''duplicate key''), s)
         else if ch_SourceM3UID c \<notin> sr_id ` set (m3u_sources s) then
           (Inl (constraint_error ''foreign key''), s)
         else
           (Inr cid,
            s\<lparr>channels := channels s @
               [\<lparr>ch_ID = cid, ch_SourceM3UID = ch_SourceM3UID c,
                 ch_SourceChannelID = ch_SourceChannelID c, ch_DisplayName = ch_DisplayName c,
                 ch_LogoURL = ch_LogoURL c, ch_UpstreamURL = ch_UpstreamURL c, ch_UpstreamKind = kind,
                 ch_ChannelNumberSrc = ch_ChannelNumberSrc c, ch_ChannelNumberAdmin = None,
                 ch_GroupTitleSrc = ch_GroupTitleSrc c, ch_GroupTitleAdmin = None,
                 ch_Attrs = ch_Attrs c, ch_EnabledSrc = True, ch_EnabledAdmin = None,
                 ch_Position = 0\<rparr>]\<rparr>))"

definition UpsertChannelFromM3U ::
  "ctx \<Rightarrow> 'a channel_row_scheme \<Rightarrow> world \<Rightarrow> (err + string) \<times> world" where
  "UpsertChannelFromM3U ctx c w =
     (let (cid, w) = (if ch_ID c = '''' then newULID w else (ch_ID c, w));
          kind = (if ch_UpstreamKind c = '''' then ''unknown'' else ch_UpstreamKind c)
      in wrap_err ''upsert channel'' (db_call ctx (upsert_channel cid c kind) w))"

definition mark_missing :: "string \<Rightarrow> string list \<Rightarrow> unit stmt" where
  "mark_missing sid seen = (\<lambda>now s.
     (Inr (), s\<lparr>channels := sql_update
        (\<lambda>r. ch_SourceM3UID r = sid \<and> ch_EnabledSrc r \<and> ch_SourceChannelID r \<notin> set seen)
        (\<lambda>r. r\<lparr>ch_EnabledSrc := False\<rparr>) (channels s)\<rparr>))"

definition MarkChannelsMissing :: "ctx \<Rightarrow> string \<Rightarrow> string list \<Rightarrow> world \<Rightarrow> (err + unit) \<times> world" where
  "MarkChannelsMissing ctx sid seen w =
     wrap_err ''mark channels missing'' (db_call ctx (mark_missing sid seen) w)"

definition update_channel :: "string \<Rightarrow> (channel_row \<Rightarrow> channel_row) \<Rightarrow> int stmt" where
  "update_channel cid f = (\<lambda>now s.
     (Inr (sql_count (\<lambda>r. ch_ID r = cid) (channels s)),
      s\<lparr>channels := sql_update (\<lambda>r. ch_ID r = cid) f (channels s)\<rparr>))"

definition set_kind :: "string \<Rightarrow> string \<Rightarrow> int stmt" where
  "set_kind cid kind = (\<lambda>now s.
     if kind \<notin> set upstream_kinds \<and> cid \<in> ch_ID ` set (channels s) then
       (Inl (constraint_error ''check upstream_kind''), s)
     else update_channel cid (\<lambda>r. r\<lparr>ch_UpstreamKind := kind\<rparr>) now s)"

definition SetUpstreamKind :: "ctx \<Rightarrow> string \<Rightarrow> string \<Rightarrow> world \<Rightarrow> (err + unit) \<times> world" where
  "SetUpstreamKind ctx cid kind w =
     require_rows (wrap_err ''set upstream kind'' (db_call ctx (set_kind cid kind) w))"

definition patch_apply :: "ChannelPatch \<Rightarrow> channel_row \<Rightarrow> channel_row" where
  "patch_apply p r =
     (let r = (case cp_ChannelNumberAdmin p of None \<Rightarrow> r | Some v \<Rightarrow> r\<lparr>ch_ChannelNumberAdmin := v\<rparr>);
          r = (case cp_GroupTitleAdmin p of None \<Rightarrow> r | Some v \<Rightarrow> r\<lparr>ch_GroupTitleAdmin := v\<rparr>);
          r = (case cp_EnabledAdmin p of None \<Rightarrow> r | Some v \<Rightarrow> r\<lparr>ch_EnabledAdmin := v\<rparr>)
      in case cp_Position p of None \<Rightarrow> r
         | Some v \<Rightarrow> r\<lparr>ch_Position := (case v of None \<Rightarrow> 0 | Some i \<Rightarrow> i)\<rparr>)"

definition patch_in_range :: "ChannelPatch \<Rightarrow> bool" where
  "patch_in_range p = (case cp_Position p of Some (Some i) \<Rightarrow> in_int32 i | _ \<Rightarrow> True)"

definition patch_channel :: "string \<Rightarrow> ChannelPatch \<Rightarrow> int stmt" where
  "patch_channel cid p = (\<lambda>now s.
     if \<not> patch_in_range p then (Inl (constraint_error ''integer out of range''), s)
     else update_channel cid (patch_apply p) now s)"

definition AdminPatchChannel :: "ctx \<Rightarrow> string \<Rightarrow> ChannelPatch \<Rightarrow> world \<Rightarrow> (err + unit) \<times> world" where
  "AdminPatchChannel ctx cid p w =
     (if cp_ChannelNumberAdmin p = None \<and> cp_GroupTitleAdmin p = None \<and>
         cp_EnabledAdmin p = None \<and> cp_Position p = None
      then (Inr (), w)
      else require_rows (wrap_err ''admin patch channel'' (db_call ctx (patch_channel cid p) w)))"

section \<open>EPG keys\<close>

definition add_epg_key :: "string \<Rightarrow> string \<Rightarrow> bool \<Rightarrow> unit stmt" where
  "add_epg_key cid xid auto = (\<lambda>now s.
     let same = (\<lambda>k. ek_channel_id k = cid \<and> ek_xmltv_channel_id k = xid) in
     if list_ex same (channel_epg_keys s) then
       (Inr (), s\<lparr>channel_epg_keys := sql_update same (\<lambda>k. k\<lparr>ek_auto_linked := auto\<rparr>) (channel_epg_keys s)\<rparr>)
     else if cid \<notin> ch_ID ` set (channels s) then (Inl (constraint_error ''foreign key''), s)
     else (Inr (), s\<lparr>channel_epg_keys := channel_epg_keys s @
       [\<lparr>ek_channel_id = cid, ek_xmltv_channel_id = xid, ek_auto_linked = auto\<rparr>]\<rparr>))"

definition AddEPGKey :: "ctx \<Rightarrow> string \<Rightarrow> string \<Rightarrow> bool \<Rightarrow> world \<Rightarrow> (err + unit) \<times> world" where
  "AddEPGKey ctx cid xid auto w = wrap_err ''add epg key'' (db_call ctx (add_epg_key cid xid auto) w)"

definition remove_epg_key :: "string \<Rightarrow> string \<Rightarrow> unit stmt" where
  "remove_epg_key cid xid = (\<lambda>now s.
     (Inr (), s\<lparr>channel_epg_keys :=
        sql_delete (\<lambda>k. ek_channel_id k = cid \<and> ek_xmltv_channel_id k = xid) (channel_epg_keys s)\<rparr>))"

definition RemoveEPGKey :: "ctx \<Rightarrow> string \<Rightarrow> string \<Rightarrow> world \<Rightarrow> (err + unit) \<times> world" where
  "RemoveEPGKey ctx cid xid w = wrap_err ''remove epg key'' (db_call ctx (remove_epg_key cid xid) w)"

definition ListEPGKeys :: "ctx \<Rightarrow> string \<Rightarrow> world \<Rightarrow> (err + string list) \<times> world" where
  "ListEPGKeys ctx cid w =
     wrap_err ''list epg keys'' (db_call ctx (sql_read (\<lambda>now s.
       sort_key (pg_coll s) (map ek_xmltv_channel_id
         (filter (\<lambda>k. ek_channel_id k = cid) (channel_epg_keys s))))) w)"

text \<open>The statement of \<open>autoLinkEPG\<close> in \<open>src/internal/refresh/xmltv.go\<close>; existing keys are kept.\<close>

definition auto_link :: "string \<Rightarrow> unit stmt" where
  "auto_link xid = (\<lambda>now s.
     let hit = filter (\<lambda>c. ch_SourceChannelID c = xid) (channels s);
         fresh = filter (\<lambda>c. \<not> list_ex (\<lambda>k. ek_channel_id k = ch_ID c \<and> ek_xmltv_channel_id k = xid)
             (channel_epg_keys s)) hit
     in (Inr (), s\<lparr>channel_epg_keys := channel_epg_keys s @
           map (\<lambda>c. \<lparr>ek_channel_id = ch_ID c, ek_xmltv_channel_id = xid, ek_auto_linked = True\<rparr>) fresh\<rparr>))"

section \<open>The now/next decoration\<close>

definition program_ref :: "'a program_row_scheme \<Rightarrow> ProgramRef" where
  "program_ref p = \<lparr>pf_ID = pr_ID p, pf_Title = pr_Title p, pf_Start = pr_Start p, pf_Stop = pr_Stop p\<rparr>"

text \<open>The join of \<open>channel_epg_keys\<close> and \<open>programs\<close> for one channel.\<close>

definition guide_rows :: "db \<Rightarrow> string \<Rightarrow> program_row list" where
  "guide_rows s cid =
     concat (map (\<lambda>k. filter (\<lambda>p. pr_XMLTVChannelID p = ek_xmltv_channel_id k) (programs s))
       (filter (\<lambda>k. ek_channel_id k = cid) (channel_epg_keys s)))"

text \<open>\<open>DISTINCT ON (channel_id) ... ORDER BY channel_id, start\<close>: the first row for each channel.\<close>

definition first_by :: "('r \<Rightarrow> 'k :: linorder) \<Rightarrow> 'r list \<Rightarrow> 'r option" where
  "first_by f rs = (case sort_key f rs of [] \<Rightarrow> None | r # _ \<Rightarrow> Some r)"

definition current_program :: "time \<Rightarrow> db \<Rightarrow> string \<Rightarrow> ProgramRef option" where
  "current_program now s cid =
     map_option program_ref (first_by (\<lambda>p. - pr_Start p)
       (filter (\<lambda>p. pr_Start p \<le> now \<and> now < pr_Stop p) (guide_rows s cid)))"

definition next_program :: "time \<Rightarrow> db \<Rightarrow> string \<Rightarrow> ProgramRef option" where
  "next_program now s cid =
     map_option program_ref (first_by pr_Start (filter (\<lambda>p. now < pr_Start p) (guide_rows s cid)))"

definition query_refs :: "(time \<Rightarrow> db \<Rightarrow> string \<Rightarrow> ProgramRef option) \<Rightarrow> string list \<Rightarrow>
    (string \<times> ProgramRef) list stmt" where
  "query_refs f ids = sql_read (\<lambda>now s.
     map (\<lambda>c. (c, the (f now s c))) (filter (\<lambda>c. f now s c \<noteq> None) (sort_key (pg_coll s) (remdups ids))))"

text \<open>\<open>indexByID\<close>: the last position of an id.\<close>

definition last_index :: "string list \<Rightarrow> string \<Rightarrow> nat option" where
  "last_index ids c = foldl (\<lambda>m i. if ids ! i = c then Some i else m) None [0..<length ids]"

definition back_ref :: "(ProgramRef \<Rightarrow> Channel \<Rightarrow> Channel) \<Rightarrow> string list \<Rightarrow>
    (string \<times> ProgramRef) list \<Rightarrow> Channel list \<Rightarrow> Channel list" where
  "back_ref f ids rs chs =
     foldl (\<lambda>chs (cid, p). case last_index ids cid of None \<Rightarrow> chs | Some i \<Rightarrow> chs[i := f p (chs ! i)]) chs rs"

definition decorateWithGuide :: "ctx \<Rightarrow> Channel list \<Rightarrow> world \<Rightarrow> (err + Channel list) \<times> world" where
  "decorateWithGuide ctx chs w =
     (if chs = [] then (Inr [], w)
      else
        let ids = map ch_ID chs in
        case wrap_err ''decorate current'' (db_call ctx (query_refs current_program ids) w) of
          (Inl e, w) \<Rightarrow> (Inl e, w)
        | (Inr cur, w) \<Rightarrow>
            let chs = back_ref (\<lambda>p c. c\<lparr>CurrentProgram := Some p\<rparr>) ids cur chs in
            case wrap_err ''decorate next'' (db_call ctx (query_refs next_program ids) w) of
              (Inl e, w) \<Rightarrow> (Inl e, w)
            | (Inr nxt, w) \<Rightarrow>
                (Inr (back_ref (\<lambda>p c. c\<lparr>NextProgram := Some p\<rparr>) ids nxt chs), w))"

section \<open>Reading\<close>

record channelCursor =
  cc_Position :: int
  cc_Name :: string
  cc_ID :: string

definition encodeChannelCursor :: "channelCursor \<Rightarrow> string" where
  "encodeChannelCursor c =
     b64_EncodeToString (json_enc (JObj [(''p'', JNum (itoa (cc_Position c))), (''n'', JStr (cc_Name c)),
       (''i'', JStr (cc_ID c))]))"

definition decodeChannelCursor :: "string \<Rightarrow> err + channelCursor" where
  "decodeChannelCursor s =
     (if s = [] then Inr \<lparr>cc_Position = 0, cc_Name = [], cc_ID = []\<rparr>
      else case b64_DecodeString s of
        None \<Rightarrow> Inl (Err OtherErr ''decode cursor: illegal base64 data'')
      | Some b \<Rightarrow>
          (case json_Unmarshal b of
             Some (JObj kvs) \<Rightarrow>
               (case (get_int ''p'' kvs, get_str ''n'' kvs, get_str ''i'' kvs) of
                  (Some p, Some n, Some i) \<Rightarrow> Inr \<lparr>cc_Position = p, cc_Name = n, cc_ID = i\<rparr>
                | _ \<Rightarrow> Inl (Err OtherErr ''unmarshal cursor: cannot unmarshal field''))
           | Some JNull \<Rightarrow> Inr \<lparr>cc_Position = 0, cc_Name = [], cc_ID = []\<rparr>
           | _ \<Rightarrow> Inl (Err OtherErr ''unmarshal cursor: invalid value'')))"

text \<open>The sort key of channel listings.\<close>

definition chan_key :: "db \<Rightarrow> 'a channel_row_scheme \<Rightarrow> int \<times> string \<times> string" where
  "chan_key s r = (ch_Position r, pg_coll s (pg_lower s (ch_DisplayName r)), pg_coll s (ch_ID r))"

text \<open>The \<open>WHERE\<close> clause; \<open>q\<close> is already lower case.\<close>

definition listed :: "db \<Rightarrow> string \<Rightarrow> string \<Rightarrow> channelCursor option \<Rightarrow> channel_row \<Rightarrow> bool" where
  "listed s grp q cur r \<longleftrightarrow>
     eff_enabled r \<and>
     (grp = [] \<or> eff_group r = grp) \<and>
     (q = [] \<or> like (pg_lower s (ch_DisplayName r)) (CHR ''%'' # q @ ''%'')) \<and>
     (case cur of None \<Rightarrow> True
      | Some c \<Rightarrow> (cc_Position c, pg_coll s (cc_Name c), pg_coll s (cc_ID c)) < chan_key s r)"

definition list_query :: "string \<Rightarrow> string \<Rightarrow> string \<Rightarrow> channelCursor option \<Rightarrow> nat \<Rightarrow> Channel list stmt"
  where
  "list_query uid grp q cur n = sql_read (\<lambda>now s.
     map (\<lambda>r. scanChannelRow (has_favorite s uid r) r)
       (take n (sort_key (chan_key s) (filter (listed s grp q cur) (channels s)))))"

definition list_limit :: "int \<Rightarrow> nat" where
  "list_limit n = (if n \<le> 0 \<or> 500 < n then 100 else nat n)"

definition ListChannelsForUser ::
  "ctx \<Rightarrow> string \<Rightarrow> string \<Rightarrow> string \<Rightarrow> int \<Rightarrow> string \<Rightarrow> world \<Rightarrow> (err + Channel list \<times> string) \<times> world"
  where
  "ListChannelsForUser ctx uid grp q lim cursor w =
     (let n = list_limit lim in
      case decodeChannelCursor cursor of
        Inl e \<Rightarrow> (Inl e, w)
      | Inr c \<Rightarrow>
          let cur = (if cursor = [] then None else Some c) in
          case wrap_err ''list channels for user''
              (db_call ctx (list_query uid grp (go_ToLower (uni_lower w) q) cur (n + 1)) w) of
            (Inl e, w) \<Rightarrow> (Inl e, w)
          | (Inr chs, w) \<Rightarrow>
              let next = (if n < length chs then
                    let l = chs ! (n - 1) in
                    encodeChannelCursor \<lparr>cc_Position = ch_Position l,
                      cc_Name = go_ToLower (uni_lower w) (ch_DisplayName l), cc_ID = ch_ID l\<rparr>
                  else []);
                  chs = take n chs
              in case decorateWithGuide ctx chs w of
                   (Inl e, w) \<Rightarrow> (Inl e, w)
                 | (Inr chs, w) \<Rightarrow> (Inr (chs, next), w))"

definition GetChannel :: "ctx \<Rightarrow> string \<Rightarrow> world \<Rightarrow> (err + Channel) \<times> world" where
  "GetChannel ctx cid w =
     not_found_of (db_call ctx (sql_row (\<lambda>now s.
       map_option (scanChannelRow False) (find (\<lambda>r. ch_ID r = cid) (channels s)))) w)"

definition GetChannelView :: "ctx \<Rightarrow> string \<Rightarrow> string \<Rightarrow> world \<Rightarrow> (err + Channel) \<times> world" where
  "GetChannelView ctx uid cid w =
     (case not_found_of (db_call ctx (sql_row (\<lambda>now s.
         map_option (\<lambda>r. scanChannelRow (has_favorite s uid r) r)
           (find (\<lambda>r. ch_ID r = cid) (channels s)))) w) of
        (Inl e, w) \<Rightarrow> (Inl e, w)
      | (Inr ch, w) \<Rightarrow>
          (case decorateWithGuide ctx [ch] w of
             (Inl e, w) \<Rightarrow> (Inl e, w)
           | (Inr chs, w) \<Rightarrow> (Inr (chs ! 0), w)))"

definition ListGroups :: "ctx \<Rightarrow> world \<Rightarrow> (err + string list) \<times> world" where
  "ListGroups ctx w =
     wrap_err ''list groups'' (db_call ctx (sql_read (\<lambda>now s.
       sort_key (pg_coll s) (remdups (map eff_group (filter eff_enabled (channels s)))))) w)"

definition AdminListChannels :: "ctx \<Rightarrow> string \<Rightarrow> world \<Rightarrow> (err + Channel list) \<times> world" where
  "AdminListChannels ctx sid w =
     wrap_err ''admin list channels'' (db_call ctx (sql_read (\<lambda>now s.
       map (scanChannelRow False) (sort_key (chan_key s)
         (filter (\<lambda>r. sid = [] \<or> ch_SourceM3UID r = sid) (channels s))))) w)"

definition VisibleChannelIDsForUser ::
  "ctx \<Rightarrow> string \<Rightarrow> string \<Rightarrow> world \<Rightarrow> (err + string list) \<times> world" where
  "VisibleChannelIDsForUser ctx uid grp w =
     wrap_err ''visible channels'' (db_call ctx (sql_read (\<lambda>now s.
       map ch_ID (sort_key (chan_key s)
         (filter (\<lambda>r. eff_enabled r \<and> (grp = [] \<or> eff_group r = grp)) (channels s))))) w)"

section \<open>Overrides survive a refresh\<close>

text \<open>The part of a row that belongs to the administrator and to the probe.\<close>

definition admin_part :: "channel_row \<Rightarrow>
    (string \<times> string \<times> string) \<times> string option \<times> string option \<times> bool option \<times> int \<times> string" where
  "admin_part r =
     ((ch_ID r, ch_SourceM3UID r, ch_SourceChannelID r), ch_ChannelNumberAdmin r,
      ch_GroupTitleAdmin r, ch_EnabledAdmin r, ch_Position r, ch_UpstreamKind r)"

lemma upsert_channel_admin:
  assumes "upsert_channel cid c kind now s = (Inr i, s')"
  shows "(map admin_part (channels s') = map admin_part (channels s) \<and> i \<in> ch_ID ` set (channels s)) \<or>
    (i = cid \<and> map admin_part (channels s') = map admin_part (channels s) @
       [((cid, ch_SourceM3UID c, ch_SourceChannelID c), None, None, None, 0, kind)])"
proof -
  have keep: "map admin_part (sql_update P f rs) = map admin_part rs"
    if "\<And>r. admin_part (f r) = admin_part r" for P f rs
    using that by (rule sql_update_map)
  show ?thesis
    using assms
    by (auto simp: upsert_channel_def Let_def admin_part_def find_Some_iff split: if_splits option.splits
        intro!: keep)
qed

lemma mark_missing_admin:
  "mark_missing sid seen now s = (Inr u, s') \<Longrightarrow> map admin_part (channels s') = map admin_part (channels s)"
  by (auto simp: mark_missing_def admin_part_def intro!: sql_update_map)

section \<open>Walking the pages\<close>

lemma cursor_roundtrip:
  assumes "in_int64 (cc_Position c)" "utf8_valid (cc_Name c)" "utf8_valid (cc_ID c)"
  shows "decodeChannelCursor (encodeChannelCursor c) = Inr c"
proof -
  let ?v = "JObj [(''p'', JNum (itoa (cc_Position c))), (''n'', JStr (cc_Name c)), (''i'', JStr (cc_ID c))]"
  have ascii: "utf8_valid ''p''" "utf8_valid ''n''" "utf8_valid ''i''"
    by (rule utf8_valid_ascii; simp add: is_ascii_def)+
  then have "json_wf ?v" using assms by auto
  from json_roundtrip [OF this] have j: "json_Unmarshal (json_enc ?v) = Some ?v" .
  obtain x xs where x: "json_enc ?v = x # xs" by simp
  then have ne: "b64_EncodeToString (json_enc ?v) \<noteq> []"
    by (cases xs; cases "tl xs") auto
  have f: "get_int ''p'' [(''p'', JNum (itoa (cc_Position c))), (''n'', JStr (cc_Name c)), (''i'', JStr (cc_ID c))] = Some (cc_Position c)"
    "get_str ''n'' [(''p'', JNum (itoa (cc_Position c))), (''n'', JStr (cc_Name c)), (''i'', JStr (cc_ID c))] = Some (cc_Name c)"
    "get_str ''i'' [(''p'', JNum (itoa (cc_Position c))), (''n'', JStr (cc_Name c)), (''i'', JStr (cc_ID c))] = Some (cc_ID c)"
    using assms(1)
    by (simp_all add: get_int_def get_str_def jfields_def set_int_def set_str_def atoi_itoa
        lower_char_def is_upper_def)
  show ?thesis
    unfolding decodeChannelCursor_def encodeChannelCursor_def
    using ne by (simp only: b64_roundtrip j f option.case json.case prod.case if_False) simp
qed

lemma encodeChannelCursor_ne: "encodeChannelCursor c \<noteq> []"
proof -
  obtain x xs where x: "json_enc (JObj [(''p'', JNum (itoa (cc_Position c))), (''n'', JStr (cc_Name c)),
       (''i'', JStr (cc_ID c))]) = x # xs" by simp
  then show ?thesis unfolding encodeChannelCursor_def by (cases xs; cases "tl xs") auto
qed

lemma back_ref_ids:
  assumes "\<And>p c. ch_ID (f p c) = ch_ID c"
  shows "map ch_ID (back_ref f ids rs chs) = map ch_ID chs"
proof -
  have "map ch_ID (foldl (\<lambda>chs (cid, p). case last_index ids cid of None \<Rightarrow> chs
      | Some i \<Rightarrow> chs[i := f p (chs ! i)]) xs rs) = map ch_ID xs" for xs
  proof (induction rs arbitrary: xs)
    case (Cons r rs)
    have "map ch_ID (xs[i := f p (xs ! i)]) = map ch_ID xs" for i p
      by (metis assms list_update_id map_update)
    with Cons show ?case by (auto split: prod.splits option.splits)
  qed simp
  then show ?thesis by (simp add: back_ref_def)
qed

lemma decorate_quiet:
  assumes "script w = []"
  obtains chs' where "decorateWithGuide live chs w = (Inr chs', w)" "map ch_ID chs' = map ch_ID chs"
  using that assms
  by (cases "chs = []") (auto simp: decorateWithGuide_def db_call_quiet query_refs_def sql_read_def Let_def
      back_ref_ids)

text \<open>The names and identifiers a cursor can carry through, and the agreement of Go's and the
  database's lower case that the comparison of a cursor with the rows relies on.\<close>

definition cursor_safe :: "world \<Rightarrow> bool" where
  "cursor_safe w \<longleftrightarrow>
     script w = [] \<and> inj (pg_coll (wdb w)) \<and> distinct (map ch_ID (channels (wdb w))) \<and>
     (\<forall>r \<in> set (channels (wdb w)).
        in_int64 (ch_Position r) \<and> utf8_valid (ch_ID r) \<and>
        utf8_valid (go_ToLower (uni_lower w) (ch_DisplayName r)) \<and>
        go_ToLower (uni_lower w) (ch_DisplayName r) = pg_lower (wdb w) (ch_DisplayName r))"

text \<open>A client that follows the cursors to the end.\<close>

fun walk_pages :: "nat \<Rightarrow> string \<Rightarrow> string \<Rightarrow> string \<Rightarrow> int \<Rightarrow> string \<Rightarrow> world \<Rightarrow> string list option" where
  "walk_pages 0 uid grp q lim cursor w = None"
| "walk_pages (Suc k) uid grp q lim cursor w =
     (case ListChannelsForUser live uid grp q lim cursor w of
        (Inl e, w) \<Rightarrow> None
      | (Inr (chs, next), w) \<Rightarrow>
          if next = [] then Some (map ch_ID chs)
          else map_option (\<lambda>r. map ch_ID chs @ r) (walk_pages k uid grp q lim next w))"

definition full_listing :: "string \<Rightarrow> string \<Rightarrow> world \<Rightarrow> channel_row list" where
  "full_listing grp q w =
     sort_key (chan_key (wdb w))
       (filter (listed (wdb w) grp (go_ToLower (uni_lower w) q) None) (channels (wdb w)))"

lemma key_distinct:
  assumes "cursor_safe w" "xs = filter P (channels (wdb w))"
  shows "sorted_wrt (<) (map (chan_key (wdb w)) (sort_key (chan_key (wdb w)) xs))"
proof -
  let ?K = "chan_key (wdb w)"
  have "distinct (map ch_ID xs)" using assms by (simp add: cursor_safe_def distinct_map_filter)
  moreover have "inj (pg_coll (wdb w))" using assms(1) by (simp add: cursor_safe_def)
  ultimately have "distinct (map ?K xs)"
    by (auto simp: distinct_map inj_on_def chan_key_def dest: injD)
  then have "distinct (map ?K (sort_key ?K xs))"
    by (simp add: distinct_map)
  moreover have "sorted (map ?K (sort_key ?K xs))" by simp
  ultimately show ?thesis by (simp add: strict_sorted_iff)
qed

lemma filter_above:
  assumes "sorted_wrt (<) (map K xs)" "i < length xs"
  shows "filter (\<lambda>x. K (xs ! i) < (K x :: 'k :: linorder)) xs = drop (Suc i) xs"
  using assms
proof (induction xs arbitrary: i)
  case (Cons x xs)
  show ?case
  proof (cases i)
    case 0
    with Cons.prems show ?thesis by (auto simp: filter_id_conv)
  next
    case (Suc j)
    with Cons.prems have "K x < K (xs ! j)" by auto
    then have "\<not> K (xs ! j) < K x" by simp
    moreover have "filter (\<lambda>y. K (xs ! j) < K y) xs = drop (Suc j) xs"
      using Cons.prems Suc by (intro Cons.IH) auto
    ultimately show ?thesis using Suc by simp
  qed
qed simp

text \<open>The rows behind a cursor are what is left of the full listing behind its row.\<close>

lemma rows_behind:
  assumes "cursor_safe w" "i < length (full_listing grp q w)"
    and "c = full_listing grp q w ! i" "s = wdb w" "lq = go_ToLower (uni_lower w) q"
  shows "sort_key (chan_key s) (filter (listed s grp lq
      (Some \<lparr>cc_Position = ch_Position c, cc_Name = pg_lower s (ch_DisplayName c), cc_ID = ch_ID c\<rparr>))
      (channels s)) = drop (Suc i) (full_listing grp q w)"
proof -
  let ?K = "chan_key s"
  have "filter (listed s grp lq (Some \<lparr>cc_Position = ch_Position c,
        cc_Name = pg_lower s (ch_DisplayName c), cc_ID = ch_ID c\<rparr>)) (channels s)
      = filter (\<lambda>r. ?K c < ?K r) (filter (listed s grp lq None) (channels s))"
    by (auto simp: filter_filter listed_def chan_key_def intro!: filter_cong)
  then have "sort_key ?K (filter (listed s grp lq (Some \<lparr>cc_Position = ch_Position c,
        cc_Name = pg_lower s (ch_DisplayName c), cc_ID = ch_ID c\<rparr>)) (channels s))
      = filter (\<lambda>r. ?K c < ?K r) (full_listing grp q w)"
    using assms(4,5) by (simp add: full_listing_def filter_sort)
  also have "\<dots> = drop (Suc i) (full_listing grp q w)"
    unfolding assms(3)
    by (rule filter_above) (use assms key_distinct in \<open>simp_all add: full_listing_def\<close>)
  finally show ?thesis .
qed

text \<open>One request of the walk: the listing from row \<open>i\<close> on.\<close>

definition cursor_at :: "world \<Rightarrow> channel_row \<Rightarrow> string" where
  "cursor_at w c = encodeChannelCursor
     \<lparr>cc_Position = ch_Position c, cc_Name = pg_lower (wdb w) (ch_DisplayName c), cc_ID = ch_ID c\<rparr>"

lemma page_at:
  assumes safe: "cursor_safe w" and n: "n = list_limit lim"
    and cur: "(cursor = [] \<and> rest = full_listing grp q w) \<or>
      (\<exists>i < length (full_listing grp q w). cursor = cursor_at w (full_listing grp q w ! i) \<and>
         rest = drop (Suc i) (full_listing grp q w))"
  obtains chs where "ListChannelsForUser live uid grp q lim cursor w =
      (Inr (chs, if n < length rest then cursor_at w (rest ! (n - 1)) else []), w)"
    and "map ch_ID chs = map ch_ID (take n rest)"
proof -
  let ?s = "wdb w" and ?lq = "go_ToLower (uni_lower w) q"
  have sub: "set (full_listing grp q w) \<subseteq> set (channels ?s)"
    by (auto simp: full_listing_def)
  have n0: "0 < n" by (simp add: n list_limit_def)
  obtain cc where dec: "decodeChannelCursor cursor = Inr cc"
    and rows: "sort_key (chan_key ?s) (filter (listed ?s grp ?lq (if cursor = [] then None else Some cc))
        (channels ?s)) = rest"
    using cur
  proof
    assume c: "cursor = [] \<and> rest = full_listing grp q w"
    then show thesis using that [of "\<lparr>cc_Position = 0, cc_Name = [], cc_ID = []\<rparr>"]
      by (simp add: decodeChannelCursor_def full_listing_def)
  next
    assume "\<exists>i < length (full_listing grp q w). cursor = cursor_at w (full_listing grp q w ! i) \<and>
         rest = drop (Suc i) (full_listing grp q w)"
    then obtain i where i: "i < length (full_listing grp q w)"
      "cursor = cursor_at w (full_listing grp q w ! i)" "rest = drop (Suc i) (full_listing grp q w)"
      by blast
    let ?c = "full_listing grp q w ! i"
    let ?cc = "\<lparr>cc_Position = ch_Position ?c, cc_Name = pg_lower ?s (ch_DisplayName ?c), cc_ID = ch_ID ?c\<rparr>"
    have "?c \<in> set (channels ?s)" using sub i(1) by (meson nth_mem subsetD)
    then have "in_int64 (ch_Position ?c)" "utf8_valid (pg_lower ?s (ch_DisplayName ?c))" "utf8_valid (ch_ID ?c)"
      using safe by (auto simp: cursor_safe_def)
    then have "decodeChannelCursor cursor = Inr ?cc"
      unfolding i(2) cursor_at_def by (intro cursor_roundtrip) simp_all
    moreover have "cursor \<noteq> []" by (simp add: i(2) cursor_at_def encodeChannelCursor_ne)
    ultimately show thesis using that [of ?cc] rows_behind [OF safe i(1) refl refl refl] i(3) by simp
  qed
  have q: "db_call live (list_query uid grp ?lq (if cursor = [] then None else Some cc) (n + 1)) w
      = (Inr (map (\<lambda>r. scanChannelRow (has_favorite ?s uid r) r) (take (n + 1) rest)), w)"
    using safe rows by (simp add: db_call_quiet cursor_safe_def list_query_def sql_read_def)
  let ?chs = "map (\<lambda>r. scanChannelRow (has_favorite ?s uid r) r) (take (n + 1) rest)"
  have flds: "ch_ID (scanChannelRow b r) = ch_ID r" "ch_Position (scanChannelRow b r) = ch_Position r"
    "ch_DisplayName (scanChannelRow b r) = ch_DisplayName r" for b r
    by (simp_all add: scanChannelRow_def channel_row.defs)
  have sq: "script w = []" using safe by (simp add: cursor_safe_def)
  obtain chs where chs: "decorateWithGuide live (take n ?chs) w = (Inr chs, w)"
    "map ch_ID chs = map ch_ID (take n ?chs)"
    by (rule decorate_quiet [OF sq])
  have next_eq: "(if n < length ?chs then
        let l = ?chs ! (n - 1) in encodeChannelCursor \<lparr>cc_Position = ch_Position l,
          cc_Name = go_ToLower (uni_lower w) (ch_DisplayName l), cc_ID = ch_ID l\<rparr> else [])
      = (if n < length rest then cursor_at w (rest ! (n - 1)) else [])"
  proof (cases "n < length rest")
    case True
    then have "?chs ! (n - 1) = scanChannelRow (has_favorite ?s uid (rest ! (n - 1))) (rest ! (n - 1))"
      using n0 by simp
    moreover have "rest ! (n - 1) \<in> set (channels ?s)"
    proof -
      have "set rest \<subseteq> set (channels ?s)" using rows by auto
      moreover have "rest ! (n - 1) \<in> set rest" using True by simp
      ultimately show ?thesis by blast
    qed
    ultimately show ?thesis using True safe by (simp add: flds cursor_at_def cursor_safe_def Let_def)
  qed simp
  show thesis
  proof (rule that [of chs])
    show "ListChannelsForUser live uid grp q lim cursor w =
      (Inr (chs, if n < length rest then cursor_at w (rest ! (n - 1)) else []), w)"
      unfolding ListChannelsForUser_def n [symmetric] Let_def dec sum.case q wrap_err.simps prod.case
        next_eq [unfolded Let_def] chs(1) ..
    show "map ch_ID chs = map ch_ID (take n rest)"
      by (simp add: chs(2) take_map comp_def flds min_def)
  qed
qed

lemma walk_rest:
  assumes safe: "cursor_safe w"
  shows "(cursor = [] \<and> rest = full_listing grp q w) \<or>
      (\<exists>i < length (full_listing grp q w). cursor = cursor_at w (full_listing grp q w ! i) \<and>
         rest = drop (Suc i) (full_listing grp q w)) \<Longrightarrow>
    length rest < k \<Longrightarrow> walk_pages k uid grp q lim cursor w = Some (map ch_ID rest)"
proof (induction k arbitrary: cursor rest)
  case (Suc k)
  define n where "n = list_limit lim"
  then have n0: "0 < n" by (simp add: list_limit_def)
  obtain chs where page: "ListChannelsForUser live uid grp q lim cursor w =
      (Inr (chs, if n < length rest then cursor_at w (rest ! (n - 1)) else []), w)"
    and ids: "map ch_ID chs = map ch_ID (take n rest)"
    by (rule page_at [OF safe n_def Suc.prems(1)])
  show ?case
  proof (cases "n < length rest")
    case False
    then show ?thesis using page ids by simp
  next
    case True
    let ?full = "full_listing grp q w"
    obtain d where d: "rest = drop d ?full" "d \<le> length ?full"
      using Suc.prems(1) by (metis Suc_leI drop0 zero_le)
    let ?i = "d + (n - 1)"
    have i: "?i < length ?full" "rest ! (n - 1) = ?full ! ?i" "drop n rest = drop (Suc ?i) ?full"
      using True d n0 by (simp_all add: add.commute)
    have "walk_pages k uid grp q lim (cursor_at w (rest ! (n - 1))) w = Some (map ch_ID (drop n rest))"
    proof (rule Suc.IH)
      show "length (drop n rest) < k" using Suc.prems(2) True n0 by simp
    qed (use i in metis)
    moreover have "cursor_at w (rest ! (n - 1)) \<noteq> []"
      by (simp add: cursor_at_def encodeChannelCursor_ne)
    ultimately show ?thesis
      using page ids True by (simp add: map_append [symmetric] del: map_append)
  qed
qed simp

section \<open>Properties\<close>

text \<open>
  Property C7: keyset pagination is exact. A client that starts without a cursor and follows
  the returned cursors until none is returned sees exactly the channels the user may list
  (enabled, in the group, matching the search), each once, in the documented order, for every
  page size; it needs no more requests than there are channels plus one.
\<close>

theorem pagination_exact:
  assumes "cursor_safe w" "length (channels (wdb w)) < k"
  shows "walk_pages k uid grp q lim [] w = Some (map ch_ID (full_listing grp q w)) \<and>
    distinct (map ch_ID (full_listing grp q w)) \<and>
    set (full_listing grp q w) =
      {r \<in> set (channels (wdb w)). listed (wdb w) grp (go_ToLower (uni_lower w) q) None r}"
proof -
  have "length (full_listing grp q w) \<le> length (channels (wdb w))"
    by (simp add: full_listing_def)
  then have "walk_pages k uid grp q lim [] w = Some (map ch_ID (full_listing grp q w))"
    using assms by (intro walk_rest) auto
  moreover have "distinct (map ch_ID (full_listing grp q w))"
  proof -
    have "distinct (map ch_ID (filter P (channels (wdb w))))" for P
      using assms(1) by (simp add: cursor_safe_def distinct_map_filter)
    then show ?thesis by (auto simp: full_listing_def distinct_map)
  qed
  ultimately show ?thesis by (auto simp: full_listing_def)
qed

definition demo_row :: "string \<Rightarrow> string \<Rightarrow> int \<Rightarrow> channel_row" where
  "demo_row cid name pos =
     \<lparr>ch_ID = cid, ch_SourceM3UID = ''m'', ch_SourceChannelID = cid, ch_DisplayName = name,
      ch_LogoURL = [], ch_UpstreamURL = ''http://u/'' @ cid, ch_UpstreamKind = ''hls'',
      ch_ChannelNumberSrc = [], ch_ChannelNumberAdmin = None, ch_GroupTitleSrc = ''g'',
      ch_GroupTitleAdmin = None, ch_Attrs = [], ch_EnabledSrc = True, ch_EnabledAdmin = None,
      ch_Position = pos\<rparr>"

definition demo_source :: source_row where
  "demo_source =
     \<lparr>sr_id = ''m'', sr_name = ''M'', sr_url = ''http://u/p'', sr_http_headers = [], sr_enabled = True,
      sr_refresh_interval = \<lparr>iv_Microseconds = 1, iv_Days = 0, iv_Months = 0\<rparr>,
      sr_last_refreshed_at = None, sr_last_status = [], sr_etag = [], sr_last_modified = []\<rparr>"

definition demo_db :: db where
  "demo_db =
     \<lparr>m3u_sources = [demo_source], xmltv_sources = [], settings = None,
      channels = [demo_row ''b'' ''B'' 0, demo_row ''a'' ''A'' 0, demo_row ''c'' ''C'' 1],
      channel_epg_keys = [], programs = [], program_credits = [], user_favorites = [],
      user_recent = [], stream_sessions = [], pg_lower = to_lower, pg_coll = (\<lambda>s. s)\<rparr>"

definition demo_world :: world where
  "demo_world = \<lparr>wdb = demo_db, wnow = 0, script = [], ulid = (\<lambda>n. ''id'' @ dec_digits n),
     ulid_next = 0, uni_lower = to_lower, upstream = (\<lambda>n r. (0, Inl (Err OtherErr ''no route to host''))),
     sent = [], entropy = (\<lambda>n. Inr (replicate 32 (CHR ''k''))), entropy_next = 0\<rparr>"

lemma demo_safe: "cursor_safe demo_world"
  by (simp add: cursor_safe_def demo_world_def demo_db_def demo_row_def inj_def in_int64_def
      go_ToLower_def to_lower_def lower_char_def is_upper_def utf8_valid_ascii is_ascii_def)

theorem pagination_exact_witness:
  "walk_pages 4 ''u'' [] [] 1 [] demo_world = Some [''a'', ''b'', ''c'']"
proof -
  have "map ch_ID (full_listing [] [] demo_world) = [''a'', ''b'', ''c'']"
    by (simp add: full_listing_def listed_def demo_world_def demo_db_def demo_row_def eff_enabled_def
        chan_key_def go_ToLower_def to_lower_def lower_char_def is_upper_def
        less_char_def less_eq_char_def)
  with pagination_exact [OF demo_safe, of 4 "''u''" "[]" "[]" 1] show ?thesis
    by (simp add: demo_world_def demo_db_def)
qed

end
