(* ===== verification/StorePrograms.thy ===== *)
theory StorePrograms
  imports StoreChannels
begin

text \<open>
  \<open>src/internal/store/programs.go\<close>: the guide. \<open>ReplaceFutureForChannel\<close> runs in a transaction,
  modelled on a copy of the database that only the commit installs. Reads join programmes to
  channels through \<open>channel_epg_keys\<close>.
\<close>

section \<open>Types\<close>

record Program = program_row +
  pr_Credits :: "Credit list"

text \<open>A \<open>date\<close> column keeps the day.\<close>

definition pg_date :: "time \<Rightarrow> time" where
  "pg_date t = t div (24 * hour) * (24 * hour)"

definition scan_program :: "program_row \<Rightarrow> Program" where
  "scan_program r = program_row.extend r \<lparr>pr_Credits = []\<rparr>"

section \<open>Replacing the future of a channel\<close>

text \<open>The row \<open>CopyFrom\<close> sends for a programme, with a fresh identifier where it has none.\<close>

definition copy_row :: "string \<Rightarrow> Program \<Rightarrow> world \<Rightarrow> program_row \<times> world" where
  "copy_row xid p w =
     (let (pid, w) = (if pr_ID p = [] then newULID w else (pr_ID p, w)) in
      (program_row.truncate (p\<lparr>pr_ID := pid,
          pr_XMLTVChannelID := (if pr_XMLTVChannelID p = [] then xid else pr_XMLTVChannelID p),
          pr_Start := pg_ts (pr_Start p), pr_Stop := pg_ts (pr_Stop p),
          pr_OriginalAirDate := map_option pg_date (pr_OriginalAirDate p)\<rparr>), w))"

fun copy_rows :: "string \<Rightarrow> Program list \<Rightarrow> world \<Rightarrow> program_row list \<times> world" where
  "copy_rows xid [] w = ([], w)"
| "copy_rows xid (p # ps) w =
     (let (r, w) = copy_row xid p w; (rs, w) = copy_rows xid ps w in (r # rs, w))"

definition future_of :: "string \<Rightarrow> time \<Rightarrow> program_row \<Rightarrow> bool" where
  "future_of xid now r \<longleftrightarrow> pr_XMLTVChannelID r = xid \<and> now \<le> pr_Start r"

text \<open>Deleting programmes takes their credits along.\<close>

definition delete_programs :: "(program_row \<Rightarrow> bool) \<Rightarrow> db \<Rightarrow> db" where
  "delete_programs P s =
     (let gone = pr_ID ` set (filter P (programs s)) in
      s\<lparr>programs := sql_delete P (programs s),
        program_credits := sql_delete (\<lambda>c. cr_program_id c \<in> gone) (program_credits s)\<rparr>)"

definition row_in_range :: "program_row \<Rightarrow> bool" where
  "row_in_range r \<longleftrightarrow>
     (case pr_SeasonNum r of None \<Rightarrow> True | Some n \<Rightarrow> in_int32 n) \<and>
     (case pr_Episode r of None \<Rightarrow> True | Some n \<Rightarrow> in_int32 n)"

definition copy_programs :: "program_row list \<Rightarrow> db \<Rightarrow> err + db" where
  "copy_programs rs s =
     (if \<not> list_all row_in_range rs then Inl (constraint_error ''integer out of range'')
      else if \<not> distinct (map pr_ID rs) \<or> set (map pr_ID rs) \<inter> pr_ID ` set (programs s) \<noteq> {} then
        Inl (constraint_error ''duplicate key'')
      else Inr (s\<lparr>programs := programs s @ rs\<rparr>))"

text \<open>One statement inside the transaction: it takes its turn in the script.\<close>

abbreviation tx_turn :: "ctx \<Rightarrow> world \<Rightarrow> (err + time) \<times> world" where
  "tx_turn ctx w \<equiv> db_call ctx (\<lambda>now s. (Inr now, s)) w"

abbreviation tx_commit :: "ctx \<Rightarrow> db \<Rightarrow> world \<Rightarrow> (err + unit) \<times> world" where
  "tx_commit ctx s' w \<equiv> db_call ctx (\<lambda>now s. (Inr (), s')) w"

definition ReplaceFutureForChannel ::
  "ctx \<Rightarrow> string \<Rightarrow> Program list \<Rightarrow> world \<Rightarrow> (err + unit) \<times> world" where
  "ReplaceFutureForChannel ctx xid ps w =
     (case wrap_err ''begin'' (tx_turn ctx w) of
        (Inl e, w) \<Rightarrow> (Inl e, w)
      | (Inr now, w) \<Rightarrow>
          (case wrap_err ''delete future'' (tx_turn ctx w) of
             (Inl e, w) \<Rightarrow> (Inl e, w)
           | (Inr _, w) \<Rightarrow>
               let s1 = delete_programs (future_of xid now) (wdb w) in
               if ps = [] then tx_commit ctx s1 w
               else
                 let (rs, w) = copy_rows xid ps w in
                 case wrap_err ''copy programs'' (tx_turn ctx w) of
                   (Inl e, w) \<Rightarrow> (Inl e, w)
                 | (Inr _, w) \<Rightarrow>
                     (case copy_programs rs s1 of
                        Inl e \<Rightarrow> (Inl (wrapf ''copy programs'' e), w)
                      | Inr s2 \<Rightarrow> tx_commit ctx s2 w)))"

section \<open>Pruning and credits\<close>

definition prune_programs :: "time \<Rightarrow> int stmt" where
  "prune_programs cutoff = (\<lambda>now s.
     (Inr (sql_count (\<lambda>p. pr_Stop p < pg_ts cutoff) (programs s)),
      delete_programs (\<lambda>p. pr_Stop p < pg_ts cutoff) s))"

definition PruneOldPrograms :: "ctx \<Rightarrow> time \<Rightarrow> world \<Rightarrow> (err + int) \<times> world" where
  "PruneOldPrograms ctx cutoff w = wrap_err ''prune programs'' (db_call ctx (prune_programs cutoff) w)"

definition credit_kinds :: "string list" where
  "credit_kinds = [''actor'', ''director'', ''writer'', ''presenter'', ''guest'', ''producer'',
     ''composer'', ''editor'']"

definition insert_credits :: "string \<Rightarrow> Credit list \<Rightarrow> unit stmt" where
  "insert_credits pid cs = (\<lambda>now s.
     let rs = map (\<lambda>c. Credit.extend c \<lparr>cr_program_id = pid\<rparr>) cs;
         key = (\<lambda>r. (cr_program_id r, cr_Kind r, cr_Name r))
     in if pid \<notin> pr_ID ` set (programs s) then (Inl (constraint_error ''foreign key''), s)
        else if \<not> list_all (\<lambda>c. cr_Kind c \<in> set credit_kinds \<and> in_int32 (cr_Position c)) cs then
          (Inl (constraint_error ''check kind''), s)
        else if \<not> distinct (map key rs) \<or> set (map key rs) \<inter> key ` set (program_credits s) \<noteq> {} then
          (Inl (constraint_error ''duplicate key''), s)
        else (Inr (), s\<lparr>program_credits := program_credits s @ rs\<rparr>))"

definition InsertCredits :: "ctx \<Rightarrow> string \<Rightarrow> Credit list \<Rightarrow> world \<Rightarrow> (err + unit) \<times> world" where
  "InsertCredits ctx pid cs w =
     (if cs = [] then (Inr (), w)
      else wrap_err ''insert credits'' (db_call ctx (insert_credits pid cs) w))"

section \<open>Reading\<close>

definition overlaps :: "time \<Rightarrow> time \<Rightarrow> program_row \<Rightarrow> bool" where
  "overlaps a b p \<longleftrightarrow> pg_ts a < pr_Stop p \<and> pr_Start p < pg_ts b"

definition window_of :: "db \<Rightarrow> time \<Rightarrow> time \<Rightarrow> string \<Rightarrow> program_row list" where
  "window_of s a b cid = sort_key pr_Start (filter (overlaps a b) (guide_rows s cid))"

text \<open>The Go map from channel id to programmes, as an association list with distinct keys.\<close>

definition guide_query :: "string list \<Rightarrow> time \<Rightarrow> time \<Rightarrow> (string \<times> Program list) list stmt" where
  "guide_query ids a b = sql_read (\<lambda>now s.
     map (\<lambda>c. (c, map scan_program (window_of s a b c)))
       (filter (\<lambda>c. window_of s a b c \<noteq> []) (sort_key (pg_coll s) (remdups ids))))"

definition GuideWindow ::
  "ctx \<Rightarrow> string list \<Rightarrow> time \<Rightarrow> time \<Rightarrow> world \<Rightarrow> (err + (string \<times> Program list) list) \<times> world" where
  "GuideWindow ctx ids a b w =
     (if ids = [] then (Inr [], w)
      else wrap_err ''guide window'' (db_call ctx (guide_query ids a b) w))"

definition credit_order :: "db \<Rightarrow> credit_row \<Rightarrow> int \<times> string \<times> string" where
  "credit_order s c = (cr_Position c, pg_coll s (cr_Kind c), pg_coll s (cr_Name c))"

definition GetProgram :: "ctx \<Rightarrow> string \<Rightarrow> world \<Rightarrow> (err + Program) \<times> world" where
  "GetProgram ctx pid w =
     (case db_call ctx (sql_row (\<lambda>now s.
         map_option scan_program (find (\<lambda>p. pr_ID p = pid) (programs s)))) w of
        (Inl e, w) \<Rightarrow>
          (Inl (if ekind e = NoRows then err_not_found else wrapf ''get program'' e), w)
      | (Inr p, w) \<Rightarrow>
          (case wrap_err ''get credits'' (db_call ctx (sql_read (\<lambda>now s.
               map Credit.truncate (sort_key (credit_order s)
                 (filter (\<lambda>c. cr_program_id c = pid) (program_credits s))))) w) of
             (Inl e, w) \<Rightarrow> (Inl e, w)
           | (Inr cs, w) \<Rightarrow> (Inr (p\<lparr>pr_Credits := cs\<rparr>), w)))"

definition search_limit :: "int \<Rightarrow> nat" where
  "search_limit n = (if n \<le> 0 \<or> 500 < n then 500 else nat n)"

definition found_by :: "db \<Rightarrow> string \<Rightarrow> program_row \<Rightarrow> bool" where
  "found_by s needle p \<longleftrightarrow>
     like (pg_lower s (pr_Title p)) needle \<or> like (pg_lower s (pr_Description p)) needle \<or>
     like (pg_lower s (pr_SubTitle p)) needle"

definition SearchPrograms ::
  "ctx \<Rightarrow> string \<Rightarrow> time \<Rightarrow> time \<Rightarrow> int \<Rightarrow> world \<Rightarrow> (err + Program list) \<times> world" where
  "SearchPrograms ctx q a b lim w =
     (let needle = CHR ''%'' # go_ToLower (uni_lower w) q @ ''%'' in
      wrap_err ''search programs'' (db_call ctx (sql_read (\<lambda>now s.
        map scan_program (take (search_limit lim) (sort_key pr_Start
          (filter (\<lambda>p. pg_ts a \<le> pr_Start p \<and> pr_Start p < pg_ts b \<and> found_by s needle p)
            (programs s)))))) w))"

end
