(* ===== verification/StoreFavorites.thy ===== *)
theory StoreFavorites
  imports Tables
begin

text \<open>
  \<open>src/internal/store/favorites.go\<close>: the favourites and the recently watched channels of a user.
  Where \<open>ReorderFavorites\<close> is given an id twice PostgreSQL may use either position; the model
  uses the first.
\<close>

record Favorite =
  fav_ChannelID :: string
  fav_Position :: int

record Recent =
  rec_ChannelID :: string
  rec_LastTunedAt :: time

definition ListFavorites :: "ctx \<Rightarrow> string \<Rightarrow> world \<Rightarrow> (err + Favorite list) \<times> world" where
  "ListFavorites ctx uid w =
     wrap_err ''list favorites'' (db_call ctx (sql_read (\<lambda>now s.
       map (\<lambda>f. \<lparr>fav_ChannelID = fv_channel_id f, fav_Position = fv_position f\<rparr>)
         (sort_key (\<lambda>f. (fv_position f, fv_created_at f, pg_coll s (fv_channel_id f)))
           (filter (\<lambda>f. fv_user_id f = uid) (user_favorites s))))) w)"

definition next_position :: "string \<Rightarrow> favorite_row list \<Rightarrow> int" where
  "next_position uid fs =
     (case map fv_position (filter (\<lambda>f. fv_user_id f = uid) fs) of
        [] \<Rightarrow> 0 | p # ps \<Rightarrow> foldl max p ps + 1)"

definition add_favorite :: "string \<Rightarrow> string \<Rightarrow> unit stmt" where
  "add_favorite uid cid = (\<lambda>now s.
     if \<not> in_int32 (next_position uid (user_favorites s)) then
       (Inl (constraint_error ''integer out of range''), s)
     else if list_ex (\<lambda>f. fv_user_id f = uid \<and> fv_channel_id f = cid) (user_favorites s) then (Inr (), s)
     else if cid \<notin> ch_ID ` set (channels s) then (Inl (constraint_error ''foreign key''), s)
     else (Inr (), s\<lparr>user_favorites := user_favorites s @
       [\<lparr>fv_user_id = uid, fv_channel_id = cid, fv_position = next_position uid (user_favorites s),
         fv_created_at = now\<rparr>]\<rparr>))"

definition AddFavorite :: "ctx \<Rightarrow> string \<Rightarrow> string \<Rightarrow> world \<Rightarrow> (err + unit) \<times> world" where
  "AddFavorite ctx uid cid w = wrap_err ''add favorite'' (db_call ctx (add_favorite uid cid) w)"

definition remove_favorite :: "string \<Rightarrow> string \<Rightarrow> unit stmt" where
  "remove_favorite uid cid = (\<lambda>now s.
     (Inr (), s\<lparr>user_favorites :=
        sql_delete (\<lambda>f. fv_user_id f = uid \<and> fv_channel_id f = cid) (user_favorites s)\<rparr>))"

definition RemoveFavorite :: "ctx \<Rightarrow> string \<Rightarrow> string \<Rightarrow> world \<Rightarrow> (err + unit) \<times> world" where
  "RemoveFavorite ctx uid cid w = wrap_err ''remove favorite'' (db_call ctx (remove_favorite uid cid) w)"

text \<open>The position of a channel in the \<open>VALUES\<close> list.\<close>

fun pos_in :: "string \<Rightarrow> string list \<Rightarrow> nat option" where
  "pos_in c [] = None"
| "pos_in c (d # ds) = (if c = d then Some 0 else map_option Suc (pos_in c ds))"

definition reorder_favorites :: "string \<Rightarrow> string list \<Rightarrow> unit stmt" where
  "reorder_favorites uid ids = (\<lambda>now s.
     (Inr (), s\<lparr>user_favorites := sql_update
        (\<lambda>f. fv_user_id f = uid \<and> pos_in (fv_channel_id f) ids \<noteq> None)
        (\<lambda>f. f\<lparr>fv_position := int (the (pos_in (fv_channel_id f) ids))\<rparr>) (user_favorites s)\<rparr>))"

definition ReorderFavorites :: "ctx \<Rightarrow> string \<Rightarrow> string list \<Rightarrow> world \<Rightarrow> (err + unit) \<times> world" where
  "ReorderFavorites ctx uid ids w =
     (if ids = [] then (Inr (), w)
      else wrap_err ''reorder favorites'' (db_call ctx (reorder_favorites uid ids) w))"

definition mark_tuned :: "string \<Rightarrow> string \<Rightarrow> unit stmt" where
  "mark_tuned uid cid = (\<lambda>now s.
     let same = (\<lambda>r. rc_user_id r = uid \<and> rc_channel_id r = cid) in
     if list_ex same (user_recent s) then
       (Inr (), s\<lparr>user_recent := sql_update same (\<lambda>r. r\<lparr>rc_last_tuned_at := now\<rparr>) (user_recent s)\<rparr>)
     else if cid \<notin> ch_ID ` set (channels s) then (Inl (constraint_error ''foreign key''), s)
     else (Inr (), s\<lparr>user_recent := user_recent s @
       [\<lparr>rc_user_id = uid, rc_channel_id = cid, rc_last_tuned_at = now\<rparr>]\<rparr>))"

definition MarkTuned :: "ctx \<Rightarrow> string \<Rightarrow> string \<Rightarrow> world \<Rightarrow> (err + unit) \<times> world" where
  "MarkTuned ctx uid cid w = wrap_err ''mark tuned'' (db_call ctx (mark_tuned uid cid) w)"

definition ListRecent :: "ctx \<Rightarrow> string \<Rightarrow> int \<Rightarrow> world \<Rightarrow> (err + Recent list) \<times> world" where
  "ListRecent ctx uid lim w =
     wrap_err ''list recent'' (db_call ctx (sql_read (\<lambda>now s.
       let rs = sort_key (\<lambda>r. (- rc_last_tuned_at r, pg_coll s (rc_channel_id r)))
             (filter (\<lambda>r. rc_user_id r = uid) (user_recent s))
       in map (\<lambda>r. \<lparr>rec_ChannelID = rc_channel_id r, rec_LastTunedAt = rc_last_tuned_at r\<rparr>)
            (if 0 < lim then take (nat lim) rs else rs))) w)"

end
