(* ===== verification/StoreInvariant.thy ===== *)
theory StoreInvariant
  imports StoreSessions StoreSources StorePrograms StoreFavorites
begin

text \<open>
  What holds of the database whatever the plugin does. A relation between the database before
  and after is a \<open>db_relation\<close> when it is reflexive, transitive and contains the effect of every
  single statement of the store; inside that locale it is shown once to contain the effect of
  every store method, whatever fails on the way. It is built in layers: \<open>world_relation\<close> (the
  methods that only read), \<open>refresh_relation\<close> (with the statements of the refresh workers),
  \<open>byte_relation\<close> (with those of the streams), \<open>user_relation\<close> (with those a viewer causes) and
  \<open>db_relation\<close>. The predicate \<open>mintable\<close> restricts the identifiers of new sessions. \<open>db_relation\<close> is
  interpreted for the integrity of the tables (keys, references, checks), for the life of the
  sessions and for the load they are; the layers below it for what a refresh, a stream, a viewer
  and a guide request may change.
\<close>

section \<open>What calls leave alone\<close>

lemma wrap_err_world: "snd (wrap_err p x) = snd x"
  by (cases "(p, x)" rule: wrap_err.cases) auto

lemma not_found_world: "snd (not_found_of x) = snd x"
  by (cases x rule: not_found_of.cases) auto

lemma require_rows_world: "snd (require_rows x) = snd x"
  by (cases x rule: require_rows.cases) auto

named_theorems frame \<open>parts of the world and of the proxy an operation does not touch\<close>

lemma sent_db_call [frame]: "sent (snd (db_call ctx f w)) = sent w"
  by (auto simp: db_call_def Let_def split: option.splits sum.splits prod.splits list.splits)

lemmas snd_wrap = wrap_err_world not_found_world require_rows_world

lemma wdb_row [frame]: "wdb (snd (db_call ctx (sql_row q) w)) = wdb w"
  using db_call_row_wdb [of ctx q w] by (metis prod.collapse)

lemma wdb_read [frame]: "wdb (snd (db_call ctx (sql_read q) w)) = wdb w"
  using db_call_read_wdb [of ctx q w] by (metis prod.collapse)

text \<open>A row that a query of one row returned was in the table.\<close>

lemma db_row_Inr:
  "db_call ctx (sql_row q) w = (Inr a, w') \<Longrightarrow> \<exists>now. q now (wdb w) = Some a"
  by (auto simp: db_call_def sql_row_def Let_def split: if_splits option.splits prod.splits list.splits)

lemma wrap_err_Inr: "wrap_err p x = (Inr a, w) \<longleftrightarrow> x = (Inr a, w)"
  by (cases "(p, x)" rule: wrap_err.cases) auto

lemma not_found_Inr: "not_found_of x = (Inr a, w) \<longleftrightarrow> x = (Inr a, w)"
  by (cases x rule: not_found_of.cases) auto

lemma upstream_db_call [frame]: "upstream (snd (db_call ctx f w)) = upstream w"
  by (auto simp: db_call_def Let_def split: option.splits sum.splits prod.splits list.splits)

lemma uni_db_call [frame]: "uni_lower (snd (db_call ctx f w)) = uni_lower w"
  by (auto simp: db_call_def Let_def split: option.splits sum.splits prod.splits list.splits)

text \<open>What a statement did, given that the call succeeded.\<close>

lemma db_call_Inr_stmt: "db_call ctx f w = (Inr a, w') \<Longrightarrow> \<exists>now. f now (wdb w) = (Inr a, wdb w')"
  by (auto simp: db_call_def Let_def split: if_splits option.splits sum.splits prod.splits list.splits)

section \<open>Relations every method respects\<close>

text \<open>What every method does to the database by its reads.\<close>

locale world_relation =
  fixes R :: "db \<Rightarrow> db \<Rightarrow> bool"
  assumes R_refl: "R s s"
    and R_trans: "R s1 s2 \<Longrightarrow> R s2 s3 \<Longrightarrow> R s1 s3"
begin

text \<open>One lemma per store method, in the order of the files.\<close>

lemma R_call:
  assumes "\<And>now a s'. f now (wdb w) = (Inr a, s') \<Longrightarrow> R (wdb w) s'"
  shows "R (wdb w) (wdb (snd (db_call ctx f w)))"
  using assms R_refl db_call_wdb [of ctx f w "fst (db_call ctx f w)" "snd (db_call ctx f w)"] by auto

lemma R_read: "R (wdb w) (wdb (snd (db_call ctx (sql_read q) w)))"
  by (rule R_call) (auto simp: sql_read_def R_refl)

lemma R_row: "R (wdb w) (wdb (snd (db_call ctx (sql_row q) w)))"
  by (rule R_call) (auto simp: sql_row_def R_refl)

lemma R_ulid: "R (wdb w) (wdb (snd (newULID w)))"
  by (simp add: newULID_def R_refl)

lemma R_seq:
  assumes "R (wdb w) (wdb (snd x))" "\<And>a v. x = (Inr a, v) \<Longrightarrow> R (wdb v) (wdb (snd (g a v)))"
  shows "R (wdb w) (wdb (snd (case x of (Inl e, v) \<Rightarrow> (Inl (h e), v) | (Inr a, v) \<Rightarrow> g a v)))"
  using assms R_trans by (cases x; cases "fst x") auto

lemmas snd_worlds = wrap_err_world not_found_world require_rows_world

lemma R_GetSession: "R (wdb w) (wdb (snd (GetSession ctx sid w)))"
  by (simp add: GetSession_def snd_worlds R_row)

lemma R_CountActiveByUser: "R (wdb w) (wdb (snd (CountActiveByUser ctx uid w)))"
  by (simp add: CountActiveByUser_def snd_worlds R_read)

lemma R_CountActiveByChannel: "R (wdb w) (wdb (snd (CountActiveByChannel ctx cid w)))"
  by (simp add: CountActiveByChannel_def snd_worlds R_read)

lemma R_ListActiveSessions: "R (wdb w) (wdb (snd (ListActiveSessions ctx w)))"
  by (simp add: ListActiveSessions_def snd_worlds R_read)

lemma R_ListEPGKeys: "R (wdb w) (wdb (snd (ListEPGKeys ctx cid w)))"
  by (simp add: ListEPGKeys_def snd_worlds R_read)

lemma R_decorate: "R (wdb w) (wdb (snd (decorateWithGuide ctx chs w)))"
proof (cases "chs = []")
  case False
  then show ?thesis
    unfolding decorateWithGuide_def Let_def
    by (simp only: if_False, intro R_seq)
      (simp_all add: snd_worlds query_refs_def R_read R_refl)
qed (simp add: decorateWithGuide_def R_refl)

lemma R_ListChannelsForUser: "R (wdb w) (wdb (snd (ListChannelsForUser ctx uid grp q lim cursor w)))"
proof (cases "decodeChannelCursor cursor")
  case (Inr c)
  show ?thesis
    unfolding ListChannelsForUser_def Let_def Inr sum.case
    by (intro R_seq) (simp_all only: snd_worlds list_query_def R_read R_decorate snd_conv R_refl)
qed (simp add: ListChannelsForUser_def R_refl Let_def)

lemma R_GetChannel: "R (wdb w) (wdb (snd (GetChannel ctx cid w)))"
  by (simp add: GetChannel_def snd_worlds R_row)

lemma R_GetChannelView: "R (wdb w) (wdb (snd (GetChannelView ctx uid cid w)))"
  unfolding GetChannelView_def
  by (intro R_seq) (simp_all only: snd_worlds R_row R_decorate snd_conv R_refl)

lemma R_ListGroups: "R (wdb w) (wdb (snd (ListGroups ctx w)))"
  by (simp add: ListGroups_def snd_worlds R_read)

lemma R_AdminListChannels: "R (wdb w) (wdb (snd (AdminListChannels ctx sid w)))"
  by (simp add: AdminListChannels_def snd_worlds R_read)

lemma R_VisibleChannelIDs: "R (wdb w) (wdb (snd (VisibleChannelIDsForUser ctx uid grp w)))"
  by (simp add: VisibleChannelIDsForUser_def snd_worlds R_read)

lemma R_ListM3USources: "R (wdb w) (wdb (snd (ListM3USources ctx w)))"
  by (simp add: ListM3USources_def snd_worlds R_read)

lemma R_GetM3USource: "R (wdb w) (wdb (snd (GetM3USource ctx sid w)))"
  by (simp add: GetM3USource_def snd_worlds R_row)

lemma R_ListXMLTVSources: "R (wdb w) (wdb (snd (ListXMLTVSources ctx w)))"
  by (simp add: ListXMLTVSources_def snd_worlds R_read)

lemma R_GetXMLTVSource: "R (wdb w) (wdb (snd (GetXMLTVSource ctx sid w)))"
  by (simp add: GetXMLTVSource_def snd_worlds R_row)

lemma R_GetSettings: "R (wdb w) (wdb (snd (GetSettings ctx w)))"
  by (simp add: GetSettings_def snd_worlds R_row)

lemma copy_rows_wdb: "wdb (snd (copy_rows xid ps w)) = wdb w"
  by (induction xid ps w rule: copy_rows.induct)
    (auto simp: copy_row_def newULID_def Let_def split: prod.splits if_splits)

lemma R_GuideWindow: "R (wdb w) (wdb (snd (GuideWindow ctx ids a b w)))"
  by (simp add: GuideWindow_def guide_query_def snd_worlds R_read R_refl)

lemma R_GetProgram: "R (wdb w) (wdb (snd (GetProgram ctx pid w)))"
  unfolding GetProgram_def
  by (intro R_seq) (simp_all only: snd_worlds R_row R_read snd_conv R_refl)

lemma R_SearchPrograms: "R (wdb w) (wdb (snd (SearchPrograms ctx q a b lim w)))"
  by (simp add: SearchPrograms_def Let_def snd_worlds R_read)

lemma R_ListFavorites: "R (wdb w) (wdb (snd (ListFavorites ctx uid w)))"
  by (simp add: ListFavorites_def snd_worlds R_read)

lemma R_ListRecent: "R (wdb w) (wdb (snd (ListRecent ctx uid lim w)))"
  by (simp add: ListRecent_def snd_worlds R_read)

end

text \<open>The statements the refresh workers use, on the channels of the playlists in \<open>source\<close>.\<close>

locale refresh_relation = world_relation +
  fixes source :: "string \<Rightarrow> bool"
  assumes R_upsert_channel: "source (ch_SourceM3UID ch) \<Longrightarrow>
        upsert_channel cid (ch :: channel_row) kind now s = (Inr d, s') \<Longrightarrow> R s s'"
    and R_mark_missing: "source sid \<Longrightarrow> mark_missing sid seen now s = (Inr a, s') \<Longrightarrow> R s s'"
    and R_auto_link: "auto_link xid now s = (Inr a, s') \<Longrightarrow> R s s'"
    and R_status_m3u: "update_m3u sid (set_status t st et lm) now s = (Inr b, s') \<Longrightarrow> R s s'"
    and R_status_xmltv: "update_xmltv sid (set_status t st et lm) now s = (Inr b, s') \<Longrightarrow> R s s'"
    and R_delete_programs: "R s (delete_programs P s)"
    and R_copy_programs: "copy_programs rs s = Inr s' \<Longrightarrow> R s s'"
begin

lemma R_UpsertChannelFromM3U:
  assumes "source (ch_SourceM3UID c)"
  shows "R (wdb w) (wdb (snd (UpsertChannelFromM3U ctx (c :: channel_row) w)))"
proof -
  have c: "R (wdb v) (wdb (snd (wrap_err p (db_call ctx (upsert_channel cid c kind) v))))" for v p cid kind
    unfolding snd_worlds by (rule R_call, erule R_upsert_channel [OF assms])
  show ?thesis
    unfolding UpsertChannelFromM3U_def Let_def
    using c c [of "snd (newULID w)"] by (simp add: newULID_def)
qed

lemma R_MarkChannelsMissing: "source sid \<Longrightarrow> R (wdb w) (wdb (snd (MarkChannelsMissing ctx sid seen w)))"
  unfolding MarkChannelsMissing_def snd_worlds by (rule R_call, erule (1) R_mark_missing)

lemma R_MarkM3UStatus: "R (wdb w) (wdb (snd (MarkM3UStatus ctx sid st et lm t w)))"
  unfolding MarkM3UStatus_def snd_worlds by (rule R_call, erule R_status_m3u)

lemma R_MarkXMLTVStatus: "R (wdb w) (wdb (snd (MarkXMLTVStatus ctx sid st et lm t w)))"
  unfolding MarkXMLTVStatus_def snd_worlds by (rule R_call, erule R_status_xmltv)

lemma R_ReplaceFuture: "R (wdb w) (wdb (snd (ReplaceFutureForChannel ctx xid ps w)))"
proof -
  have turn: "wdb (snd (wrap_err p (db_call ctx (\<lambda>now s. (Inr now, s)) v))) = wdb v" for p v
    using db_call_wdb [of ctx "\<lambda>now s. (Inr now, s)" v "fst (db_call ctx (\<lambda>now s. (Inr now, s)) v)"
        "snd (db_call ctx (\<lambda>now s. (Inr now, s)) v)"]
    by (auto simp: snd_worlds)
  have commit: "R (wdb v) (wdb (snd (db_call ctx (\<lambda>now s. (Inr (), s')) v)))" if "R (wdb v) s'" for v s'
    by (rule R_call) (use that in simp)
  have fin: "R (wdb v) (wdb (snd (let (rs, v') = copy_rows xid ps v in
      case wrap_err p (db_call ctx (\<lambda>now s. (Inr now, s)) v') of
        (Inl e, v) \<Rightarrow> (Inl e, v)
      | (Inr _, v) \<Rightarrow> (case copy_programs rs s1 of Inl e \<Rightarrow> (Inl (wrapf p e), v)
          | Inr s2 \<Rightarrow> db_call ctx (\<lambda>now s. (Inr (), s2)) v))))"
    if s1: "R (wdb v) s1" for v s1 p
  proof -
    obtain rs v' where c: "copy_rows xid ps v = (rs, v')" by fastforce
    then have v': "wdb v' = wdb v" using copy_rows_wdb [of xid ps v] by simp
    show ?thesis
      unfolding c Let_def prod.case
    proof (rule ssubst [OF v' [symmetric]], rule R_seq)
      show "R (wdb v') (wdb (snd (wrap_err p (db_call ctx (\<lambda>now s. (Inr now, s)) v'))))"
        by (simp add: turn R_refl)
    next
      fix a u
      assume u: "wrap_err p (db_call ctx (\<lambda>now s. (Inr now, s)) v') = (Inr a, u)"
      then have e: "wdb u = wdb v" using turn [of p v'] v' by simp
      show "R (wdb u) (wdb (snd (case copy_programs rs s1 of Inl e \<Rightarrow> (Inl (wrapf p e), u)
          | Inr s2 \<Rightarrow> db_call ctx (\<lambda>now s. (Inr (), s2)) u)))"
      proof (cases "copy_programs rs s1")
        case (Inr s2)
        have "R (wdb u) s2" unfolding e by (rule R_trans [OF s1 R_copy_programs [OF Inr]])
        with Inr show ?thesis by (simp add: commit)
      qed (simp add: R_refl)
    qed
  qed
  show ?thesis
    unfolding ReplaceFutureForChannel_def
  proof (intro R_seq)
    fix now v1 x v
    show "R (wdb v) (wdb (snd (let s1 = delete_programs (future_of xid now) (wdb v) in
        if ps = [] then db_call ctx (\<lambda>now s. (Inr (), s1)) v
        else let (rs, w) = copy_rows xid ps v in
          case wrap_err ''copy programs'' (db_call ctx (\<lambda>now s. (Inr now, s)) w) of
            (Inl e, w) \<Rightarrow> (Inl e, w)
          | (Inr _, w) \<Rightarrow> (case copy_programs rs s1 of Inl e \<Rightarrow> (Inl (wrapf ''copy programs'' e), w)
              | Inr s2 \<Rightarrow> db_call ctx (\<lambda>now s. (Inr (), s2)) w))))"
      unfolding Let_def [of "delete_programs _ _"]
      using fin [OF R_delete_programs] commit [OF R_delete_programs] by simp
  qed (simp_all add: turn R_refl)
qed

lemma R_PruneOldPrograms: "R (wdb w) (wdb (snd (PruneOldPrograms ctx cutoff w)))"
  unfolding PruneOldPrograms_def snd_worlds
  by (rule R_call) (auto simp: prune_programs_def intro: R_delete_programs)

end

definition minted :: "Session \<Rightarrow> world \<Rightarrow> string" where
  "minted sess w = (if sn_ID sess = [] then ulid w (ulid_next w) else sn_ID sess)"

text \<open>
  The statements a stream makes on its own session: the routes that serve bytes only write to the
  sessions whose identifiers satisfy \<open>own\<close>.
\<close>

locale byte_relation = world_relation +
  fixes own :: "string \<Rightarrow> bool"
  assumes R_touch_session: "own sid \<Longrightarrow> touch_session sid t n now s = (Inr b, s') \<Longrightarrow> R s s'"
    and R_end_session: "own sid \<Longrightarrow> end_session sid reason now s = (Inr a, s') \<Longrightarrow> R s s'"
begin

lemma R_UpdateSessionLastByte: "own sid \<Longrightarrow> R (wdb w) (wdb (snd (UpdateSessionLastByte ctx sid t n w)))"
  unfolding UpdateSessionLastByte_def snd_worlds by (rule R_call, erule (1) R_touch_session)

lemma R_EndSession: "own sid \<Longrightarrow> R (wdb w) (wdb (snd (EndSession ctx sid reason w)))"
  unfolding EndSession_def snd_worlds by (rule R_call, erule (1) R_end_session)

end

text \<open>
  The statements a viewer can cause: those of the streams, and those on the favourites, the
  recents and the sessions of the users in \<open>user\<close>; \<open>mint\<close> restricts the sessions created.
\<close>

locale user_relation = byte_relation +
  fixes mint :: "session_row \<Rightarrow> bool"
    and user :: "string \<Rightarrow> bool"
  assumes R_set_kind: "set_kind cid kind now s = (Inr b, s') \<Longrightarrow> R s s'"
    and R_insert_session: "mint r \<Longrightarrow> insert_session r now s = (Inr a, s') \<Longrightarrow> R s s'"
    and R_add_favorite: "user uid \<Longrightarrow> add_favorite uid cid now s = (Inr a, s') \<Longrightarrow> R s s'"
    and R_remove_favorite: "user uid \<Longrightarrow> remove_favorite uid cid now s = (Inr a, s') \<Longrightarrow> R s s'"
    and R_reorder_favorites: "user uid \<Longrightarrow> reorder_favorites uid ids now s = (Inr a, s') \<Longrightarrow> R s s'"
    and R_mark_tuned: "user uid \<Longrightarrow> mark_tuned uid cid now s = (Inr a, s') \<Longrightarrow> R s s'"
begin

lemma R_SetUpstreamKind: "R (wdb w) (wdb (snd (SetUpstreamKind ctx cid kind w)))"
  unfolding SetUpstreamKind_def snd_worlds by (rule R_call, erule R_set_kind)

lemma R_CreateSession:
  assumes "\<And>x. sn_ID x = minted sess w \<Longrightarrow> sn_UserID x = sn_UserID sess \<Longrightarrow> mint (session_to_row x)"
  shows "R (wdb w) (wdb (snd (CreateSession_row ctx sess w)))"
proof -
  have c: "R (wdb v) (wdb (snd (case wrap_err p (db_call ctx (insert_session (session_to_row x)) v) of
      (Inl e, v) \<Rightarrow> (Inl e, v) | (Inr _, v) \<Rightarrow> GetSession ctx sid v)))" if "mint (session_to_row x)" for v p x sid
    by (rule R_seq, unfold snd_worlds, rule R_call, erule R_insert_session [OF that]) (rule R_GetSession)
  have c': "R (wdb w) (wdb (snd (case wrap_err p (db_call ctx (insert_session (session_to_row x))
      (w\<lparr>ulid_next := n\<rparr>)) of (Inl e, v) \<Rightarrow> (Inl e, v) | (Inr _, v) \<Rightarrow> GetSession ctx sid v)))"
    if "mint (session_to_row x)" for n p x sid
    using c [OF that, of "w\<lparr>ulid_next := n\<rparr>"] by simp
  show ?thesis
    using assms
    by (cases "sn_ID sess = []")
      (simp_all add: CreateSession_row_def minted_def newULID_def Let_def c c')
qed

lemma R_AddFavorite: "user uid \<Longrightarrow> R (wdb w) (wdb (snd (AddFavorite ctx uid cid w)))"
  unfolding AddFavorite_def snd_worlds by (rule R_call, erule (1) R_add_favorite)

lemma R_RemoveFavorite: "user uid \<Longrightarrow> R (wdb w) (wdb (snd (RemoveFavorite ctx uid cid w)))"
  unfolding RemoveFavorite_def snd_worlds by (rule R_call, erule (1) R_remove_favorite)

lemma R_ReorderFavorites:
  assumes "user uid"
  shows "R (wdb w) (wdb (snd (ReorderFavorites ctx uid ids w)))"
proof (cases "ids = []")
  case False
  then show ?thesis
    by (simp only: ReorderFavorites_def if_False snd_worlds) (rule R_call, erule R_reorder_favorites [OF assms])
qed (simp add: ReorderFavorites_def R_refl)

lemma R_MarkTuned: "user uid \<Longrightarrow> R (wdb w) (wdb (snd (MarkTuned ctx uid cid w)))"
  unfolding MarkTuned_def snd_worlds by (rule R_call, erule (1) R_mark_tuned)

end

text \<open>All statements of the store.\<close>

locale db_relation = refresh_relation R "\<lambda>_. True" + user_relation R "\<lambda>_. True" "\<lambda>r. mintable (ss_id r)" "\<lambda>_. True"
  for R and mintable :: "string \<Rightarrow> bool" +
  assumes R_reap_idle: "reap_idle cutoff now s = (Inr c, s') \<Longrightarrow> R s s'"
    and R_patch_channel: "patch_channel cid patch now s = (Inr b, s') \<Longrightarrow> R s s'"
    and R_add_epg_key: "add_epg_key cid xid auto now s = (Inr a, s') \<Longrightarrow> R s s'"
    and R_remove_epg_key: "remove_epg_key cid xid now s = (Inr a, s') \<Longrightarrow> R s s'"
    and R_insert_m3u: "insert_m3u row now s = (Inr a, s') \<Longrightarrow> R s s'"
    and R_config_m3u: "update_m3u sid (set_config (src :: M3USource)) now s = (Inr b, s') \<Longrightarrow> R s s'"
    and R_delete_m3u: "delete_m3u sid now s = (Inr b, s') \<Longrightarrow> R s s'"
    and R_insert_xmltv: "insert_xmltv xrow now s = (Inr a, s') \<Longrightarrow> R s s'"
    and R_config_xmltv: "update_xmltv sid (\<lambda>r. (set_config (xsrc :: XMLTVSource) r)\<lparr>sr_gzip := g\<rparr>) now s = (Inr b, s') \<Longrightarrow> R s s'"
    and R_delete_xmltv: "delete_xmltv sid now s = (Inr b, s') \<Longrightarrow> R s s'"
    and R_update_settings: "update_settings v now s = (Inr a, s') \<Longrightarrow> R s s'"
    and R_insert_credits: "insert_credits pid cs now s = (Inr a, s') \<Longrightarrow> R s s'"
begin

lemma R_ReapIdle: "R (wdb w) (wdb (snd (ReapIdle ctx d w)))"
  unfolding ReapIdle_def store_ReapIdle_def
  by (rule R_seq, unfold snd_worlds, rule R_call, erule R_reap_idle) (simp add: R_refl)

lemma R_AdminPatchChannel: "R (wdb w) (wdb (snd (AdminPatchChannel ctx cid p w)))"
proof (cases "cp_ChannelNumberAdmin p = None \<and> cp_GroupTitleAdmin p = None \<and>
    cp_EnabledAdmin p = None \<and> cp_Position p = None")
  case False
  then have "AdminPatchChannel ctx cid p w = require_rows (wrap_err ''admin patch channel''
      (db_call ctx (patch_channel cid p) w))"
    unfolding AdminPatchChannel_def by (simp only: if_False)
  then show ?thesis by (simp only: snd_worlds) (rule R_call, erule R_patch_channel)
qed (simp add: AdminPatchChannel_def R_refl)

lemma R_AddEPGKey: "R (wdb w) (wdb (snd (AddEPGKey ctx cid xid auto w)))"
  unfolding AddEPGKey_def snd_worlds by (rule R_call, erule R_add_epg_key)

lemma R_RemoveEPGKey: "R (wdb w) (wdb (snd (RemoveEPGKey ctx cid xid w)))"
  unfolding RemoveEPGKey_def snd_worlds by (rule R_call, erule R_remove_epg_key)

lemma R_CreateM3USource: "R (wdb w) (wdb (snd (CreateM3USource ctx x w)))"
proof -
  have c: "R (wdb v) (wdb (snd (case wrap_err p (db_call ctx (insert_m3u r) v) of
      (Inl e, v) \<Rightarrow> (Inl e, v) | (Inr _, v) \<Rightarrow> GetM3USource ctx sid v)))" for v p r sid
    by (rule R_seq, unfold snd_worlds, rule R_call, erule R_insert_m3u, rule R_GetM3USource)
  show ?thesis
    unfolding CreateM3USource_def Let_def
    using c c [of "snd (newULID w)"] by (simp add: newULID_def)
qed

lemma R_UpdateM3USource: "R (wdb w) (wdb (snd (UpdateM3USource ctx x w)))"
  unfolding UpdateM3USource_def snd_worlds by (rule R_call, erule R_config_m3u)

lemma R_DeleteM3USource: "R (wdb w) (wdb (snd (DeleteM3USource ctx sid w)))"
  unfolding DeleteM3USource_def snd_worlds by (rule R_call, erule R_delete_m3u)

lemma R_CreateXMLTVSource: "R (wdb w) (wdb (snd (CreateXMLTVSource ctx x w)))"
proof -
  have c: "R (wdb v) (wdb (snd (case wrap_err p (db_call ctx (insert_xmltv r) v) of
      (Inl e, v) \<Rightarrow> (Inl e, v) | (Inr _, v) \<Rightarrow> GetXMLTVSource ctx sid v)))" for v p r sid
    by (rule R_seq, unfold snd_worlds, rule R_call, erule R_insert_xmltv, rule R_GetXMLTVSource)
  show ?thesis
    unfolding CreateXMLTVSource_def Let_def
    using c c [of "snd (newULID w)"] by (simp add: newULID_def)
qed

lemma R_UpdateXMLTVSource: "R (wdb w) (wdb (snd (UpdateXMLTVSource ctx x w)))"
  unfolding UpdateXMLTVSource_def snd_worlds by (rule R_call, erule R_config_xmltv)

lemma R_DeleteXMLTVSource: "R (wdb w) (wdb (snd (DeleteXMLTVSource ctx sid w)))"
  unfolding DeleteXMLTVSource_def snd_worlds by (rule R_call, erule R_delete_xmltv)

lemma R_UpdateSettings: "R (wdb w) (wdb (snd (UpdateSettings ctx v w)))"
  unfolding UpdateSettings_def snd_worlds by (rule R_call, erule R_update_settings)

lemma R_InsertCredits: "R (wdb w) (wdb (snd (InsertCredits ctx pid cs w)))"
proof (cases "cs = []")
  case False
  then show ?thesis
    by (simp only: InsertCredits_def if_False snd_worlds) (rule R_call, erule R_insert_credits)
qed (simp add: InsertCredits_def R_refl)

end

end
