(* ===== verification/StoreIntegrity.thy ===== *)
theory StoreIntegrity
  imports StoreInvariant
begin

text \<open>
  The integrity of the tables: primary keys and unique constraints, foreign keys with their
  cascades, and the value checks of \<open>src/internal/migrate/files\<close>. Every statement of the store
  preserves it, so the locale of \<open>StoreInvariant\<close> gives it for every method, on success and on
  failure.
\<close>

section \<open>The invariant\<close>

text \<open>A table with a unique key whose rows refer to a parent table.\<close>

definition child_ok :: "('r \<Rightarrow> 'k) \<Rightarrow> ('r \<Rightarrow> string) \<Rightarrow> 'r list \<Rightarrow> string set \<Rightarrow> bool" where
  "child_ok key ref rs parents \<longleftrightarrow> distinct (map key rs) \<and> ref ` set rs \<subseteq> parents"

lemma child_ok_update:
  "(\<And>r. key (f r) = key r) \<Longrightarrow> (\<And>r. ref (f r) = ref r) \<Longrightarrow> child_ok key ref rs ps \<Longrightarrow>
   child_ok key ref (sql_update P f rs) ps"
  by (auto simp: child_ok_def sql_update_map) (auto simp: sql_update_def split: if_splits)

lemma child_ok_delete: "child_ok key ref rs ps \<Longrightarrow> child_ok key ref (sql_delete P rs) ps"
  by (auto simp: child_ok_def distinct_sql_delete)

lemma child_ok_append1:
  "child_ok key ref rs ps \<Longrightarrow> key r \<notin> key ` set rs \<Longrightarrow> ref r \<in> ps \<Longrightarrow> child_ok key ref (rs @ [r]) ps"
  by (auto simp: child_ok_def)

lemma child_ok_append:
  "child_ok key ref rs ps \<Longrightarrow> child_ok key ref qs ps \<Longrightarrow> key ` set qs \<inter> key ` set rs = {} \<Longrightarrow>
   child_ok key ref (rs @ qs) ps"
  by (auto simp: child_ok_def)

lemma child_ok_more: "child_ok key ref rs ps \<Longrightarrow> ps \<subseteq> qs \<Longrightarrow> child_ok key ref rs qs"
  by (auto simp: child_ok_def)

lemma child_ok_cascade:
  "child_ok key ref rs ps \<Longrightarrow> (\<And>p. p \<in> ps \<Longrightarrow> \<not> G p \<Longrightarrow> p \<in> qs) \<Longrightarrow>
   child_ok key ref (sql_delete (\<lambda>r. G (ref r)) rs) qs"
  by (auto simp: child_ok_def distinct_sql_delete)

abbreviation channel_ids :: "db \<Rightarrow> string set" where
  "channel_ids s \<equiv> ch_ID ` set (channels s)"

abbreviation channel_key :: "channel_row \<Rightarrow> string \<times> string" where
  "channel_key c \<equiv> (ch_SourceM3UID c, ch_SourceChannelID c)"

definition value_ok :: "channel_row \<Rightarrow> bool" where
  "value_ok c \<longleftrightarrow> ch_UpstreamKind c \<in> set upstream_kinds \<and> in_int32 (ch_Position c)"

abbreviation epg_pk :: "epg_key \<Rightarrow> string \<times> string" where
  "epg_pk k \<equiv> (ek_channel_id k, ek_xmltv_channel_id k)"

abbreviation favorite_pk :: "favorite_row \<Rightarrow> string \<times> string" where
  "favorite_pk f \<equiv> (fv_user_id f, fv_channel_id f)"

abbreviation recent_pk :: "recent_row \<Rightarrow> string \<times> string" where
  "recent_pk r \<equiv> (rc_user_id r, rc_channel_id r)"

abbreviation credit_pk :: "credit_row \<Rightarrow> string \<times> string \<times> string" where
  "credit_pk r \<equiv> (cr_program_id r, cr_Kind r, cr_Name r)"

definition db_inv :: "db \<Rightarrow> bool" where
  "db_inv s \<longleftrightarrow>
     distinct (map sr_id (m3u_sources s)) \<and> distinct (map sr_id (xmltv_sources s)) \<and>
     child_ok ch_ID ch_SourceM3UID (channels s) (sr_id ` set (m3u_sources s)) \<and>
     distinct (map channel_key (channels s)) \<and> list_all value_ok (channels s) \<and>
     child_ok epg_pk ek_channel_id (channel_epg_keys s) (channel_ids s) \<and>
     child_ok favorite_pk fv_channel_id (user_favorites s) (channel_ids s) \<and>
     child_ok recent_pk rc_channel_id (user_recent s) (channel_ids s) \<and>
     child_ok ss_id ss_channel_id (stream_sessions s) (channel_ids s) \<and>
     distinct (map pr_ID (programs s)) \<and>
     child_ok credit_pk cr_program_id (program_credits s) (pr_ID ` set (programs s))"

lemma map_sql_update_same: "(\<And>r. g (f r) = g r) \<Longrightarrow> g ` set (sql_update P f rs) = g ` set rs"
  using sql_update_map [of g f P rs] by (metis set_map)

section \<open>Statement by statement\<close>

subsection \<open>Sessions\<close>

lemma inv_insert_session: "insert_session r now s = (Inr a, s') \<Longrightarrow> db_inv s \<Longrightarrow> db_inv s'"
  by (clarsimp simp: insert_session_def split: if_splits) (auto simp: db_inv_def intro!: child_ok_append1)

lemma inv_sessions_update:
  "(\<And>r. ss_id (f r) = ss_id r) \<Longrightarrow> (\<And>r. ss_channel_id (f r) = ss_channel_id r) \<Longrightarrow> db_inv s \<Longrightarrow>
   db_inv (s\<lparr>stream_sessions := sql_update P f (stream_sessions s)\<rparr>)"
  by (simp add: db_inv_def child_ok_update)

lemma inv_touch_session: "touch_session sid t n now s = (Inr b, s') \<Longrightarrow> db_inv s \<Longrightarrow> db_inv s'"
  by (auto simp: touch_session_def Let_def split: if_splits intro!: inv_sessions_update)

lemma inv_end_session: "end_session sid reason now s = (Inr a, s') \<Longrightarrow> db_inv s \<Longrightarrow> db_inv s'"
  by (auto simp: end_session_def intro!: inv_sessions_update)

lemma inv_reap_idle: "reap_idle cutoff now s = (Inr c, s') \<Longrightarrow> db_inv s \<Longrightarrow> db_inv s'"
  by (auto simp: reap_idle_def intro!: inv_sessions_update)

subsection \<open>Channels\<close>

lemma inv_channels_update:
  assumes "\<And>r. ch_ID (f r) = ch_ID r" "\<And>r. channel_key (f r) = channel_key r"
    "\<And>r. P r \<Longrightarrow> value_ok r \<Longrightarrow> value_ok (f r)" "db_inv s"
  shows "db_inv (s\<lparr>channels := sql_update P f (channels s)\<rparr>)"
proof -
  have "map channel_key (sql_update P f (channels s)) = map channel_key (channels s)"
    using assms(2) by (rule sql_update_map)
  moreover have "list_all value_ok (sql_update P f (channels s))"
    using assms(3,4) by (auto simp: db_inv_def sql_update_def list_all_iff)
  ultimately show ?thesis
    using assms by (simp add: db_inv_def child_ok_update map_sql_update_same)
qed

lemma inv_upsert_channel: "upsert_channel cid c kind now s = (Inr d, s') \<Longrightarrow> db_inv s \<Longrightarrow> db_inv s'"
proof -
  let ?same = "\<lambda>r. ch_SourceM3UID r = ch_SourceM3UID c \<and> ch_SourceChannelID r = ch_SourceChannelID c"
  assume u: "upsert_channel cid c kind now s = (Inr d, s')" and i: "db_inv s"
  show "db_inv s'"
  proof (cases "find ?same (channels s)")
    case (Some r)
    with u i show ?thesis
      by (auto simp: upsert_channel_def Let_def value_ok_def split: if_splits intro!: inv_channels_update)
  next
    case None
    then have n: "(ch_SourceM3UID c, ch_SourceChannelID c) \<notin> channel_key ` set (channels s)"
      by (auto simp: find_None_iff)
    define r where "r = last (channels s')"
    from None u have r: "s' = s\<lparr>channels := channels s @ [r]\<rparr>" "ch_ID r \<notin> channel_ids s"
      "channel_key r = (ch_SourceM3UID c, ch_SourceChannelID c)"
      "ch_SourceM3UID r \<in> sr_id ` set (m3u_sources s)" "value_ok r"
      by (auto simp: r_def upsert_channel_def Let_def value_ok_def in_int32_def split: if_splits)
    show ?thesis
      using i n r unfolding db_inv_def
      by (simp add: child_ok_append1 child_ok_more [OF _ subset_insertI])
  qed
qed

lemma inv_mark_missing: "mark_missing sid seen now s = (Inr a, s') \<Longrightarrow> db_inv s \<Longrightarrow> db_inv s'"
  by (auto simp: mark_missing_def value_ok_def intro!: inv_channels_update)

lemma inv_set_kind: "set_kind cid kind now s = (Inr b, s') \<Longrightarrow> db_inv s \<Longrightarrow> db_inv s'"
proof -
  assume k: "set_kind cid kind now s = (Inr b, s')" and i: "db_inv s"
  show "db_inv s'"
  proof (cases "kind \<in> set upstream_kinds")
    case True
    with k i show ?thesis
      by (auto simp: set_kind_def update_channel_def value_ok_def intro!: inv_channels_update)
  next
    case False
    with k have "\<forall>r \<in> set (channels s). \<not> ch_ID r = cid"
      by (auto simp: set_kind_def split: if_splits)
    then have "sql_update (\<lambda>r. ch_ID r = cid) f (channels s) = channels s" for f
      by (simp add: sql_update_def map_idI)
    with False k i show ?thesis by (auto simp: set_kind_def update_channel_def split: if_splits)
  qed
qed

lemma patch_apply_keys:
  "ch_ID (patch_apply p r) = ch_ID r" "ch_SourceM3UID (patch_apply p r) = ch_SourceM3UID r"
  "ch_SourceChannelID (patch_apply p r) = ch_SourceChannelID r"
  "ch_UpstreamKind (patch_apply p r) = ch_UpstreamKind r"
  "ch_Position (patch_apply p r) =
     (case cp_Position p of None \<Rightarrow> ch_Position r | Some None \<Rightarrow> 0 | Some (Some i) \<Rightarrow> i)"
  by (simp_all add: patch_apply_def Let_def split: option.splits)

lemma inv_patch_channel: "patch_channel cid p now s = (Inr b, s') \<Longrightarrow> db_inv s \<Longrightarrow> db_inv s'"
proof -
  assume p: "patch_channel cid p now s = (Inr b, s')" and i: "db_inv s"
  then have "value_ok r \<Longrightarrow> value_ok (patch_apply p r)" for r
    by (auto simp: patch_channel_def patch_in_range_def value_ok_def patch_apply_keys in_int32_def
        split: if_splits option.splits)
  with p i show ?thesis
    by (auto simp: patch_channel_def update_channel_def patch_apply_keys split: if_splits
        intro!: inv_channels_update)
qed

subsection \<open>EPG keys\<close>

lemma inv_add_epg_key: "add_epg_key cid xid auto now s = (Inr a, s') \<Longrightarrow> db_inv s \<Longrightarrow> db_inv s'"
  by (clarsimp simp: add_epg_key_def Let_def split: if_splits)
    (auto simp: db_inv_def list_ex_iff intro!: child_ok_append1 child_ok_update)

lemma inv_remove_epg_key: "remove_epg_key cid xid now s = (Inr a, s') \<Longrightarrow> db_inv s \<Longrightarrow> db_inv s'"
  by (clarsimp simp: remove_epg_key_def) (auto simp: db_inv_def intro: child_ok_delete)

lemma inv_auto_link: "auto_link xid now s = (Inr a, s') \<Longrightarrow> db_inv s \<Longrightarrow> db_inv s'"
proof -
  assume l: "auto_link xid now s = (Inr a, s')" and i: "db_inv s"
  let ?fresh = "filter (\<lambda>c. \<not> list_ex (\<lambda>k. ek_channel_id k = ch_ID c \<and> ek_xmltv_channel_id k = xid)
      (channel_epg_keys s)) (filter (\<lambda>c. ch_SourceChannelID c = xid) (channels s))"
  let ?new = "map (\<lambda>c. \<lparr>ek_channel_id = ch_ID c, ek_xmltv_channel_id = xid, ek_auto_linked = True\<rparr>) ?fresh"
  have "distinct (map ch_ID (channels s))" using i by (simp add: db_inv_def child_ok_def)
  then have "distinct (map ch_ID ?fresh)" by (simp only: distinct_map_filter)
  then have "child_ok epg_pk ek_channel_id ?new (channel_ids s)"
    by (auto simp: child_ok_def distinct_map inj_on_def)
  moreover have "epg_pk ` set ?new \<inter> epg_pk ` set (channel_epg_keys s) = {}"
    by (auto simp: list_ex_iff)
  ultimately have "child_ok epg_pk ek_channel_id (channel_epg_keys s @ ?new) (channel_ids s)"
    using i by (intro child_ok_append) (simp_all add: db_inv_def)
  moreover have "s' = s\<lparr>channel_epg_keys := channel_epg_keys s @ ?new\<rparr>"
    using l by (simp add: auto_link_def Let_def)
  ultimately show ?thesis using i by (simp add: db_inv_def)
qed

subsection \<open>Sources and settings\<close>

lemma inv_m3u_update:
  "(\<And>r. sr_id (f r) = sr_id r) \<Longrightarrow> db_inv s \<Longrightarrow> update_m3u sid f now s = (Inr b, s') \<Longrightarrow> db_inv s'"
  by (clarsimp simp: update_m3u_def) (simp add: db_inv_def sql_update_map map_sql_update_same)

lemma inv_xmltv_update:
  "(\<And>r. sr_id (f r) = sr_id r) \<Longrightarrow> db_inv s \<Longrightarrow> update_xmltv sid f now s = (Inr b, s') \<Longrightarrow> db_inv s'"
  by (clarsimp simp: update_xmltv_def) (simp add: db_inv_def sql_update_map)

lemma set_parts_id [simp]: "sr_id (set_config x r) = sr_id r" "sr_id (set_status t st et lm r) = sr_id r"
  by (simp_all add: set_config_def set_status_def)

lemma inv_insert_m3u: "insert_m3u r now s = (Inr a, s') \<Longrightarrow> db_inv s \<Longrightarrow> db_inv s'"
  by (clarsimp simp: insert_m3u_def split: if_splits)
    (simp add: db_inv_def child_ok_more [OF _ subset_insertI])

lemma inv_insert_xmltv: "insert_xmltv r now s = (Inr a, s') \<Longrightarrow> db_inv s \<Longrightarrow> db_inv s'"
  by (clarsimp simp: insert_xmltv_def split: if_splits) (simp add: db_inv_def)

lemma inv_delete_xmltv: "delete_xmltv sid now s = (Inr b, s') \<Longrightarrow> db_inv s \<Longrightarrow> db_inv s'"
  by (clarsimp simp: delete_xmltv_def) (simp add: db_inv_def distinct_sql_delete)

text \<open>Deleting a source takes its channels along, and those everything that refers to them.\<close>

lemma inv_delete_m3u: "delete_m3u sid now s = (Inr b, s') \<Longrightarrow> db_inv s \<Longrightarrow> db_inv s'"
proof -
  assume d: "delete_m3u sid now s = (Inr b, s')" and i: "db_inv s"
  let ?gone = "ch_ID ` set (filter (\<lambda>c. ch_SourceM3UID c = sid) (channels s))"
  let ?left = "ch_ID ` {c \<in> set (channels s). ch_SourceM3UID c \<noteq> sid}"
  have left: "p \<in> channel_ids s \<Longrightarrow> p \<notin> ?gone \<Longrightarrow> p \<in> ?left" for p by auto
  show ?thesis
  proof (cases "sid \<in> sr_id ` set (m3u_sources s)")
    case True
    with d have s': "s' = s\<lparr>m3u_sources := sql_delete (\<lambda>r. sr_id r = sid) (m3u_sources s),
          channels := sql_delete (\<lambda>c. ch_SourceM3UID c = sid) (channels s),
          channel_epg_keys := sql_delete (\<lambda>k. ek_channel_id k \<in> ?gone) (channel_epg_keys s),
          user_favorites := sql_delete (\<lambda>f. fv_channel_id f \<in> ?gone) (user_favorites s),
          user_recent := sql_delete (\<lambda>r. rc_channel_id r \<in> ?gone) (user_recent s),
          stream_sessions := sql_delete (\<lambda>x. ss_channel_id x \<in> ?gone) (stream_sessions s)\<rparr>"
      by (simp add: delete_m3u_def Let_def)
    have v: "list_all value_ok (sql_delete P (channels s))" for P
      using i by (auto simp: db_inv_def list_all_iff)
    note c = child_ok_cascade [where G = "\<lambda>p. p \<in> ?gone" and ps = "channel_ids s", OF _ left]
    have c0: "child_ok ch_ID ch_SourceM3UID (sql_delete (\<lambda>c. ch_SourceM3UID c = sid) (channels s))
        (sr_id ` {r \<in> set (m3u_sources s). sr_id r \<noteq> sid})"
    proof (rule child_ok_cascade [where G = "\<lambda>p. p = sid" and ps = "sr_id ` set (m3u_sources s)"])
      show "child_ok ch_ID ch_SourceM3UID (channels s) (sr_id ` set (m3u_sources s))"
        using i unfolding db_inv_def by blast
    qed auto
    show ?thesis
      using i unfolding s' db_inv_def
      by (simp add: distinct_sql_delete v c [simplified] c0)
  next
    case False
    with d i show ?thesis by (simp add: delete_m3u_def Let_def)
  qed
qed

lemma inv_update_settings: "update_settings v now s = (Inr a, s') \<Longrightarrow> db_inv s \<Longrightarrow> db_inv s'"
  by (clarsimp simp: update_settings_def split: if_splits) (simp add: db_inv_def)

subsection \<open>Programmes, favourites, recents\<close>

lemma inv_delete_programs: "db_inv s \<Longrightarrow> db_inv (delete_programs P s)"
proof -
  assume i: "db_inv s"
  let ?gone = "pr_ID ` set (filter P (programs s))"
  have left: "p \<in> pr_ID ` set (programs s) \<Longrightarrow> p \<notin> ?gone \<Longrightarrow> p \<in> pr_ID ` {r \<in> set (programs s). \<not> P r}" for p
    by auto
  note c = child_ok_cascade [where G = "\<lambda>p. p \<in> ?gone" and ps = "pr_ID ` set (programs s)", OF _ left]
  show ?thesis
    using i unfolding delete_programs_def Let_def db_inv_def
    by (simp add: distinct_sql_delete c [simplified])
qed

lemma inv_copy_programs: "copy_programs rs s = Inr s' \<Longrightarrow> db_inv s \<Longrightarrow> db_inv s'"
proof -
  assume c: "copy_programs rs s = Inr s'" and i: "db_inv s"
  then have s': "s' = s\<lparr>programs := programs s @ rs\<rparr>" and d: "distinct (map pr_ID rs)"
    "pr_ID ` set rs \<inter> pr_ID ` set (programs s) = {}"
    by (auto simp: copy_programs_def split: if_splits)
  have "child_ok credit_pk cr_program_id (program_credits s) (pr_ID ` set (programs s) \<union> pr_ID ` set rs)"
    by (rule child_ok_more [where ps = "pr_ID ` set (programs s)"]) (use i in \<open>simp_all add: db_inv_def\<close>)
  moreover have "distinct (map pr_ID (programs s @ rs))"
    using i d by (auto simp: db_inv_def)
  ultimately show ?thesis
    using i by (simp add: s' db_inv_def image_Un)
qed

lemma inv_insert_credits: "insert_credits pid cs now s = (Inr a, s') \<Longrightarrow> db_inv s \<Longrightarrow> db_inv s'"
proof -
  assume c: "insert_credits pid cs now s = (Inr a, s')" and i: "db_inv s"
  let ?rs = "map (\<lambda>c. Credit.extend c \<lparr>cr_program_id = pid\<rparr>) cs"
  from c have s': "s' = s\<lparr>program_credits := program_credits s @ ?rs\<rparr>"
    and r: "pid \<in> pr_ID ` set (programs s)" "distinct (map credit_pk ?rs)"
      "credit_pk ` set ?rs \<inter> credit_pk ` set (program_credits s) = {}"
    by (auto simp: insert_credits_def Let_def split: if_splits)
  have "child_ok credit_pk cr_program_id ?rs (pr_ID ` set (programs s))"
    using r by (auto simp: child_ok_def Credit.defs)
  then have "child_ok credit_pk cr_program_id (program_credits s @ ?rs) (pr_ID ` set (programs s))"
    using i r(3) by (intro child_ok_append) (simp_all add: db_inv_def)
  with i show ?thesis by (simp add: s' db_inv_def)
qed

lemma inv_add_favorite: "add_favorite uid cid now s = (Inr a, s') \<Longrightarrow> db_inv s \<Longrightarrow> db_inv s'"
  by (clarsimp simp: add_favorite_def split: if_splits)
    (auto simp: db_inv_def list_ex_iff intro!: child_ok_append1)

lemma inv_remove_favorite: "remove_favorite uid cid now s = (Inr a, s') \<Longrightarrow> db_inv s \<Longrightarrow> db_inv s'"
  by (clarsimp simp: remove_favorite_def) (auto simp: db_inv_def intro: child_ok_delete)

lemma inv_reorder_favorites: "reorder_favorites uid ids now s = (Inr a, s') \<Longrightarrow> db_inv s \<Longrightarrow> db_inv s'"
  by (clarsimp simp: reorder_favorites_def) (auto simp: db_inv_def intro!: child_ok_update)

lemma inv_mark_tuned: "mark_tuned uid cid now s = (Inr a, s') \<Longrightarrow> db_inv s \<Longrightarrow> db_inv s'"
  by (clarsimp simp: mark_tuned_def Let_def split: if_splits)
    (auto simp: db_inv_def list_ex_iff intro!: child_ok_append1 child_ok_update)

section \<open>The invariant as a relation every method respects\<close>

interpretation integrity: db_relation "\<lambda>s s'. db_inv s \<longrightarrow> db_inv s'" "\<lambda>_. True"
proof (unfold_locales, goal_cases)
  case (23 sid src now s b s')
  show ?case by (rule impI, rule inv_m3u_update [OF _ _ 23]) simp_all
next
  case (6 sid t st et lm now s b s')
  show ?case by (rule impI, rule inv_m3u_update [OF _ _ 6]) simp_all
next
  case (26 sid g xsrc now s b s')
  show ?case by (rule impI, rule inv_xmltv_update [OF _ _ 26]) simp_all
next
  case (7 sid t st et lm now s b s')
  show ?case by (rule impI, rule inv_xmltv_update [OF _ _ 7]) simp_all
next
  case (2 s1 s2 s3) then show ?case by blast
qed (intro impI, (assumption | erule inv_delete_programs | erule (1) inv_insert_session inv_touch_session
  inv_end_session inv_reap_idle inv_upsert_channel inv_mark_missing inv_set_kind inv_patch_channel
  inv_add_epg_key inv_remove_epg_key inv_auto_link inv_insert_m3u inv_delete_m3u inv_insert_xmltv
  inv_delete_xmltv inv_update_settings inv_copy_programs inv_insert_credits inv_add_favorite
  inv_remove_favorite inv_reorder_favorites inv_mark_tuned))+

section \<open>Revocation is permanent\<close>

text \<open>No active session has the identifier.\<close>

definition revoked :: "string \<Rightarrow> db \<Rightarrow> bool" where
  "revoked i s \<longleftrightarrow> list_all (\<lambda>r. ss_id r = i \<longrightarrow> \<not> active r) (stream_sessions s)"

lemma revoked_update:
  "(\<And>r. ss_id (f r) = ss_id r) \<Longrightarrow> (\<And>r. active (f r) \<Longrightarrow> active r) \<Longrightarrow>
   revoked i s \<Longrightarrow> revoked i (s\<lparr>stream_sessions := sql_update P f (stream_sessions s)\<rparr>)"
  by (auto simp: revoked_def sql_update_def list_all_iff)

lemma revoked_same: "stream_sessions s' = stream_sessions s \<Longrightarrow> revoked i s \<longrightarrow> revoked i s'"
  by (simp add: revoked_def)

lemma same_sessions:
  "upsert_channel cid ch kind now s = (Inr d, s') \<Longrightarrow> stream_sessions s' = stream_sessions s"
  "mark_missing sid seen now s = (Inr a, s') \<Longrightarrow> stream_sessions s' = stream_sessions s"
  "set_kind cid kind now s = (Inr b, s') \<Longrightarrow> stream_sessions s' = stream_sessions s"
  "patch_channel cid p now s = (Inr b, s') \<Longrightarrow> stream_sessions s' = stream_sessions s"
  "add_epg_key cid xid auto now s = (Inr a, s') \<Longrightarrow> stream_sessions s' = stream_sessions s"
  "remove_epg_key cid xid now s = (Inr a, s') \<Longrightarrow> stream_sessions s' = stream_sessions s"
  "auto_link xid now s = (Inr a, s') \<Longrightarrow> stream_sessions s' = stream_sessions s"
  "insert_m3u row now s = (Inr a, s') \<Longrightarrow> stream_sessions s' = stream_sessions s"
  "update_m3u sid f now s = (Inr b, s') \<Longrightarrow> stream_sessions s' = stream_sessions s"
  "insert_xmltv xrow now s = (Inr a, s') \<Longrightarrow> stream_sessions s' = stream_sessions s"
  "update_xmltv sid g now s = (Inr b, s') \<Longrightarrow> stream_sessions s' = stream_sessions s"
  "delete_xmltv sid now s = (Inr b, s') \<Longrightarrow> stream_sessions s' = stream_sessions s"
  "update_settings v now s = (Inr a, s') \<Longrightarrow> stream_sessions s' = stream_sessions s"
  "copy_programs rs s = Inr s' \<Longrightarrow> stream_sessions s' = stream_sessions s"
  "insert_credits pid cs now s = (Inr a, s') \<Longrightarrow> stream_sessions s' = stream_sessions s"
  "add_favorite uid cid now s = (Inr a, s') \<Longrightarrow> stream_sessions s' = stream_sessions s"
  "remove_favorite uid cid now s = (Inr a, s') \<Longrightarrow> stream_sessions s' = stream_sessions s"
  "reorder_favorites uid ids now s = (Inr a, s') \<Longrightarrow> stream_sessions s' = stream_sessions s"
  "mark_tuned uid cid now s = (Inr a, s') \<Longrightarrow> stream_sessions s' = stream_sessions s"
  by (auto simp: upsert_channel_def mark_missing_def set_kind_def patch_channel_def update_channel_def
      add_epg_key_def remove_epg_key_def auto_link_def insert_m3u_def update_m3u_def insert_xmltv_def
      update_xmltv_def delete_xmltv_def update_settings_def copy_programs_def insert_credits_def
      add_favorite_def remove_favorite_def reorder_favorites_def mark_tuned_def Let_def
      split: if_splits option.splits)

lemma same_sessions_delete: "stream_sessions (delete_programs P s) = stream_sessions s"
  by (simp add: delete_programs_def Let_def)

interpretation revocation: db_relation "\<lambda>s s'. revoked i s \<longrightarrow> revoked i s'" "\<lambda>x. x \<noteq> i" for i
proof (unfold_locales, goal_cases)
  case (1 s) show ?case by simp
next
  case (2 s1 s2 s3) then show ?case by blast
next
  case (13 r now s a s') then show ?case
    by (auto simp: insert_session_def revoked_def split: if_splits)
next
  case (10 sid t n now s b s') then show ?case
    by (auto simp: touch_session_def Let_def active_def split: if_splits intro!: revoked_update)
next
  case (11 sid reason now s a s') then show ?case
    by (auto simp: end_session_def active_def intro!: revoked_update)
next
  case (18 cutoff now s c s') then show ?case
    by (auto simp: reap_idle_def active_def intro!: revoked_update)
next
  case (24 sid now s b s') then show ?case
    by (auto simp: delete_m3u_def Let_def revoked_def list_all_iff split: if_splits)
qed (rule revoked_same, rule same_sessions_delete | (rule revoked_same, erule same_sessions))+

section \<open>Any sequence of calls\<close>

datatype store_op =
    opCreateSession Session
  | opUpdateSessionLastByte string time int
  | opEndSession string string
  | opReapIdle duration
  | opUpsertChannel channel_row
  | opMarkChannelsMissing string "string list"
  | opSetUpstreamKind string string
  | opAdminPatchChannel string ChannelPatch
  | opAddEPGKey string string bool
  | opRemoveEPGKey string string
  | opCreateM3USource M3USource
  | opUpdateM3USource M3USource
  | opDeleteM3USource string
  | opMarkM3UStatus string string string string time
  | opCreateXMLTVSource XMLTVSource
  | opUpdateXMLTVSource XMLTVSource
  | opDeleteXMLTVSource string
  | opMarkXMLTVStatus string string string string time
  | opUpdateSettings SettingsRow
  | opReplaceFuture string "Program list"
  | opPruneOldPrograms time
  | opInsertCredits string "Credit list"
  | opAddFavorite string string
  | opRemoveFavorite string string
  | opReorderFavorites string "string list"
  | opMarkTuned string string

fun exec :: "ctx \<Rightarrow> store_op \<Rightarrow> world \<Rightarrow> world" where
  "exec c (opCreateSession x) w = snd (CreateSession_row c x w)"
| "exec c (opUpdateSessionLastByte i t n) w = snd (UpdateSessionLastByte c i t n w)"
| "exec c (opEndSession i r) w = snd (EndSession c i r w)"
| "exec c (opReapIdle d) w = snd (ReapIdle c d w)"
| "exec c (opUpsertChannel r) w = snd (UpsertChannelFromM3U c r w)"
| "exec c (opMarkChannelsMissing i xs) w = snd (MarkChannelsMissing c i xs w)"
| "exec c (opSetUpstreamKind i k) w = snd (SetUpstreamKind c i k w)"
| "exec c (opAdminPatchChannel i p) w = snd (AdminPatchChannel c i p w)"
| "exec c (opAddEPGKey i x a) w = snd (AddEPGKey c i x a w)"
| "exec c (opRemoveEPGKey i x) w = snd (RemoveEPGKey c i x w)"
| "exec c (opCreateM3USource x) w = snd (CreateM3USource c x w)"
| "exec c (opUpdateM3USource x) w = snd (UpdateM3USource c x w)"
| "exec c (opDeleteM3USource i) w = snd (DeleteM3USource c i w)"
| "exec c (opMarkM3UStatus i st et lm t) w = snd (MarkM3UStatus c i st et lm t w)"
| "exec c (opCreateXMLTVSource x) w = snd (CreateXMLTVSource c x w)"
| "exec c (opUpdateXMLTVSource x) w = snd (UpdateXMLTVSource c x w)"
| "exec c (opDeleteXMLTVSource i) w = snd (DeleteXMLTVSource c i w)"
| "exec c (opMarkXMLTVStatus i st et lm t) w = snd (MarkXMLTVStatus c i st et lm t w)"
| "exec c (opUpdateSettings v) w = snd (UpdateSettings c v w)"
| "exec c (opReplaceFuture x ps) w = snd (ReplaceFutureForChannel c x ps w)"
| "exec c (opPruneOldPrograms t) w = snd (PruneOldPrograms c t w)"
| "exec c (opInsertCredits p cs) w = snd (InsertCredits c p cs w)"
| "exec c (opAddFavorite u i) w = snd (AddFavorite c u i w)"
| "exec c (opRemoveFavorite u i) w = snd (RemoveFavorite c u i w)"
| "exec c (opReorderFavorites u is) w = snd (ReorderFavorites c u is w)"
| "exec c (opMarkTuned u i) w = snd (MarkTuned c u i w)"

definition run :: "(ctx \<times> store_op) list \<Rightarrow> world \<Rightarrow> world" where
  "run ops w = foldl (\<lambda>w (c, op). exec c op w) w ops"

text \<open>The identifier a call creates a session under.\<close>

fun mints :: "store_op \<Rightarrow> world \<Rightarrow> string option" where
  "mints (opCreateSession x) w = Some (if sn_ID x = [] then ulid w (ulid_next w) else sn_ID x)"
| "mints _ w = None"

context db_relation
begin

lemma R_exec: "(\<And>i. mints op w = Some i \<Longrightarrow> mintable i) \<Longrightarrow> R (wdb w) (wdb (exec c op w))"
  by (cases op)
    (simp_all add: R_CreateSession minted_def session_to_row_def R_UpdateSessionLastByte R_EndSession R_ReapIdle
      R_UpsertChannelFromM3U R_MarkChannelsMissing R_SetUpstreamKind R_AdminPatchChannel R_AddEPGKey
      R_RemoveEPGKey R_CreateM3USource R_UpdateM3USource R_DeleteM3USource R_MarkM3UStatus
      R_CreateXMLTVSource R_UpdateXMLTVSource R_DeleteXMLTVSource R_MarkXMLTVStatus R_UpdateSettings
      R_ReplaceFuture R_PruneOldPrograms R_InsertCredits R_AddFavorite R_RemoveFavorite
      R_ReorderFavorites R_MarkTuned)

end

fun never_mints :: "string \<Rightarrow> (ctx \<times> store_op) list \<Rightarrow> world \<Rightarrow> bool" where
  "never_mints i [] w = True"
| "never_mints i ((c, op) # ops) w = (mints op w \<noteq> Some i \<and> never_mints i ops (exec c op w))"


lemma demo_inv: "db_inv demo_db"
  by (simp add: db_inv_def demo_db_def demo_row_def demo_source_def child_ok_def value_ok_def
      upstream_kinds_def in_int32_def)


text \<open>
  Property C22: revocation is permanent. Once no active session has an identifier (it was ended
  by its stream, by the reaper or by the administrator, or its channel went away), no sequence of
  store calls, failing or not, makes it active again, unless a new session is minted under the
  very same identifier.
\<close>

theorem revocation_permanent:
  assumes "revoked i (wdb w)" "never_mints i ops w"
  shows "revoked i (wdb (run ops w))"
  using assms
proof (induction ops arbitrary: w)
  case (Cons p ops)
  obtain c op where p: "p = (c, op)" by (cases p)
  have "revoked i (wdb (exec c op w))"
    using revocation.R_exec [of op w i c] Cons.prems p by auto
  from Cons.IH [OF this] Cons.prems(2) show ?case by (simp add: run_def p)
qed (simp add: run_def)

theorem revocation_permanent_witness:
  "revoked ''x'' (wdb (run [(live, opUpdateSessionLastByte ''x'' 5 10)] demo_world))"
  by (rule revocation_permanent) (simp_all add: revoked_def demo_world_def demo_db_def)

end
