(* ===== verification/HlsTokens.thy ===== *)
theory HlsTokens
  imports Json Sha256 Http
begin

text \<open>
  The tokens of \<open>src/internal/streamproxy\<close>: the session token of \<open>proxy.go\<close>
  (\<open>tokenValue\<close>, \<open>splitToken\<close>, \<open>extractToken\<close>), the signed segment links of \<open>hls.go\<close>
  (\<open>SignSegment\<close>, \<open>VerifySegment\<close>) and the playlist rewriting (\<open>RewritePlaylist\<close>). The lemmas show
  that what is issued is accepted, that what is accepted was signed under the session's secret,
  and that every link of a rewritten playlist opens to the upstream URI it replaces.
\<close>

section \<open>Session tokens\<close>

definition tokenValue :: "string \<Rightarrow> string \<Rightarrow> string" where
  "tokenValue sid secret = sid @ ''.'' @ hex_EncodeToString secret"

definition splitToken :: "string \<Rightarrow> err + (string \<times> string)" where
  "splitToken value =
     (case split2 value (CHR ''.'') of
        (_, None) \<Rightarrow> Inl (Err OtherErr ''malformed token'')
      | (a, Some b) \<Rightarrow>
          if a = [] \<or> b = [] then Inl (Err OtherErr ''malformed token'')
          else case hex_DecodeString b of
            None \<Rightarrow> Inl (Err OtherErr ''malformed token secret'')
          | Some secret \<Rightarrow> Inr (a, secret))"

definition cookieName :: string where
  "cookieName = ''livetv_stream''"

definition extractToken :: "request \<Rightarrow> string option" where
  "extractToken r =
     (let c = (case map_of (rq_Cookies r) cookieName of None \<Rightarrow> [] | Some v \<Rightarrow> v);
          h = hdr_Get ''Authorization'' (rq_Header r);
          v = trim_space (trim_prefix h ''Bearer '');
          q = Query r ''token''
      in if c \<noteq> [] then Some c
         else if has_prefix h ''Bearer '' \<and> v \<noteq> [] then Some v
         else if q \<noteq> [] then Some q
         else None)"

section \<open>Segment tokens\<close>

definition unix :: "time \<Rightarrow> int" where
  "unix t = t div ns_per_sec"

text \<open>\<open>segmentPayload\<close> as \<open>json.Marshal\<close> writes it.\<close>

definition segment_payload :: "string \<Rightarrow> int \<Rightarrow> json" where
  "segment_payload uri exp = JObj [(''u'', JStr uri), (''e'', JNum (itoa exp))]"

definition SignSegment :: "string \<Rightarrow> string \<Rightarrow> time \<Rightarrow> string" where
  "SignSegment secret uri expires =
     (let pb = b64_EncodeToString (json_enc (segment_payload uri (unix expires)))
      in pb @ ''.'' @ b64_EncodeToString (hmac_sha256 secret pb))"

definition VerifySegment :: "time \<Rightarrow> string \<Rightarrow> string \<Rightarrow> err + string" where
  "VerifySegment now secret token =
     (case split2 token (CHR ''.'') of
        (_, None) \<Rightarrow> Inl (Err OtherErr ''malformed segment token'')
      | (pb, Some sig) \<Rightarrow>
          if b64_EncodeToString (hmac_sha256 secret pb) \<noteq> sig then
            Inl (Err OtherErr ''bad segment signature'')
          else case b64_DecodeString pb of
            None \<Rightarrow> Inl (Err OtherErr ''decode segment payload: illegal base64 data'')
          | Some raw \<Rightarrow>
              (case json_Unmarshal raw of
                 Some (JObj kvs) \<Rightarrow>
                   (case (get_str ''u'' kvs, get_int ''e'' kvs) of
                      (Some uri, Some exp) \<Rightarrow>
                        if unix now > exp then Inl (Err OtherErr ''segment token expired'') else Inr uri
                    | _ \<Rightarrow> Inl (Err OtherErr ''decode segment payload json: cannot unmarshal field''))
               | Some JNull \<Rightarrow>
                   if unix now > 0 then Inl (Err OtherErr ''segment token expired'') else Inr []
               | _ \<Rightarrow> Inl (Err OtherErr ''decode segment payload json: invalid value'')))"

section \<open>Playlist rewriting\<close>

definition absolute_uri :: "url option \<Rightarrow> string \<Rightarrow> string" where
  "absolute_uri base uri =
     (case base of
        None \<Rightarrow> uri
      | Some u \<Rightarrow> (case url_Parse uri of Inl _ \<Rightarrow> uri | Inr ref \<Rightarrow> url_String (ResolveReference u ref)))"

definition rewrite_line :: "url option \<Rightarrow> string \<Rightarrow> string \<Rightarrow> time \<Rightarrow> string \<Rightarrow> string \<Rightarrow> string" where
  "rewrite_line base sid secret exp tok line =
     (let trimmed = trim_space line in
      if trimmed = [] \<or> has_prefix trimmed ''#'' then line
      else
        let token = SignSegment secret (absolute_uri base trimmed) exp
        in sid @ ''/segment?u='' @ QueryEscape token @ ''&token='' @ tok)"

definition RewritePlaylist ::
  "time \<Rightarrow> string \<Rightarrow> url option \<Rightarrow> string \<Rightarrow> string \<Rightarrow> duration \<Rightarrow> string \<Rightarrow> err + string" where
  "RewritePlaylist now body base sid secret ttl tok =
     (let (ls, too_long) = scan_lines max_token body in
      if too_long then Inl (Err OtherErr ''scan playlist: bufio.Scanner: token too long'')
      else Inr (unlines (map (rewrite_line base sid secret (now + ttl) tok) ls)))"

section \<open>Issued tokens are accepted\<close>

lemma split_tokenValue:
  assumes "sid \<noteq> []" "CHR ''.'' \<notin> set sid" "secret \<noteq> []"
  shows "splitToken (tokenValue sid secret) = Inr (sid, secret)"
proof -
  have "split2 (sid @ CHR ''.'' # hex_EncodeToString secret) (CHR ''.'') = (sid, Some (hex_EncodeToString secret))"
    by (rule split2_append [OF assms(2)])
  then show ?thesis using assms by (simp add: splitToken_def tokenValue_def hex_roundtrip)
qed

lemma splitToken_Inr:
  "splitToken v = Inr (sid, secret) \<Longrightarrow>
   \<exists>h. v = sid @ ''.'' @ h \<and> CHR ''.'' \<notin> set sid \<and> sid \<noteq> [] \<and> h \<noteq> [] \<and> hex_DecodeString h = Some secret"
  by (auto simp: splitToken_def split: prod.splits option.splits if_splits dest!: split2_Some)

lemma b64_no_dot: "CHR ''.'' \<notin> set (b64_EncodeToString s)"
  using b64_chars [of s] is_b64_plain by (auto simp: list_all_iff)

lemma payload_fields:
  assumes "in_int64 e"
  shows "get_str ''u'' [(''u'', JStr uri), (''e'', JNum (itoa e))] = Some uri"
    "get_int ''e'' [(''u'', JStr uri), (''e'', JNum (itoa e))] = Some e"
  using assms
  by (simp_all add: get_int_def get_str_def jfields_def set_int_def set_str_def atoi_itoa
      lower_char_def is_upper_def)

lemma payload_roundtrip:
  assumes "utf8_valid uri"
  shows "json_Unmarshal (json_enc (segment_payload uri e)) =
    Some (JObj [(''u'', JStr uri), (''e'', JNum (itoa e))])"
proof -
  have "utf8_valid ''u''" "utf8_valid ''e''"
    by (rule utf8_valid_ascii; simp add: is_ascii_def)+
  then have "json_wf (segment_payload uri e)" using assms by (auto simp: segment_payload_def)
  from json_roundtrip [OF this] show ?thesis by (simp add: segment_payload_def)
qed

text \<open>Verification of a token whose parts are known.\<close>

lemma VerifySegment_parts:
  assumes "CHR ''.'' \<notin> set pb"
  shows "VerifySegment now secret (pb @ ''.'' @ sig) =
    (if b64_EncodeToString (hmac_sha256 secret pb) \<noteq> sig then Inl (Err OtherErr ''bad segment signature'')
     else VerifySegment now secret (pb @ ''.'' @ b64_EncodeToString (hmac_sha256 secret pb)))"
  using split2_append [OF assms] by (simp add: VerifySegment_def)

lemma verify_signed:
  assumes "utf8_valid uri" "in_int64 (unix expires)"
  shows "VerifySegment now secret (SignSegment secret uri expires) =
    (if unix now > unix expires then Inl (Err OtherErr ''segment token expired'') else Inr uri)"
proof -
  let ?pb = "b64_EncodeToString (json_enc (segment_payload uri (unix expires)))"
  have "split2 (SignSegment secret uri expires) (CHR ''.'') = (?pb, Some (b64_EncodeToString (hmac_sha256 secret ?pb)))"
    by (simp add: SignSegment_def Let_def split2_append [OF b64_no_dot])
  then show ?thesis
    by (simp add: VerifySegment_def b64_roundtrip payload_roundtrip [OF assms(1)] payload_fields [OF assms(2)])
qed

section \<open>What is accepted was signed\<close>

text \<open>Specification: the URI and the expiry a payload stands for.\<close>

definition payload_of :: "string \<Rightarrow> (string \<times> int) option" where
  "payload_of pb =
     (case Option.bind (b64_DecodeString pb) json_Unmarshal of
        Some (JObj kvs) \<Rightarrow>
          (case (get_str ''u'' kvs, get_int ''e'' kvs) of (Some u, Some e) \<Rightarrow> Some (u, e) | _ \<Rightarrow> None)
      | Some JNull \<Rightarrow> Some ([], 0)
      | _ \<Rightarrow> None)"

definition signed_with :: "string \<Rightarrow> string \<Rightarrow> string" where
  "signed_with secret pb = pb @ ''.'' @ b64_EncodeToString (hmac_sha256 secret pb)"

lemma verify_signed_with:
  assumes "CHR ''.'' \<notin> set pb"
  shows "VerifySegment now secret (signed_with secret pb) = Inr uri \<longleftrightarrow>
    (\<exists>e. payload_of pb = Some (uri, e) \<and> unix now \<le> e)"
proof -
  have "split2 (signed_with secret pb) (CHR ''.'') = (pb, Some (b64_EncodeToString (hmac_sha256 secret pb)))"
    using split2_append [OF assms] by (simp add: signed_with_def)
  then show ?thesis
    by (auto simp: VerifySegment_def payload_of_def split: option.splits json.splits)
qed

lemma verify_Inr_signed:
  assumes "VerifySegment now secret token = Inr uri"
  shows "\<exists>pb. token = signed_with secret pb \<and> CHR ''.'' \<notin> set pb"
proof -
  obtain pb sig where s: "split2 token (CHR ''.'') = (pb, Some sig)"
    using assms by (auto simp: VerifySegment_def split: prod.splits option.splits)
  then have "sig = b64_EncodeToString (hmac_sha256 secret pb)"
    using assms by (auto simp: VerifySegment_def split: if_splits)
  with split2_Some [OF s] show ?thesis by (auto simp: signed_with_def)
qed

text \<open>
  Property C23: the segment endpoint accepts exactly what was signed. A token opens to a URI
  iff it is a payload followed by the HMAC-SHA256 of that payload under the secret of this
  very session, the payload decodes to that URI, and its expiry has not passed.
\<close>

theorem segment_authentic:
  "VerifySegment now secret token = Inr uri \<longleftrightarrow>
   (\<exists>pb e. token = signed_with secret pb \<and> CHR ''.'' \<notin> set pb \<and>
      payload_of pb = Some (uri, e) \<and> unix now \<le> e)"
  using verify_Inr_signed verify_signed_with by blast

section \<open>Rewritten links open\<close>

lemma split_all_single: "c \<notin> set a \<Longrightarrow> split_all a c = [a]"
  by (induction a) auto

lemma split_all_append: "c \<notin> set a \<Longrightarrow> split_all (a @ c # b) c = a # split_all b c"
  by (induction a) auto

definition url_plain :: "char \<Rightarrow> bool" where
  "url_plain c \<longleftrightarrow> is_b64 c \<or> c = CHR ''.''"

lemma url_plain_escape: "list_all url_plain s \<Longrightarrow> QueryEscape s = s"
proof (induction s)
  case (Cons c s)
  then have "\<not> shouldEscape c encQuery" "c \<noteq> CHR '' ''"
    by (auto simp: url_plain_def is_b64_def shouldEscape_def alnum_def is_digit_def is_upper_def is_lower_def)
  with Cons show ?case by (simp add: QueryEscape_def escape_Cons)
qed (simp add: QueryEscape_def)

lemma url_plain_unescape: "list_all url_plain s \<Longrightarrow> unescape s encQuery = Inr s"
  using url_plain_escape [of s] unescape_QueryEscape [of s] by simp

lemma url_plain_sep:
  "list_all url_plain s \<Longrightarrow> CHR ''&'' \<notin> set s \<and> CHR '';'' \<notin> set s \<and> CHR ''='' \<notin> set s"
  by (auto simp: list_all_iff url_plain_def is_b64_def is_digit_def is_upper_def is_lower_def)

lemma link_query:
  assumes "list_all url_plain t" "list_all url_plain k"
  shows "ParseQuery (''u='' @ t @ ''&token='' @ k) = [(''u'', t), (''token'', k)]"
proof -
  have "list_all url_plain ''u''" "list_all url_plain ''token''"
    by (simp_all add: url_plain_def is_b64_def is_lower_def)
  note plain = url_plain_unescape [OF this(1)] url_plain_unescape [OF this(2)]
    url_plain_unescape [OF assms(1)] url_plain_unescape [OF assms(2)]
  have "split_all ((''u='' @ t) @ CHR ''&'' # ''token='' @ k) (CHR ''&'') = [''u='' @ t, ''token='' @ k]"
    using url_plain_sep [OF assms(1)] url_plain_sep [OF assms(2)]
    by (subst split_all_append) (simp_all add: split_all_single del: split_all.simps)
  moreover have "cut (''u'' @ CHR ''='' # t) (CHR ''='') = (''u'', t)"
    by (simp only: cut_def split2_append) (subst split2_append, simp_all)
  moreover have "cut (''token'' @ CHR ''='' # k) (CHR ''='') = (''token'', k)"
    by (simp only: cut_def split2_append) (subst split2_append, simp_all)
  ultimately show ?thesis
    using url_plain_sep [OF assms(1)] url_plain_sep [OF assms(2)] plain
    by (simp add: ParseQuery_def query_pair_def map_filter_def)
qed

lemma b64_plain: "list_all url_plain (b64_EncodeToString s)"
  using b64_chars [of s] by (auto simp: list_all_iff url_plain_def)

lemma SignSegment_plain: "list_all url_plain (SignSegment secret uri e)"
  by (simp add: SignSegment_def Let_def b64_plain url_plain_def)

lemma tokenValue_plain: "list_all alnum sid \<Longrightarrow> list_all url_plain (tokenValue sid secret)"
  using hex_chars [of secret]
  by (auto simp: tokenValue_def list_all_iff url_plain_def is_b64_def alnum_def is_hexc_def
      is_digit_def is_upper_def is_lower_def)

definition is_comment :: "string \<Rightarrow> bool" where
  "is_comment l \<longleftrightarrow> trim_space l = [] \<or> has_prefix (trim_space l) ''#''"

text \<open>Specification of one output line: at any time up to the expiry, its query opens to the
  upstream URI and carries the session's own token.\<close>

definition link_opens :: "time \<Rightarrow> url option \<Rightarrow> string \<Rightarrow> string \<Rightarrow> string \<Rightarrow> string \<Rightarrow> bool" where
  "link_opens t base sid secret l out \<longleftrightarrow>
     (\<exists>q. out = sid @ ''/segment?'' @ q \<and>
       VerifySegment t secret (query_Get ''u'' (ParseQuery q)) = Inr (absolute_uri base (trim_space l)) \<and>
       splitToken (query_Get ''token'' (ParseQuery q)) = Inr (sid, secret))"

definition good_session :: "string \<Rightarrow> string \<Rightarrow> bool" where
  "good_session sid secret \<longleftrightarrow> sid \<noteq> [] \<and> list_all alnum sid \<and> secret \<noteq> []"

lemma good_session_token:
  "good_session sid secret \<Longrightarrow> splitToken (tokenValue sid secret) = Inr (sid, secret)"
  by (rule split_tokenValue)
    (auto simp: good_session_def list_all_iff alnum_def is_digit_def is_upper_def is_lower_def)

lemma rewrite_line_opens:
  assumes "good_session sid secret" "\<not> is_comment l" "utf8_valid (absolute_uri base (trim_space l))"
    "in_int64 (unix exp)" "unix t \<le> unix exp"
  shows "link_opens t base sid secret l
    (rewrite_line base sid secret exp (tokenValue sid secret) l)"
proof -
  let ?t = "SignSegment secret (absolute_uri base (trim_space l)) exp"
  let ?k = "tokenValue sid secret"
  have out: "rewrite_line base sid secret exp ?k l = sid @ ''/segment?'' @ ''u='' @ ?t @ ''&token='' @ ?k"
    using assms(2) url_plain_escape [OF SignSegment_plain] by (simp add: rewrite_line_def is_comment_def Let_def)
  have k: "list_all url_plain ?k"
    using assms(1) by (simp add: tokenValue_plain good_session_def)
  have q: "ParseQuery (''u='' @ ?t @ ''&token='' @ ?k) = [(''u'', ?t), (''token'', ?k)]"
    by (rule link_query [OF SignSegment_plain k])
  show ?thesis
    unfolding link_opens_def out
  proof (intro exI conjI, rule refl)
    show "VerifySegment t secret (query_Get ''u'' (ParseQuery (''u='' @ ?t @ ''&token='' @ ?k)))
        = Inr (absolute_uri base (trim_space l))"
      unfolding q using assms by (simp add: query_Get_def verify_signed)
    show "splitToken (query_Get ''token'' (ParseQuery (''u='' @ ?t @ ''&token='' @ ?k))) = Inr (sid, secret)"
      unfolding q using assms(1) by (simp add: query_Get_def good_session_token)
  qed
qed

text \<open>
  Property C24: a rewritten playlist plays. Its lines correspond one to one to the lines of
  the upstream playlist; blank lines and tags are kept; in the place of every URI stands a link
  which, until it expires, the segment endpoint accepts for this session and opens to the
  absolute form of that URI, and whose \<open>token\<close> parameter is the session's own token.
\<close>

theorem rewrite_plays:
  assumes "RewritePlaylist now body base sid secret ttl (tokenValue sid secret) = Inr out"
    "good_session sid secret" "in_int64 (unix (now + ttl))" "unix t \<le> unix (now + ttl)"
    "list_all (\<lambda>l. is_comment l \<or> utf8_valid (absolute_uri base (trim_space l)))
      (fst (scan_lines max_token body))"
  shows "\<exists>outs. out = unlines outs \<and>
    list_all2 (\<lambda>l l'. if is_comment l then l' = l else link_opens t base sid secret l l')
      (fst (scan_lines max_token body)) outs"
proof -
  let ?f = "rewrite_line base sid secret (now + ttl) (tokenValue sid secret)"
  let ?ls = "fst (scan_lines max_token body)"
  have "out = unlines (map ?f ?ls)"
    using assms(1) by (auto simp: RewritePlaylist_def split: prod.splits if_splits)
  moreover have "list_all2 (\<lambda>l l'. if is_comment l then l' = l else link_opens t base sid secret l l')
      ?ls (map ?f ?ls)"
    unfolding list_all2_map2 list_all2_same [symmetric]
  proof (rule list.rel_refl_strong)
    fix l assume "l \<in> set ?ls"
    with assms(5) have u: "is_comment l \<or> utf8_valid (absolute_uri base (trim_space l))"
      by (simp add: list_all_iff)
    show "if is_comment l then ?f l = l else link_opens t base sid secret l (?f l)"
    proof (cases "is_comment l")
      case True
      then show ?thesis by (simp add: rewrite_line_def is_comment_def Let_def)
    next
      case False
      with u assms show ?thesis by (simp add: rewrite_line_opens)
    qed
  qed
  ultimately show ?thesis by blast
qed

theorem rewrite_plays_witness:
  "\<exists>outs. unlines (map (rewrite_line None ''S1'' ''key'' (300 * ns_per_sec) (tokenValue ''S1'' ''key''))
        [''#EXTM3U'', ''seg.ts'']) = unlines outs \<and>
    list_all2 (\<lambda>l l'. if is_comment l then l' = l else link_opens 0 None ''S1'' ''key'' l l')
      [''#EXTM3U'', ''seg.ts''] outs"
proof -
  have s: "scan_lines max_token (unlines [''#EXTM3U'', ''seg.ts'']) = ([''#EXTM3U'', ''seg.ts''], False)"
    by (rule scan_lines_unlines) (simp add: max_token_def)
  have c: "is_comment ''#EXTM3U''" "trim_space ''seg.ts'' = ''seg.ts''" by code_simp+
  have u: "utf8_valid ''seg.ts''" by (rule utf8_valid_ascii) (simp add: is_ascii_def)
  have g: "good_session ''S1'' ''key''"
    by (simp add: good_session_def alnum_def is_digit_def is_upper_def)
  show ?thesis
    using rewrite_plays [of 0 "unlines [''#EXTM3U'', ''seg.ts'']" None "''S1''" "''key''" "300 * ns_per_sec" _ 0]
    unfolding RewritePlaylist_def s
    by (simp add: c u g in_int64_def unix_def absolute_uri_def del: rewrite_line_def list_all2_Cons)
qed

end
