(* ===== verification/Dates.thy ===== *)
theory Dates
  imports NetUrl
begin

text \<open>
  The part of the package \<open>time\<close> the plugin uses: calendar dates (proleptic Gregorian, UTC), the
  layouts RFC 3339, \<open>20060102150405 -0700\<close> and \<open>20060102\<close> as \<open>time.Parse\<close> reads them, \<open>Format\<close> with
  RFC 3339 and the JSON form of an instant, and \<open>Duration.String\<close> and \<open>ParseDuration\<close>. Fractions
  of a unit in a duration, which Go computes in floating point, are exact here.
\<close>

section \<open>Calendar\<close>

definition civil_of_days :: "int \<Rightarrow> int \<times> int \<times> int" where
  "civil_of_days days =
     (let z = days + 719468; era = z div 146097; doe = z mod 146097;
          yoe = (doe - doe div 1460 + doe div 36524 - doe div 146096) div 365;
          doy = doe - (365 * yoe + yoe div 4 - yoe div 100);
          mp = (5 * doy + 2) div 153;
          d = doy - (153 * mp + 2) div 5 + 1;
          m = (if mp < 10 then mp + 3 else mp - 9)
      in (yoe + era * 400 + (if m \<le> 2 then 1 else 0), m, d))"

definition days_of_civil :: "int \<Rightarrow> int \<Rightarrow> int \<Rightarrow> int" where
  "days_of_civil y m d =
     (let y = (if m \<le> 2 then y - 1 else y); era = y div 400; yoe = y mod 400;
          doy = (153 * (if m > 2 then m - 3 else m + 9) + 2) div 5 + d - 1;
          doe = yoe * 365 + yoe div 4 - yoe div 100 + doy
      in era * 146097 + doe - 719468)"

definition leap :: "int \<Rightarrow> bool" where
  "leap y \<longleftrightarrow> y mod 4 = 0 \<and> (y mod 100 \<noteq> 0 \<or> y mod 400 = 0)"

definition days_in :: "int \<Rightarrow> int \<Rightarrow> int" where
  "days_in y m = (if m = 2 then (if leap y then 29 else 28) else if m \<in> {4, 6, 9, 11} then 30 else 31)"

abbreviation ns_per_day :: int where "ns_per_day \<equiv> 86400 * ns_per_sec"

definition date :: "int \<Rightarrow> int \<Rightarrow> int \<Rightarrow> int \<Rightarrow> int \<Rightarrow> int \<Rightarrow> int \<Rightarrow> time" where
  "date y mo d h mi s ns =
     days_of_civil y mo d * ns_per_day + (h * 3600 + mi * 60 + s) * ns_per_sec + ns"

section \<open>Printing\<close>

definition pad :: "nat \<Rightarrow> int \<Rightarrow> string" where
  "pad n i = (let s = itoa i in replicate (n - length s) (CHR ''0'') @ s)"

definition show_date :: "time \<Rightarrow> string" where
  "show_date t =
     (let (y, m, d) = civil_of_days (t div ns_per_day); s = t mod ns_per_day div ns_per_sec
      in pad 4 y @ ''-'' @ pad 2 m @ ''-'' @ pad 2 d @ ''T'' @
         pad 2 (s div 3600) @ '':'' @ pad 2 (s div 60 mod 60) @ '':'' @ pad 2 (s mod 60))"

definition format_rfc3339 :: "time \<Rightarrow> string" where
  "format_rfc3339 t = show_date t @ ''Z''"

text \<open>\<open>RFC3339Nano\<close>: the fraction without trailing zeros.\<close>

definition format_nano :: "time \<Rightarrow> string" where
  "format_nano t =
     (let f = trim_right {CHR ''0''} (pad 9 (t mod ns_per_sec))
      in show_date t @ (if f = [] then [] else CHR ''.'' # f) @ ''Z'')"

text \<open>
  \<open>MarshalJSON\<close> of an instant in a zone of the given offset: it fails for a year outside 0 to
  9999 and for an offset of 24 hours or more.
\<close>

definition marshal_error :: "string \<Rightarrow> err" where
  "marshal_error m =
     Err OtherErr (''json: error calling MarshalJSON for type time.Time: Time.MarshalJSON: '' @ m)"

definition marshal_time :: "int \<Rightarrow> time \<Rightarrow> err + string" where
  "marshal_time off t =
     (let l = t + off * ns_per_sec; y = fst (civil_of_days (l div ns_per_day)) in
      if y < 0 \<or> 9999 < y then Inl (marshal_error ''year outside of range [0,9999]'')
      else if 24 * 3600 \<le> \<bar>off\<bar> then Inl (marshal_error ''timezone hour outside of range [0,23]'')
      else if off = 0 then Inr (format_nano t)
      else Inr (butlast (format_nano l) @ (if off < 0 then ''-'' else ''+'') @
        pad 2 (\<bar>off\<bar> div 3600) @ '':'' @ pad 2 (\<bar>off\<bar> div 60 mod 60)))"

definition truncate_sec :: "time \<Rightarrow> time" where
  "truncate_sec t = t div ns_per_sec * ns_per_sec"

section \<open>Parsing\<close>

definition digit_at :: "string \<Rightarrow> nat \<Rightarrow> bool" where
  "digit_at s i \<longleftrightarrow> i < length s \<and> is_digit (s ! i)"

definition dig :: "string \<Rightarrow> nat \<Rightarrow> int" where
  "dig s i = int (code (s ! i)) - 48"

definition getnum :: "bool \<Rightarrow> string \<Rightarrow> (int \<times> string) option" where
  "getnum fixed s =
     (if \<not> digit_at s 0 then None
      else if \<not> digit_at s 1 then (if fixed then None else Some (dig s 0, tl s))
      else Some (dig s 0 * 10 + dig s 1, drop 2 s))"

definition get_year :: "string \<Rightarrow> (int \<times> string) option" where
  "get_year s =
     (if 4 \<le> length s \<and> list_all is_digit (take 4 s) then Some (int (dec_val (take 4 s)), drop 4 s) else None)"

definition lit :: "string \<Rightarrow> string \<Rightarrow> string option" where
  "lit p s = (if has_prefix s p then Some (drop (length p) s) else None)"

text \<open>An optional fraction after the seconds, cut after nine digits.\<close>

definition get_frac :: "string \<Rightarrow> int \<times> string" where
  "get_frac s =
     (if s \<noteq> [] \<and> (hd s = CHR ''.'' \<or> hd s = CHR '','') \<and> digit_at s 1 then
        let ds = takeWhile is_digit (tl s); n = take 9 ds
        in (int (dec_val n) * 10 ^ (9 - length n), dropWhile is_digit (tl s))
      else (0, s))"

definition get_zone :: "bool \<Rightarrow> string \<Rightarrow> (int \<times> string) option" where
  "get_zone colon s =
     (if s = [] \<or> hd s \<notin> {CHR ''+'', CHR ''-''} then None
      else Option.bind (getnum True (tl s)) (\<lambda>(h, r).
           Option.bind (if colon then lit '':'' r else Some r) (\<lambda>r.
           Option.bind (getnum True r) (\<lambda>(m, r).
             if h > 24 \<or> m > 60 then None
             else Some ((if hd s = CHR ''-'' then -1 else 1) * (h * 3600 + m * 60), r)))))"

definition check_date :: "int \<Rightarrow> int \<Rightarrow> int \<Rightarrow> bool" where
  "check_date y m d \<longleftrightarrow> 1 \<le> m \<and> m \<le> 12 \<and> 1 \<le> d \<and> d \<le> days_in y m"

definition clock :: "string \<Rightarrow> string \<Rightarrow> ((int \<times> int \<times> int \<times> int) \<times> string) option" where
  "clock sep s =
     Option.bind (getnum False s) (\<lambda>(h, r). Option.bind (lit sep r) (\<lambda>r.
     Option.bind (getnum True r) (\<lambda>(mi, r). Option.bind (lit sep r) (\<lambda>r.
     Option.bind (getnum True r) (\<lambda>(se, r).
       if h \<ge> 24 \<or> mi \<ge> 60 \<or> se \<ge> 60 then None
       else let (ns, r) = get_frac r in Some ((h, mi, se, ns), r))))))"

definition ymd :: "string \<Rightarrow> string \<Rightarrow> ((int \<times> int \<times> int) \<times> string) option" where
  "ymd sep s =
     Option.bind (get_year s) (\<lambda>(y, r). Option.bind (lit sep r) (\<lambda>r.
     Option.bind (getnum True r) (\<lambda>(m, r). Option.bind (lit sep r) (\<lambda>r.
     Option.bind (getnum True r) (\<lambda>(d, r).
       if check_date y m d then Some ((y, m, d), r) else None)))))"

text \<open>RFC 3339: the instant and the offset of its zone in seconds.\<close>

definition parse_rfc3339 :: "string \<Rightarrow> (time \<times> int) option" where
  "parse_rfc3339 s =
     Option.bind (ymd ''-'' s) (\<lambda>((y, m, d), r). Option.bind (lit ''T'' r) (\<lambda>r.
     Option.bind (clock '':'' r) (\<lambda>((h, mi, se, ns), r).
       if r = ''Z'' then Some (date y m d h mi se ns, 0)
       else Option.bind (get_zone True r) (\<lambda>(off, r).
         if r = [] then Some (date y m d h mi se ns - off * ns_per_sec, off) else None))))"

text \<open>The layout \<open>20060102150405 -0700\<close>; a space in a layout matches any number of them.\<close>

definition parse_xmltv_time :: "string \<Rightarrow> time option" where
  "parse_xmltv_time s =
     Option.bind (ymd [] s) (\<lambda>((y, m, d), r).
     Option.bind (clock [] r) (\<lambda>((h, mi, se, ns), r).
       if r \<noteq> [] \<and> hd r \<noteq> CHR '' '' then None
       else Option.bind (get_zone False (dropWhile (\<lambda>c. c = CHR '' '') r)) (\<lambda>(off, r).
         if r = [] then Some (date y m d h mi se ns - off * ns_per_sec) else None)))"

definition parse_yyyymmdd :: "string \<Rightarrow> time option" where
  "parse_yyyymmdd s =
     Option.bind (ymd [] s) (\<lambda>((y, m, d), r). if r = [] then Some (date y m d 0 0 0 0) else None)"

section \<open>Durations\<close>

text \<open>A fraction of \<open>k\<close> digits, dropped when zero, otherwise without trailing zeros.\<close>

definition show_frac :: "nat \<Rightarrow> int \<Rightarrow> string" where
  "show_frac k f =
     (let s = trim_right {CHR ''0''} (pad k f) in if f = 0 then [] else CHR ''.'' # s)"

definition micro :: string where
  "micro = [CHR 0xC2, CHR 0xB5, CHR ''s'']"

definition duration_String :: "duration \<Rightarrow> string" where
  "duration_String d =
     (let u = \<bar>d\<bar>; neg = (if d < 0 then ''-'' else []);
          sec = u div ns_per_sec; m = sec div 60; h = m div 60
      in if d = 0 then ''0s''
         else if u < 1000 then neg @ itoa u @ ''ns''
         else if u < 1000000 then neg @ itoa (u div 1000) @ show_frac 3 (u mod 1000) @ micro
         else if u < ns_per_sec then neg @ itoa (u div 1000000) @ show_frac 6 (u mod 1000000) @ ''ms''
         else neg @ (if m = 0 then [] else (if h = 0 then [] else itoa h @ ''h'') @ itoa (m mod 60) @ ''m'') @
           itoa (sec mod 60) @ show_frac 9 (u mod ns_per_sec) @ ''s'')"

definition unit_of :: "string \<Rightarrow> int option" where
  "unit_of u =
     (if u = ''ns'' then Some 1
      else if u = ''us'' \<or> u = micro \<or> u = [CHR 0xCE, CHR 0xBC, CHR ''s''] then Some 1000
      else if u = ''ms'' then Some 1000000
      else if u = ''s'' then Some ns_per_sec
      else if u = ''m'' then Some minute
      else if u = ''h'' then Some hour
      else None)"

text \<open>\<open>leadingFraction\<close>: digits beyond the range of \<open>int64\<close> are skipped.\<close>

fun frac_digits :: "string \<Rightarrow> int \<times> int \<Rightarrow> int \<times> int" where
  "frac_digits [] fs = fs"
| "frac_digits (c # s) (f, sc) =
     (if f > (2 ^ 63 - 1) div 10 \<or> f * 10 + (int (code c) - 48) > 2 ^ 63 then (f, sc)
      else frac_digits s (f * 10 + (int (code c) - 48), sc * 10))"

definition dur_error :: "string \<Rightarrow> err" where
  "dur_error s = Err OtherErr (''time: invalid duration '' @ go_quote s)"

function dur_loop :: "string \<Rightarrow> int \<Rightarrow> string \<Rightarrow> err + int" where
  "dur_loop orig d s =
     (if s = [] then Inr d
      else if hd s \<noteq> CHR ''.'' \<and> \<not> is_digit (hd s) then Inl (dur_error orig)
      else
        let ip = takeWhile is_digit s; s1 = dropWhile is_digit s;
            dot = has_prefix s1 ''.'';
            fp = (if dot then takeWhile is_digit (tl s1) else []);
            s2 = (if dot then dropWhile is_digit (tl s1) else s1);
            u = takeWhile (\<lambda>c. c \<noteq> CHR ''.'' \<and> \<not> is_digit c) s2;
            s3 = dropWhile (\<lambda>c. c \<noteq> CHR ''.'' \<and> \<not> is_digit c) s2;
            v = int (dec_val ip); (f, sc) = frac_digits fp (0, 1)
        in if v > 2 ^ 63 then Inl (dur_error orig)
           else if ip = [] \<and> fp = [] then Inl (dur_error orig)
           else if u = [] then Inl (Err OtherErr (''time: missing unit in duration '' @ go_quote orig))
           else case unit_of u of
             None \<Rightarrow> Inl (Err OtherErr (''time: unknown unit '' @ go_quote u @ '' in duration '' @ go_quote orig))
           | Some un \<Rightarrow>
               let v = v * un + f * un div sc in
               if int (dec_val ip) > 2 ^ 63 div un \<or> v > 2 ^ 63 \<or> d + v > 2 ^ 63 then Inl (dur_error orig)
               else dur_loop orig (d + v) s3)"
  by pat_completeness auto
termination
proof (relation "measure (\<lambda>(orig, d, s). length s)", goal_cases)
  case (2 orig d s ip s1 dot fp s2 u s3 v x f sc un v')
  have "length s1 \<le> length s" using 2(4) by (simp add: length_dropWhile_le)
  moreover have "length s2 \<le> length s1"
  proof (cases dot)
    case True
    then have "length s2 \<le> length (tl s1)" using 2(7) length_dropWhile_le [of is_digit "tl s1"] by simp
    then show ?thesis by simp
  next
    case False
    with 2(7) show ?thesis by simp
  qed
  moreover have "length s3 < length s2"
  proof -
    have "length u + length s3 = length s2"
      using 2(8,9) by (metis length_append takeWhile_dropWhile_id)
    moreover have "u \<noteq> []" using 2 by blast
    ultimately show ?thesis by (cases u) auto
  qed
  ultimately show ?case by simp
qed simp

definition ParseDuration :: "string \<Rightarrow> err + duration" where
  "ParseDuration orig =
     (let neg = has_prefix orig ''-'';
          s = (if neg \<or> has_prefix orig ''+'' then tl orig else orig)
      in if s = ''0'' then Inr 0
         else if s = [] then Inl (dur_error orig)
         else case dur_loop orig 0 s of
           Inl e \<Rightarrow> Inl e
         | Inr d \<Rightarrow>
             if neg then Inr (- d)
             else if d > 2 ^ 63 - 1 then Inl (dur_error orig)
             else Inr d)"

end
