(* ===== verification/StreamProxy.thy ===== *)
theory StreamProxy
  imports HlsTokens UserLimits Caches StoreChannels StoreSources StoreSessions StoreFavorites Dates
begin

text \<open>
  The stream proxy, \<open>src/internal/streamproxy\<close>: session minting with its caps and the probe of the
  upstream kind (\<open>session.go\<close>), authentication (\<open>proxy.go\<close>), the MPEG-TS pass-through
  (\<open>mpegts.go\<close>) and the HLS handlers (\<open>hls.go\<close>). A handler maps a request and the state of the
  proxy to a response and the state after it; \<open>defer\<close>red releases happen on every path. The
  configuration of \<open>Deps\<close> is the record \<open>proxy_conf\<close>, its lazily built guards are part of the
  state. Log output is left out.
\<close>

section \<open>State and configuration\<close>

record Limits =
  PlaylistCacheTTL :: duration
  GlobalStreamCap :: int
  GlobalUpstreamCap :: int
  PerUserRatePerSec :: rat
  PerUserBurst :: rat

text \<open>The values of the \<open>Settings\<close> interface and the mount point.\<close>

record proxy_conf =
  PerUserStreamCap :: int
  PerChannelDefaultCap :: int
  SessionIdleTimeout :: duration
  GuideWindowCap :: duration
  BasePath :: string

record proxy =
  px_world :: world
  px_cache :: "(string, string) ttlCache option"
  px_stream :: "semaphore option"
  px_upstream :: "semaphore option"
  px_limiter :: "rateLimiter option"

definition initGuards :: "Limits \<Rightarrow> world \<Rightarrow> proxy" where
  "initGuards l w =
     \<lparr>px_world = w, px_cache = Some (newTTLCache (PlaylistCacheTTL l)),
      px_stream = Some (newSemaphore (GlobalStreamCap l)),
      px_upstream = Some (newSemaphore (GlobalUpstreamCap l)),
      px_limiter = Some (newRateLimiter (PerUserRatePerSec l) (PerUserBurst l))\<rparr>"

text \<open>\<open>StaticSettings\<close>: the guide window falls back to a day.\<close>

definition static_GuideWindowCap :: "duration \<Rightarrow> duration" where
  "static_GuideWindowCap d = (if d \<le> 0 then 24 * hour else d)"

definition proxy_basePath :: "proxy_conf \<Rightarrow> string" where
  "proxy_basePath c =
     trim_right {CHR ''/''} (if BasePath c = [] then ''/api/v1/livetv'' else BasePath c)"

definition on_world :: "(world \<Rightarrow> 'a \<times> world) \<Rightarrow> proxy \<Rightarrow> 'a \<times> proxy" where
  "on_world f p = (let (a, w) = f (px_world p) in (a, p\<lparr>px_world := w\<rparr>))"

type_synonym handler = "request \<Rightarrow> proxy \<Rightarrow> response \<times> proxy"

section \<open>Answers\<close>

definition proxy_writeJSONError :: "int \<Rightarrow> string \<Rightarrow> string \<Rightarrow> response" where
  "proxy_writeJSONError status kd msg =
     response0\<lparr>rs_Status := status, rs_Header := [(''Content-Type'', ''application/json'')],
       rs_Body := json_enc (JObj [(''error'', JObj [(''code'', JStr kd), (''message'', JStr msg)])]) @ [LF]\<rparr>"

section \<open>Authentication\<close>

text \<open>On success the session id of the token and its row; otherwise the response.\<close>

definition verifyToken :: "request \<Rightarrow> proxy \<Rightarrow> (response + (string \<times> Session)) \<times> proxy" where
  "verifyToken r p =
     (case extractToken r of
        None \<Rightarrow> (Inl (http_Error ''unauthorized'' 401), p)
      | Some raw \<Rightarrow>
          (case splitToken raw of
             Inl _ \<Rightarrow> (Inl (http_Error ''unauthorized'' 401), p)
           | Inr (sid, secret) \<Rightarrow>
               (case on_world (GetSession (rq_ctx r) sid) p of
                  (Inl _, p) \<Rightarrow> (Inl (http_Error ''session gone'' 404), p)
                | (Inr sess, p) \<Rightarrow>
                    if sn_EndedAt sess \<noteq> None then (Inl (http_Error ''session gone'' 404), p)
                    else if secret \<noteq> sn_SessionSecret sess then (Inl (http_Error ''unauthorized'' 401), p)
                    else (Inr (sid, sess), p))))"

text \<open>\<open>stripExt\<close>.\<close>

fun strip_exts :: "string list \<Rightarrow> string \<Rightarrow> string" where
  "strip_exts [] s = s"
| "strip_exts (e # es) s =
     (if length e < length s \<and> drop (length s - length e) s = e then take (length s - length e) s
      else strip_exts es s)"

definition stripExt :: "string \<Rightarrow> string" where
  "stripExt s = strip_exts [''.ts'', ''.m3u8'', ''.mpegts''] s"

definition sourceHeaders :: "ctx \<Rightarrow> string \<Rightarrow> world \<Rightarrow> smap \<times> world" where
  "sourceHeaders ctx sid w =
     (if sid = [] then ([], w)
      else case GetM3USource ctx sid w of
        (Inl _, w) \<Rightarrow> ([], w)
      | (Inr src, w) \<Rightarrow> (src_HTTPHeaders src, w))"

text \<open>\<open>http.Error\<close> for a failed channel lookup.\<close>

definition channel_error :: "err \<Rightarrow> response" where
  "channel_error e =
     (if is_not_found e then http_Error ''channel gone'' 404 else http_Error ''internal error'' 500)"

section \<open>The semaphores\<close>

text \<open>Acquire, run, release on every path.\<close>

definition with_stream :: "response \<Rightarrow> (proxy \<Rightarrow> response \<times> proxy) \<Rightarrow> proxy \<Rightarrow> response \<times> proxy" where
  "with_stream busy body p =
     (case TryAcquire (px_stream p) of
        (False, s) \<Rightarrow> (busy, p\<lparr>px_stream := s\<rparr>)
      | (True, s) \<Rightarrow>
          (let (r, p) = body (p\<lparr>px_stream := s\<rparr>) in (r, p\<lparr>px_stream := Release (px_stream p)\<rparr>)))"

definition with_upstream :: "'a \<Rightarrow> (proxy \<Rightarrow> 'a \<times> proxy) \<Rightarrow> proxy \<Rightarrow> 'a \<times> proxy" where
  "with_upstream busy body p =
     (case TryAcquire (px_upstream p) of
        (False, s) \<Rightarrow> (busy, p\<lparr>px_upstream := s\<rparr>)
      | (True, s) \<Rightarrow>
          (let (r, p) = body (p\<lparr>px_upstream := s\<rparr>) in (r, p\<lparr>px_upstream := Release (px_upstream p)\<rparr>)))"

definition allow_user :: "string \<Rightarrow> proxy \<Rightarrow> bool \<times> proxy" where
  "allow_user uid p =
     (let (ok, l) = Allow (wnow (px_world p)) uid (px_limiter p) in (ok, p\<lparr>px_limiter := l\<rparr>))"

section \<open>Classifying the upstream\<close>

definition hls_types :: "string list" where
  "hls_types = [''application/vnd.apple.mpegurl'', ''application/x-mpegurl'']"

definition ts_types :: "string list" where
  "ts_types = [''video/mp2t'', ''video/mpeg'']"

definition headProbe :: "ctx \<Rightarrow> string \<Rightarrow> smap \<Rightarrow> world \<Rightarrow> string option \<times> world" where
  "headProbe ctx raw headers w =
     (case NewRequest ''HEAD'' raw of
        Inl _ \<Rightarrow> (None, w)
      | Inr req \<Rightarrow>
          (case http_Do ctx (req\<lparr>or_Header := hdr_SetAll headers []\<rparr>) w of
             (Inl _, w) \<Rightarrow> (None, w)
           | (Inr resp, w) \<Rightarrow>
               if rp_Status resp < 200 \<or> 400 \<le> rp_Status resp then (None, w)
               else
                 let ct = go_ToLower (uni_lower w) (hdr_Get ''Content-Type'' (rp_Header resp)) in
                 if list_ex (contains ct) hls_types then (Some ''hls'', w)
                 else if list_ex (contains ct) ts_types then (Some ''mpegts'', w)
                 else (None, w)))"

definition getSniff :: "ctx \<Rightarrow> string \<Rightarrow> smap \<Rightarrow> world \<Rightarrow> (err + string) \<times> world" where
  "getSniff ctx raw headers w =
     (case NewRequest ''GET'' raw of
        Inl e \<Rightarrow> (Inl e, w)
      | Inr req \<Rightarrow>
          (case http_Do ctx (req\<lparr>or_Header := hdr_Set ''Range'' ''bytes=0-511'' (hdr_SetAll headers [])\<rparr>) w of
             (Inl e, w) \<Rightarrow> (Inl e, w)
           | (Inr resp, w) \<Rightarrow>
               if rp_Status resp < 200 \<or> 400 \<le> rp_Status resp then
                 (Inl (Err OtherErr (''sniff http '' @ itoa (rp_Status resp))), w)
               else
                 let buf = take 512 (fst (rp_Body resp)) in
                 if buf \<noteq> [] \<and> hd buf = CHR 0x47 then (Inr ''mpegts'', w)
                 else if has_prefix (dropWhile (\<lambda>c. c \<in> {CHR '' '', TAB, CR, LF}) buf) ''#EXTM3U'' then
                   (Inr ''hls'', w)
                 else (Inr ''mpegts'', w)))"

definition detectUpstreamKind :: "ctx \<Rightarrow> string \<Rightarrow> smap \<Rightarrow> world \<Rightarrow> (err + string) \<times> world" where
  "detectUpstreamKind ctx raw headers w =
     (let lower = fst (cut (go_ToLower (uni_lower w) raw) (CHR ''?'')) in
      if has_suffix lower ''.m3u8'' then (Inr ''hls'', w)
      else if has_suffix lower ''.ts'' \<or> has_suffix lower ''.mpegts'' then (Inr ''mpegts'', w)
      else case headProbe ctx raw headers w of
        (Some kind, w) \<Rightarrow> (Inr kind, w)
      | (None, w) \<Rightarrow> getSniff ctx raw headers w)"

section \<open>Creating a session\<close>

definition clientIP :: "request \<Rightarrow> string" where
  "clientIP r =
     (let xff = hdr_Get ''X-Forwarded-For'' (rq_Header r); addr = rq_RemoteAddr r in
      if xff \<noteq> [] then trim_space (fst (cut xff (CHR '','')))
      else case last_index_byte addr (CHR '':'') of
        Some (Suc i) \<Rightarrow> trim_suffix (trim_prefix (take (Suc i) addr) ''['') '']''
      | _ \<Rightarrow> addr)"

definition sessionCookieTTL :: duration where
  "sessionCookieTTL = 8 * hour"

text \<open>The concurrency caps: a count is queried only for a positive cap.\<close>

definition check_cap :: "int \<Rightarrow> (world \<Rightarrow> (err + int) \<times> world) \<Rightarrow> string \<Rightarrow> string \<Rightarrow>
    proxy \<Rightarrow> response option \<times> proxy" where
  "check_cap n count kd msg p =
     (if n \<le> 0 then (None, p)
      else case on_world count p of
        (Inl _, p) \<Rightarrow> (Some (proxy_writeJSONError 500 ''internal_error'' ''cap check failed''), p)
      | (Inr k, p) \<Rightarrow>
          if n \<le> k then (Some (proxy_writeJSONError 429 kd (msg @ itoa n @ '' reached'')), p)
          else (None, p))"

definition resolve_kind :: "ctx \<Rightarrow> string \<Rightarrow> Channel \<Rightarrow> world \<Rightarrow> string \<times> world" where
  "resolve_kind ctx cid ch w =
     (if ch_UpstreamKind ch \<noteq> [] \<and> ch_UpstreamKind ch \<noteq> ''unknown'' then (ch_UpstreamKind ch, w)
      else
        let (headers, w) = sourceHeaders ctx (ch_SourceM3UID ch) w in
        case detectUpstreamKind ctx (ch_UpstreamURL ch) headers w of
          (k, w) \<Rightarrow>
            let kind = (case k of Inl _ \<Rightarrow> ''mpegts'' | Inr k \<Rightarrow> k);
                (_, w) = SetUpstreamKind ctx cid kind w
            in (kind, w))"

definition new_session :: "request \<Rightarrow> string \<Rightarrow> string \<Rightarrow> string \<Rightarrow> Session" where
  "new_session r cid sid secret =
     \<lparr>sn_ID = sid, sn_UserID = rq_UserID r, sn_ChannelID = cid, sn_ScopedGrantID = sid,
      sn_SessionSecret = secret, sn_StartedAt = zero_time, sn_LastByteAt = zero_time,
      sn_BytesStreamed = 0, sn_ClientIP = clientIP r,
      sn_UserAgent = hdr_Get ''User-Agent'' (rq_Header r), sn_EndedAt = None, sn_EndReason = []\<rparr>"

definition session_created :: "proxy_conf \<Rightarrow> string \<Rightarrow> string \<Rightarrow> string \<Rightarrow> time \<Rightarrow> response" where
  "session_created c kind sid value expires =
     (let url = proxy_basePath c @ ''/stream/'' @ sid @ (if kind = ''hls'' then ''.m3u8'' else ''.ts'') @
            ''?token='' @ value
      in response0\<lparr>rs_Header := [(''Content-Type'', ''application/json'')],
           rs_Cookie := [(cookieName, value)],
           rs_Body := json_enc (JObj [(''session_id'', JStr sid), (''playback_url'', JStr url),
               (''expires_at'', JStr (format_nano expires))]) @ [LF]\<rparr>)"

text \<open>From the secret on: mint the row, note the channel as recent, answer.\<close>

definition mint_session :: "proxy_conf \<Rightarrow> request \<Rightarrow> string \<Rightarrow> string \<Rightarrow> proxy \<Rightarrow> response \<times> proxy" where
  "mint_session c r cid kind p =
     (case on_world rand_Read p of
        (Inl _, p) \<Rightarrow> (proxy_writeJSONError 500 ''internal_error'' ''secret mint failed'', p)
      | (Inr secret, p) \<Rightarrow>
          let (sid, p) = on_world newULID p in
          case on_world (CreateSession_row (rq_ctx r) (new_session r cid sid secret)) p of
            (Inl _, p) \<Rightarrow> (proxy_writeJSONError 500 ''internal_error'' ''session mint failed'', p)
          | (Inr _, p) \<Rightarrow>
              let (_, p) = on_world (MarkTuned (rq_ctx r) (rq_UserID r) cid) p in
              (session_created c kind sid (tokenValue sid secret)
                (wnow (px_world p) + sessionCookieTTL), p))"

definition CreateSession :: "proxy_conf \<Rightarrow> handler" where
  "CreateSession c r p =
     (let uid = rq_UserID r; cid = URLParam r ''id''; ctx = rq_ctx r;
          unknown = proxy_writeJSONError 404 ''channel_not_found'' ''unknown channel''
      in if uid = [] then (proxy_writeJSONError 401 ''unauthenticated'' ''missing user'', p)
      else case allow_user uid p of
        (False, p) \<Rightarrow> (proxy_writeJSONError 429 ''rate_limited'' ''too many requests'', p)
      | (True, p) \<Rightarrow>
          if cid = [] then (unknown, p)
          else case on_world (GetChannel ctx cid) p of
            (Inl e, p) \<Rightarrow>
              (if is_not_found e then unknown
               else proxy_writeJSONError 500 ''internal_error'' ''channel lookup failed'', p)
          | (Inr ch, p) \<Rightarrow>
              if \<not> EffectiveEnabled ch then (unknown, p)
              else case check_cap (PerUserStreamCap c) (CountActiveByUser ctx uid)
                  ''user_cap_exceeded'' ''user stream cap '' p of
                (Some resp, p) \<Rightarrow> (resp, p)
              | (None, p) \<Rightarrow>
                  (case check_cap (PerChannelDefaultCap c) (CountActiveByChannel ctx cid)
                      ''channel_cap_exceeded'' ''channel stream cap '' p of
                     (Some resp, p) \<Rightarrow> (resp, p)
                   | (None, p) \<Rightarrow>
                       let (kind, p) = on_world (resolve_kind ctx cid ch) p in
                       mint_session c r cid kind p))"

section \<open>MPEG-TS\<close>

definition proxyBufSize :: nat where
  "proxyBufSize = 64 * 1024"

definition byteCounterFlushInterval :: duration where
  "byteCounterFlushInterval = 5 * second"

text \<open>
  The client's side of a response body: for each read from upstream how many bytes arrive (at
  least one, at most the buffer) and after how long; the read before which its request is
  cancelled; the read during which it is cancelled, which the upstream client then breaks off with
  the context's error; the write that fails. Once the client is gone its context is cancelled.
\<close>

record client =
  cl_reads :: "nat \<Rightarrow> nat \<times> nat"
  cl_cancel :: "nat option"
  cl_cut :: "nat option"
  cl_gone :: "nat option"

definition flushCounter :: "ctx \<Rightarrow> string \<Rightarrow> int \<Rightarrow> bool \<Rightarrow> world \<Rightarrow> world" where
  "flushCounter ctx sid bytes final w =
     (if bytes = 0 \<and> \<not> final then w
      else snd (UpdateSessionLastByte (if final then live else ctx) sid (wnow w) bytes w))"

record pump_state =
  ps_body :: http_body
  ps_total :: int
  ps_batched :: int
  ps_lastFlush :: time
  ps_out :: string

definition chunk_of :: "client \<Rightarrow> nat \<Rightarrow> string \<Rightarrow> string" where
  "chunk_of cl i body = take (max 1 (min proxyBufSize (fst (cl_reads cl i)))) body"

definition err_unexpected_EOF :: err where
  "err_unexpected_EOF = Err OtherErr ''unexpected EOF''"

text \<open>How a body that ended with \<open>readErr\<close> is reported.\<close>

definition end_reason :: "err option \<Rightarrow> string" where
  "end_reason e =
     (if e = None \<or> e = Some err_unexpected_EOF then ''client_disconnect'' else ''upstream_error'')"

text \<open>
  One round of the loop of \<open>pumpBody\<close>: it returns, with the reason, the state and whether the
  request is cancelled by then, or goes on.
\<close>

datatype pump_result = PStop string pump_state ctx world | PNext pump_state world

definition pump_round :: "client \<Rightarrow> ctx \<Rightarrow> string \<Rightarrow> nat \<Rightarrow> pump_state \<Rightarrow> world \<Rightarrow> pump_result" where
  "pump_round cl ctx sid i ps w =
     (if ctx \<or> cl_cancel cl = Some i then
        PStop ''client_disconnect'' ps True (flushCounter True sid (ps_batched ps) True w)
      else
        let w = w\<lparr>wnow := wnow w + int (snd (cl_reads cl i))\<rparr>; body = fst (ps_body ps) in
        if cl_cut cl = Some i then
          PStop (end_reason (Some err_canceled)) ps True (flushCounter True sid (ps_batched ps) True w)
        else if body = [] then
          PStop (end_reason (snd (ps_body ps))) ps ctx (flushCounter ctx sid (ps_batched ps) True w)
        else if cl_gone cl = Some i then
          PStop ''client_disconnect'' ps True (flushCounter True sid (ps_batched ps) True w)
        else
          let chunk = chunk_of cl i body; n = int (length chunk);
              ps = ps\<lparr>ps_body := (drop (length chunk) body, snd (ps_body ps)),
                ps_total := ps_total ps + n, ps_batched := ps_batched ps + n,
                ps_out := ps_out ps @ chunk\<rparr>
          in if byteCounterFlushInterval \<le> wnow w - ps_lastFlush ps then
               let w = flushCounter ctx sid (ps_batched ps) False w in
               PNext (ps\<lparr>ps_batched := 0, ps_lastFlush := wnow w\<rparr>) w
             else PNext ps w)"

lemma pump_round_shorter:
  "pump_round cl ctx sid i ps w = PNext ps' w' \<Longrightarrow> length (fst (ps_body ps')) < length (fst (ps_body ps))"
  by (auto simp: pump_round_def Let_def chunk_of_def split: if_splits)

function pump :: "client \<Rightarrow> ctx \<Rightarrow> string \<Rightarrow> nat \<Rightarrow> pump_state \<Rightarrow> world \<Rightarrow>
    (string \<times> pump_state \<times> ctx) \<times> world" where
  "pump cl ctx sid i ps w =
     (case pump_round cl ctx sid i ps w of
        PStop reason ps ctx w \<Rightarrow> ((reason, ps, ctx), w)
      | PNext ps w \<Rightarrow> pump cl ctx sid (Suc i) ps w)"
  by pat_completeness auto
termination
  by (relation "measure (\<lambda>(cl, ctx, sid, i, ps, w). length (fst (ps_body ps)))")
    (simp_all add: pump_round_shorter)

declare pump.simps [simp del]

text \<open>A property of the rounds is one of the loop.\<close>

lemma pump_rule:
  assumes "I i ps w"
    "\<And>i ps w ps' w'. I i ps w \<Longrightarrow> pump_round cl ctx sid i ps w = PNext ps' w' \<Longrightarrow> I (Suc i) ps' w'"
    "\<And>i ps w reason ps' c w'. I i ps w \<Longrightarrow> pump_round cl ctx sid i ps w = PStop reason ps' c w' \<Longrightarrow>
       J ((reason, ps', c), w')"
  shows "J (pump cl ctx sid i ps w)"
  using assms(1)
proof (induction "length (fst (ps_body ps))" arbitrary: i ps w rule: less_induct)
  case less
  show ?case
  proof (cases "pump_round cl ctx sid i ps w")
    case (PStop reason ps' c w')
    with assms(3) [OF less.prems PStop] show ?thesis by (simp add: pump.simps)
  next
    case (PNext ps' w')
    have "J (pump cl ctx sid (Suc i) ps' w')"
      by (rule less.hyps [OF pump_round_shorter [OF PNext] assms(2) [OF less.prems PNext]])
    with PNext show ?thesis by (simp add: pump.simps [of cl ctx sid i])
  qed
qed

definition pumpBody :: "client \<Rightarrow> ctx \<Rightarrow> string \<Rightarrow> http_body \<Rightarrow> world \<Rightarrow>
    (string \<times> pump_state \<times> ctx) \<times> world" where
  "pumpBody cl ctx sid body w =
     pump cl ctx sid 0
       \<lparr>ps_body = body, ps_total = 0, ps_batched = 0, ps_lastFlush = wnow w, ps_out = []\<rparr> w"

definition ts_headers :: smap where
  "ts_headers = [(''Content-Type'', ''video/mp2t''), (''Cache-Control'', ''no-store'')]"

text \<open>The end of a stream that could not be opened.\<close>

definition upstream_failed :: "ctx \<Rightarrow> string \<Rightarrow> proxy \<Rightarrow> response \<times> proxy" where
  "upstream_failed ctx sid p =
     (let (_, p) = on_world (EndSession ctx sid ''upstream_error'') p in (http_Error ''bad upstream'' 502, p))"

definition stream_ts :: "client \<Rightarrow> ctx \<Rightarrow> string \<Rightarrow> Channel \<Rightarrow> smap \<Rightarrow> proxy \<Rightarrow> response \<times> proxy" where
  "stream_ts cl ctx sid ch headers p =
     (case NewRequest ''GET'' (ch_UpstreamURL ch) of
        Inl _ \<Rightarrow> upstream_failed ctx sid p
      | Inr req \<Rightarrow>
          (case on_world (http_Do ctx (req\<lparr>or_Header := hdr_SetAll headers []\<rparr>)) p of
             (Inl _, p) \<Rightarrow> upstream_failed ctx sid p
           | (Inr resp, p) \<Rightarrow>
               if rp_Status resp < 200 \<or> 300 \<le> rp_Status resp then upstream_failed ctx sid p
               else
                 let ((reason, ps, ctx), p) = on_world (pumpBody cl ctx sid (rp_Body resp)) p;
                     p = (if 0 < ps_total ps then
                         snd (on_world (\<lambda>w. UpdateSessionLastByte ctx sid (wnow w) 0 w) p) else p);
                     (_, p) = on_world (EndSession ctx sid reason) p
                 in (response0\<lparr>rs_Header := ts_headers, rs_Body := ps_out ps\<rparr>, p)))"

definition ProxyMPEGTS :: "client \<Rightarrow> handler" where
  "ProxyMPEGTS cl r p =
     (case verifyToken r p of
        (Inl resp, p) \<Rightarrow> (resp, p)
      | (Inr (sid, sess), p) \<Rightarrow>
          if stripExt (URLParam r ''session_id'') \<noteq> sid then (http_Error ''unauthorized'' 401, p)
          else with_stream (http_Error ''server at capacity'' 503) (\<lambda>p.
            case on_world (GetChannel (rq_ctx r) (sn_ChannelID sess)) p of
              (Inl e, p) \<Rightarrow> (channel_error e, p)
            | (Inr ch, p) \<Rightarrow>
                let (headers, p) = on_world (sourceHeaders (rq_ctx r) (ch_SourceM3UID ch)) p in
                with_upstream (http_Error ''upstream at capacity'' 503)
                  (stream_ts cl (rq_ctx r) sid ch headers) p) p)"

section \<open>HLS\<close>

definition fetchPlaylistBody :: "ctx \<Rightarrow> Channel \<Rightarrow> proxy \<Rightarrow> string option \<times> proxy" where
  "fetchPlaylistBody ctx ch p =
     (case ttlCache_Get (wnow (px_world p)) (ch_ID ch) (px_cache p) of
        (Some cached, c) \<Rightarrow> (Some cached, p\<lparr>px_cache := c\<rparr>)
      | (None, c) \<Rightarrow>
          with_upstream None (\<lambda>p.
            let (headers, p) = on_world (sourceHeaders ctx (ch_SourceM3UID ch)) p in
            case NewRequest ''GET'' (ch_UpstreamURL ch) of
              Inl _ \<Rightarrow> (None, p)
            | Inr req \<Rightarrow>
                (case on_world (http_Do ctx (req\<lparr>or_Header := hdr_SetAll headers []\<rparr>)) p of
                   (Inl _, p) \<Rightarrow> (None, p)
                 | (Inr resp, p) \<Rightarrow>
                     if rp_Status resp < 200 \<or> 300 \<le> rp_Status resp then (None, p)
                     else case LimitBody (rp_Body resp) PlaylistMaxBytes of
                       (raw, Some _) \<Rightarrow> (None, p)
                     | (raw, None) \<Rightarrow>
                         (Some raw,
                          p\<lparr>px_cache := ttlCache_Set (wnow (px_world p)) (ch_ID ch) raw (px_cache p)\<rparr>)))
            (p\<lparr>px_cache := c\<rparr>))"

definition ProxyHLSPlaylist :: handler where
  "ProxyHLSPlaylist r p =
     (case verifyToken r p of
        (Inl resp, p) \<Rightarrow> (resp, p)
      | (Inr (sid, sess), p) \<Rightarrow>
          if stripExt (URLParam r ''session_id'') \<noteq> sid then (http_Error ''unauthorized'' 401, p)
          else case on_world (GetChannel (rq_ctx r) (sn_ChannelID sess)) p of
            (Inl e, p) \<Rightarrow> (channel_error e, p)
          | (Inr ch, p) \<Rightarrow>
              (case url_Parse (ch_UpstreamURL ch) of
                 Inl _ \<Rightarrow> (http_Error ''bad upstream'' 502, p)
               | Inr base \<Rightarrow>
                   (case fetchPlaylistBody (rq_ctx r) ch p of
                      (None, p) \<Rightarrow> (http_Error ''bad upstream'' 502, p)
                    | (Some raw, p) \<Rightarrow>
                        (case RewritePlaylist (wnow (px_world p)) raw (Some base) sid (sn_SessionSecret sess)
                            (5 * minute) (tokenValue sid (sn_SessionSecret sess)) of
                           Inl _ \<Rightarrow> (http_Error ''rewrite failed'' 502, p)
                         | Inr rewritten \<Rightarrow>
                             (response0\<lparr>rs_Header := [(''Content-Type'', ''application/vnd.apple.mpegurl''),
                                 (''Cache-Control'', ''no-store'')], rs_Body := rewritten\<rparr>,
                              snd (on_world (\<lambda>w. UpdateSessionLastByte (rq_ctx r) sid (wnow w)
                                (int (length rewritten)) w) p))))))"

text \<open>What \<open>io.Copy\<close> with its 32 KiB buffer gets to the client.\<close>

definition copied :: "client \<Rightarrow> string \<Rightarrow> string" where
  "copied cl body = (case cl_gone cl of None \<Rightarrow> body | Some k \<Rightarrow> take (k * 32768) body)"

definition fetch_segment :: "client \<Rightarrow> ctx \<Rightarrow> string \<Rightarrow> string \<Rightarrow> smap \<Rightarrow> proxy \<Rightarrow> response \<times> proxy" where
  "fetch_segment cl ctx sid uri headers p =
     (case NewRequest ''GET'' uri of
        Inl _ \<Rightarrow> (http_Error ''bad upstream'' 502, p)
      | Inr req \<Rightarrow>
          (case on_world (http_Do ctx (req\<lparr>or_Header := hdr_SetAll headers []\<rparr>)) p of
             (Inl _, p) \<Rightarrow> (http_Error ''bad upstream'' 502, p)
           | (Inr resp, p) \<Rightarrow>
               if rp_Status resp < 200 \<or> 300 \<le> rp_Status resp then (http_Error ''bad upstream'' 502, p)
               else
                 let ct = hdr_Get ''Content-Type'' (rp_Header resp);
                     body = copied cl (fst (rp_Body resp));
                     gone = ctx \<or> cl_gone cl \<noteq> None \<and> body \<noteq> fst (rp_Body resp);
                     p = (if body = [] then p
                       else snd (on_world (\<lambda>w. UpdateSessionLastByte gone sid (wnow w) (int (length body)) w) p))
                 in (response0\<lparr>rs_Header := [(''Content-Type'', if ct \<noteq> [] then ct else ''video/mp2t''),
                       (''Cache-Control'', ''no-store'')], rs_Body := body\<rparr>, p)))"

definition ProxyHLSSegment :: "client \<Rightarrow> handler" where
  "ProxyHLSSegment cl r p =
     (case verifyToken r p of
        (Inl resp, p) \<Rightarrow> (resp, p)
      | (Inr (sid, sess), p) \<Rightarrow>
          let token = Query r ''u'' in
          if URLParam r ''session_id'' \<noteq> sid then (http_Error ''unauthorized'' 401, p)
          else if token = [] then (http_Error ''unauthorized'' 401, p)
          else case VerifySegment (wnow (px_world p)) (sn_SessionSecret sess) token of
            Inl _ \<Rightarrow> (http_Error ''unauthorized'' 401, p)
          | Inr uri \<Rightarrow>
              (case allow_user (sn_UserID sess) p of
                 (False, p) \<Rightarrow> (http_Error ''too many requests'' 429, p)
               | (True, p) \<Rightarrow>
                   with_stream (http_Error ''server at capacity'' 503) (\<lambda>p.
                     case on_world (GetChannel (rq_ctx r) (sn_ChannelID sess)) p of
                       (Inl _, p) \<Rightarrow> (http_Error ''channel gone'' 404, p)
                     | (Inr ch, p) \<Rightarrow>
                         let (headers, p) = on_world (sourceHeaders (rq_ctx r) (ch_SourceM3UID ch)) p in
                         with_upstream (http_Error ''upstream at capacity'' 503)
                           (fetch_segment cl (rq_ctx r) sid uri headers) p) p))"

section \<open>The byte routes\<close>

text \<open>The three routes of \<open>src/internal/server/router.go\<close> that need no session header.\<close>

datatype stream_route = routeTS | routeM3U8 | routeSegment

fun serve :: "client \<Rightarrow> stream_route \<Rightarrow> handler" where
  "serve cl routeTS = ProxyMPEGTS cl"
| "serve cl routeM3U8 = ProxyHLSPlaylist"
| "serve cl routeSegment = ProxyHLSSegment cl"

end
