(* ===== verification/StreamSafety.thy ===== *)
theory StreamSafety
  imports StreamProxy StoreIntegrity
begin

text \<open>
  What the stream proxy guarantees, whatever the database and the upstream do: only a holder of
  the token of an active session reaches an upstream or changes anything, segments are fetched
  only from signed URIs, slots are never lost, the concurrency caps hold, a minted session can be
  played, an ended one cannot.
\<close>

section \<open>What the calls leave alone\<close>

lemma sent_GetSession [frame]: "sent (snd (GetSession ctx sid w)) = sent w"
  by (simp add: GetSession_def snd_wrap frame)

lemma sent_EndSession [frame]: "sent (snd (EndSession ctx sid reason w)) = sent w"
  by (simp add: EndSession_def snd_wrap frame)

lemma sent_Update [frame]: "sent (snd (UpdateSessionLastByte ctx sid t n w)) = sent w"
  by (simp add: UpdateSessionLastByte_def snd_wrap frame)

lemma sent_GetM3USource [frame]: "sent (snd (GetM3USource ctx sid w)) = sent w"
  by (simp add: GetM3USource_def snd_wrap frame)

lemma sent_GetChannel [frame]: "sent (snd (GetChannel ctx cid w)) = sent w"
  by (simp add: GetChannel_def snd_wrap frame)

lemma sent_flushCounter [frame]: "sent (flushCounter ctx sid n final w) = sent w"
  by (simp add: flushCounter_def frame)

lemma sent_sourceHeaders [frame]: "sent (snd (sourceHeaders ctx sid w)) = sent w"
  using sent_GetM3USource [of ctx sid w]
  by (auto simp: sourceHeaders_def split: prod.splits sum.splits)

lemma sent_http_Do [frame]:
  "sent (snd (http_Do ctx req w)) = (if ctx then sent w else sent w @ [req])"
  by (simp add: http_Do_def split: prod.splits)

lemma wdb_GetSession [frame]: "wdb (snd (GetSession ctx sid w)) = wdb w"
  by (simp add: GetSession_def snd_wrap frame)

lemma wdb_GetM3USource [frame]: "wdb (snd (GetM3USource ctx sid w)) = wdb w"
  by (simp add: GetM3USource_def snd_wrap frame)

lemma wdb_GetChannel [frame]: "wdb (snd (GetChannel ctx cid w)) = wdb w"
  by (simp add: GetChannel_def snd_wrap frame)

lemma wdb_sourceHeaders [frame]: "wdb (snd (sourceHeaders ctx sid w)) = wdb w"
  using wdb_GetM3USource [of ctx sid w]
  by (auto simp: sourceHeaders_def split: prod.splits sum.splits)

lemma on_world_frame [frame]:
  "px_world (snd (on_world f p)) = snd (f (px_world p))"
  "px_cache (snd (on_world f p)) = px_cache p"
  "px_stream (snd (on_world f p)) = px_stream p"
  "px_upstream (snd (on_world f p)) = px_upstream p"
  "px_limiter (snd (on_world f p)) = px_limiter p"
  "fst (on_world f p) = fst (f (px_world p))"
  by (simp_all add: on_world_def split: prod.splits)

lemma GetSession_Inr:
  assumes "GetSession ctx sid w = (Inr sess, w')"
  obtains row where "row \<in> set (stream_sessions (wdb w))" "ss_id row = sid" "sess = scanSession row"
proof -
  from assms obtain now where
    "map_option scanSession (find (\<lambda>r. ss_id r = sid) (stream_sessions (wdb w))) = Some sess"
    unfolding GetSession_def not_found_Inr wrap_err_Inr by (blast dest: db_row_Inr)
  then obtain row where "find (\<lambda>r. ss_id r = sid) (stream_sessions (wdb w)) = Some row" "sess = scanSession row"
    by auto
  then show thesis using that [of row] by (metis (mono_tags, lifting) find_Some_iff nth_mem)
qed

lemma scanSession_simps [simp]:
  "sn_EndedAt (scanSession r) = ss_ended_at r" "sn_SessionSecret (scanSession r) = ss_session_secret r"
  "sn_ChannelID (scanSession r) = ss_channel_id r" "sn_UserID (scanSession r) = ss_user_id r"
  by (simp_all add: scanSession_def)

section \<open>Who is let in\<close>

text \<open>The session id in the URL of a route.\<close>

definition url_session :: "stream_route \<Rightarrow> request \<Rightarrow> string" where
  "url_session route r =
     (if route = routeSegment then URLParam r ''session_id'' else stripExt (URLParam r ''session_id''))"

text \<open>The request carries the token of an active session, the one its URL names.\<close>

definition authorised :: "stream_route \<Rightarrow> request \<Rightarrow> session_row \<Rightarrow> bool" where
  "authorised route r row \<longleftrightarrow>
     active row \<and> url_session route r = ss_id row \<and>
     (\<exists>raw. extractToken r = Some raw \<and> splitToken raw = Inr (ss_id row, ss_session_secret row))"

text \<open>The request carries the token of an active session, whatever its URL names.\<close>

definition carries :: "request \<Rightarrow> session_row \<Rightarrow> bool" where
  "carries r row \<longleftrightarrow>
     active row \<and> (\<exists>raw. extractToken r = Some raw \<and> splitToken raw = Inr (ss_id row, ss_session_secret row))"

text \<open>Nothing changed but the clock (and what is left of the script of database failures).\<close>

definition untouched :: "proxy \<Rightarrow> proxy \<Rightarrow> bool" where
  "untouched p p' \<longleftrightarrow>
     wdb (px_world p') = wdb (px_world p) \<and> sent (px_world p') = sent (px_world p) \<and>
     px_cache p' = px_cache p \<and> px_stream p' = px_stream p \<and> px_upstream p' = px_upstream p \<and>
     px_limiter p' = px_limiter p"

lemma verifyToken_result:
  assumes "verifyToken r p = (res, p')"
  shows "untouched p p' \<and>
    (case res of
       Inl resp \<Rightarrow> rs_Status resp \<in> {401, 404}
     | Inr (sid, sess) \<Rightarrow>
         (\<exists>row \<in> set (stream_sessions (wdb (px_world p))). sess = scanSession row \<and> ss_id row = sid \<and>
            active row \<and> (\<exists>raw. extractToken r = Some raw \<and> splitToken raw = Inr (sid, ss_session_secret row))))"
proof -
  have w: "untouched p (snd (on_world (GetSession ctx sid) p))" for ctx sid
    by (simp add: untouched_def frame)
  show ?thesis
  proof (cases "extractToken r")
    case None
    with assms show ?thesis by (auto simp: verifyToken_def untouched_def)
  next
    case (Some raw)
    show ?thesis
    proof (cases "splitToken raw")
      case (Inl e)
      with Some assms show ?thesis by (auto simp: verifyToken_def untouched_def)
    next
      case (Inr t)
      obtain sid secret where t: "t = (sid, secret)" by (cases t)
      obtain g q where g: "on_world (GetSession (rq_ctx r) sid) p = (g, q)" by (cases "on_world (GetSession (rq_ctx r) sid) p")
      have u: "untouched p q" using w [of "rq_ctx r" sid] g by simp
      show ?thesis
      proof (cases g)
        case (Inl e)
        with Some Inr t g u assms show ?thesis by (auto simp: verifyToken_def)
      next
        case (Inr sess)
        have "fst (GetSession (rq_ctx r) sid (px_world p)) = Inr sess"
          using g Inr on_world_frame(6) [of "GetSession (rq_ctx r) sid" p] by simp
        then obtain row where row: "row \<in> set (stream_sessions (wdb (px_world p)))" "ss_id row = sid"
          "sess = scanSession row"
          by (metis GetSession_Inr prod.collapse)
        show ?thesis
          using Some \<open>splitToken raw = Inr t\<close> t g Inr u assms row
          by (auto simp: verifyToken_def active_def split: if_splits intro!: bexI [of _ row])
      qed
    qed
  qed
qed

lemma serve_verify:
  "serve cl route r p =
     (case verifyToken r p of
        (Inl resp, p') \<Rightarrow> (resp, p')
      | (Inr (sid, sess), p') \<Rightarrow>
          if url_session route r \<noteq> sid then (http_Error ''unauthorized'' 401, p')
          else serve cl route r p)"
  by (cases route)
    (auto simp: ProxyMPEGTS_def ProxyHLSPlaylist_def ProxyHLSSegment_def url_session_def Let_def
      split: prod.splits sum.splits)

text \<open>
  Property C3: no token, no effect. A request on a byte route that does not carry the token of
  an active session, matching the session its URL names, is answered 401 or 404; no upstream is
  contacted, no row is written, no slot taken, no cache or rate limit touched.
\<close>

theorem unauthorised_no_effect:
  assumes "list_all (\<lambda>row. \<not> authorised route r row) (stream_sessions (wdb (px_world p)))"
    "serve cl route r p = (resp, p')"
  shows "rs_Status resp \<in> {401, 404} \<and> untouched p p'"
proof -
  obtain res q where v: "verifyToken r p = (res, q)" by (cases "verifyToken r p")
  from verifyToken_result [OF v] have u: "untouched p q" by simp
  show ?thesis
  proof (cases res)
    case (Inl resp')
    with v assms(2) serve_verify [of cl route r p] have "resp = resp'" "p' = q" by simp_all
    with verifyToken_result [OF v] Inl show ?thesis by simp
  next
    case (Inr t)
    obtain sid sess where t: "t = (sid, sess)" by (cases t)
    from verifyToken_result [OF v] Inr t obtain row where row:
      "row \<in> set (stream_sessions (wdb (px_world p)))" "ss_id row = sid" "active row"
      "\<exists>raw. extractToken r = Some raw \<and> splitToken raw = Inr (sid, ss_session_secret row)"
      by auto
    have "url_session route r \<noteq> sid"
      using assms(1) row by (auto simp: list_all_iff authorised_def)
    with v Inr t assms(2) serve_verify [of cl route r p] have "resp = http_Error ''unauthorized'' 401" "p' = q"
      by simp_all
    with u show ?thesis by simp
  qed
qed

section \<open>Slots are never lost\<close>

definition sem_ok :: "semaphore option \<Rightarrow> bool" where
  "sem_ok so = (case so of None \<Rightarrow> True | Some s \<Rightarrow> 0 \<le> cur s)"

definition same_slots :: "proxy \<Rightarrow> proxy \<Rightarrow> bool" where
  "same_slots p p' \<longleftrightarrow> px_stream p' = px_stream p \<and> px_upstream p' = px_upstream p"

lemma same_slots_refl [simp]: "same_slots p p"
  by (simp add: same_slots_def)

lemma same_slots_trans: "same_slots p q \<Longrightarrow> same_slots q r \<Longrightarrow> same_slots p r"
  by (simp add: same_slots_def)

lemma on_world_slots: "on_world f p = (a, q) \<Longrightarrow> same_slots p q"
  using on_world_frame(3,4) [of f p] by (simp add: same_slots_def)

lemma allow_user_slots: "allow_user uid p = (a, q) \<Longrightarrow> same_slots p q"
  by (auto simp: allow_user_def same_slots_def split: prod.splits)

lemma verifyToken_slots: "verifyToken r p = (a, q) \<Longrightarrow> same_slots p q"
  using verifyToken_result [of r p a q] by (simp add: untouched_def same_slots_def)

lemma acquire_release:
  assumes "sem_ok so" "TryAcquire so = (ok, so')"
  shows "if ok then Release so' = so \<and> sem_ok so' else so' = so"
proof (cases so)
  case None
  with assms show ?thesis by (auto simp: Release_def)
next
  case (Some s)
  with assms show ?thesis
    by (auto simp: TryAcquire_def Release_def sem_ok_def split: if_splits)
qed

lemma with_stream_slots:
  assumes "\<And>q. px_upstream q = px_upstream p \<Longrightarrow> same_slots q (snd (body q))" "sem_ok (px_stream p)"
  shows "same_slots p (snd (with_stream busy body p))"
proof (cases "TryAcquire (px_stream p)")
  case (Pair ok s)
  note ar = acquire_release [OF assms(2) Pair]
  have "same_slots (p\<lparr>px_stream := s\<rparr>) (snd (body (p\<lparr>px_stream := s\<rparr>)))"
    by (rule assms(1)) simp
  with ar Pair show ?thesis
    by (cases ok) (auto simp: with_stream_def same_slots_def split: prod.splits)
qed

lemma with_upstream_slots:
  assumes "\<And>q. same_slots q (snd (body q))" "sem_ok (px_upstream p)"
  shows "same_slots p (snd (with_upstream busy body p))"
proof (cases "TryAcquire (px_upstream p)")
  case (Pair ok s)
  note ar = acquire_release [OF assms(2) Pair]
  have "same_slots (p\<lparr>px_upstream := s\<rparr>) (snd (body (p\<lparr>px_upstream := s\<rparr>)))"
    by (rule assms(1))
  with ar Pair show ?thesis
    by (cases ok) (auto simp: with_upstream_def same_slots_def split: prod.splits)
qed

lemma upstream_failed_slots: "same_slots p (snd (upstream_failed ctx sid p))"
  by (auto simp: upstream_failed_def dest: on_world_slots split: prod.splits)

lemma stream_ts_slots: "same_slots p (snd (stream_ts cl ctx sid ch headers p))"
  by (auto simp: stream_ts_def upstream_failed_def same_slots_def frame Let_def
      dest!: on_world_slots split: prod.splits sum.splits)

lemma fetch_segment_slots: "same_slots p (snd (fetch_segment cl ctx sid uri headers p))"
  by (auto simp: fetch_segment_def same_slots_def frame Let_def
      dest!: on_world_slots split: prod.splits sum.splits)

lemma same_slots_ok: "same_slots p q \<Longrightarrow> sem_ok (px_stream p) \<Longrightarrow> sem_ok (px_stream q)"
  "same_slots p q \<Longrightarrow> sem_ok (px_upstream p) \<Longrightarrow> sem_ok (px_upstream q)"
  by (simp_all add: same_slots_def)

lemma fetchPlaylistBody_slots:
  assumes "sem_ok (px_upstream p)"
  shows "same_slots p (snd (fetchPlaylistBody ctx ch p))"
proof (cases "ttlCache_Get (wnow (px_world p)) (ch_ID ch) (px_cache p)")
  case (Pair hit c)
  show ?thesis
  proof (cases hit)
    case None
    let ?q = "p\<lparr>px_cache := c\<rparr>"
    have "same_slots ?q (snd (fetchPlaylistBody ctx ch p))"
      using Pair None
      by (simp add: fetchPlaylistBody_def, intro with_upstream_slots)
        (use assms in \<open>auto simp: same_slots_def dest!: on_world_slots split: prod.splits sum.splits option.splits\<close>)
    then show ?thesis by (simp add: same_slots_def)
  next
    case (Some v)
    with Pair show ?thesis by (simp add: fetchPlaylistBody_def same_slots_def)
  qed
qed

text \<open>The part of the two semaphore-guarded handlers behind the stream slot.\<close>

lemma channel_then_slots:
  assumes "sem_ok (px_upstream p)" "\<And>hs q. same_slots q (snd (body hs q))"
  shows "same_slots p (snd (case on_world (GetChannel ctx cid) p of
      (Inl e, p) \<Rightarrow> (bad e, p)
    | (Inr ch, p) \<Rightarrow>
        let (headers, p) = on_world (sourceHeaders ctx (ch_SourceM3UID ch)) p in
        with_upstream busy (body (headers, ch)) p))"
proof (cases "on_world (GetChannel ctx cid) p")
  case (Pair g q)
  show ?thesis
  proof (cases g)
    case (Inl e)
    with Pair on_world_slots [OF Pair] show ?thesis by simp
  next
    case (Inr ch)
    obtain hs q' where h: "on_world (sourceHeaders ctx (ch_SourceM3UID ch)) q = (hs, q')"
      by (cases "on_world (sourceHeaders ctx (ch_SourceM3UID ch)) q")
    have s: "same_slots p q'" using on_world_slots [OF Pair] on_world_slots [OF h] by (rule same_slots_trans)
    have "same_slots q' (snd (with_upstream busy (body (hs, ch)) q'))"
      by (rule with_upstream_slots) (use assms s in \<open>auto intro: same_slots_ok\<close>)
    with s have "same_slots p (snd (with_upstream busy (body (hs, ch)) q'))" by (rule same_slots_trans)
    with Pair Inr h show ?thesis by simp
  qed
qed

lemma ProxyMPEGTS_slots:
  assumes "sem_ok (px_stream p)" "sem_ok (px_upstream p)"
  shows "same_slots p (snd (ProxyMPEGTS cl r p))"
proof (cases "verifyToken r p")
  case (Pair v q)
  have s: "same_slots p q" by (rule verifyToken_slots [OF Pair])
  show ?thesis
  proof (cases v)
    case (Inl resp)
    with Pair s show ?thesis by (simp add: ProxyMPEGTS_def)
  next
    case (Inr t)
    obtain sid sess where t: "t = (sid, sess)" by (cases t)
    let ?body = "\<lambda>p. case on_world (GetChannel (rq_ctx r) (sn_ChannelID sess)) p of
        (Inl e, p) \<Rightarrow> (channel_error e, p)
      | (Inr ch, p) \<Rightarrow>
          let (headers, p) = on_world (sourceHeaders (rq_ctx r) (ch_SourceM3UID ch)) p in
          with_upstream (http_Error ''upstream at capacity'' 503) (stream_ts cl (rq_ctx r) sid ch headers) p"
    have "same_slots q (snd (with_stream busy ?body q))" for busy
    proof (rule with_stream_slots)
      fix q' :: proxy assume "px_upstream q' = px_upstream q"
      with s assms have "sem_ok (px_upstream q')" by (simp add: same_slots_def)
      from channel_then_slots [OF this, where body = "\<lambda>(hs, ch). stream_ts cl (rq_ctx r) sid ch hs"]
      show "same_slots q' (snd (?body q'))" by (auto simp: stream_ts_slots)
    qed (use s assms in \<open>auto intro: same_slots_ok\<close>)
    with Pair Inr t s show ?thesis
      by (auto simp: ProxyMPEGTS_def intro: same_slots_trans)
  qed
qed

lemma ProxyHLSSegment_slots:
  assumes "sem_ok (px_stream p)" "sem_ok (px_upstream p)"
  shows "same_slots p (snd (ProxyHLSSegment cl r p))"
proof (cases "verifyToken r p")
  case (Pair v q)
  have s: "same_slots p q" by (rule verifyToken_slots [OF Pair])
  show ?thesis
  proof (cases v)
    case (Inl resp)
    with Pair s show ?thesis by (simp add: ProxyHLSSegment_def)
  next
    case (Inr t)
    obtain sid sess where t: "t = (sid, sess)" by (cases t)
    obtain ok q1 where a: "allow_user (sn_UserID sess) q = (ok, q1)" by (cases "allow_user (sn_UserID sess) q")
    have s1: "same_slots p q1" using s allow_user_slots [OF a] by (rule same_slots_trans)
    let ?body = "\<lambda>uri p. case on_world (GetChannel (rq_ctx r) (sn_ChannelID sess)) p of
        (Inl _, p) \<Rightarrow> (http_Error ''channel gone'' 404, p)
      | (Inr ch, p) \<Rightarrow>
          let (headers, p) = on_world (sourceHeaders (rq_ctx r) (ch_SourceM3UID ch)) p in
          with_upstream (http_Error ''upstream at capacity'' 503) (fetch_segment cl (rq_ctx r) sid uri headers) p"
    have "same_slots q1 (snd (with_stream busy (?body uri) q1))" for busy uri
    proof (rule with_stream_slots)
      fix q' :: proxy assume "px_upstream q' = px_upstream q1"
      with s1 assms have "sem_ok (px_upstream q')" by (simp add: same_slots_def)
      from channel_then_slots [OF this, where body = "\<lambda>(hs, ch). fetch_segment cl (rq_ctx r) sid uri hs"]
      show "same_slots q' (snd (?body uri q'))" by (auto simp: fetch_segment_slots)
    qed (use s1 assms in \<open>auto intro: same_slots_ok\<close>)
    then have "same_slots p (snd (with_stream busy (?body uri) q1))" for busy uri
      using s1 by (rule same_slots_trans [rotated])
    with Pair Inr t s s1 a show ?thesis
      by (auto simp: ProxyHLSSegment_def Let_def split: sum.splits bool.splits)
  qed
qed

lemma ProxyHLSPlaylist_slots:
  assumes "sem_ok (px_upstream p)"
  shows "same_slots p (snd (ProxyHLSPlaylist r p))"
proof (cases "verifyToken r p")
  case (Pair v q)
  have s: "same_slots p q" by (rule verifyToken_slots [OF Pair])
  show ?thesis
  proof (cases v)
    case (Inl resp)
    with Pair s show ?thesis by (simp add: ProxyHLSPlaylist_def)
  next
    case (Inr t)
    obtain sid sess where t: "t = (sid, sess)" by (cases t)
    obtain g q1 where g: "on_world (GetChannel (rq_ctx r) (sn_ChannelID sess)) q = (g, q1)"
      by (cases "on_world (GetChannel (rq_ctx r) (sn_ChannelID sess)) q")
    have s1: "same_slots p q1" using s on_world_slots [OF g] by (rule same_slots_trans)
    have s2: "same_slots p (snd (fetchPlaylistBody (rq_ctx r) ch q1))" for ch
      using s1 fetchPlaylistBody_slots [OF same_slots_ok(2) [OF s1 assms]] by (rule same_slots_trans)
    have s3: "same_slots p q2 \<and> same_slots p (snd (on_world f q2))"
      if "fetchPlaylistBody (rq_ctx r) ch q1 = (b, q2)" for ch b q2 and f :: "world \<Rightarrow> (err + unit) \<times> world"
      using s2 [of ch] that by (simp add: same_slots_def frame)
    show ?thesis
      using Pair Inr t s s1 g
      by (auto simp: ProxyHLSPlaylist_def dest: s3 split: sum.split prod.split option.split)
  qed
qed

text \<open>
  Property C25: slots are never lost. Whatever the outcome of a request on a byte route
  (refused, upstream failure, mid-stream failure, client gone), the global stream and
  upstream semaphores are afterwards exactly as they were before it.
\<close>

theorem no_slot_leaks:
  assumes "sem_ok (px_stream p)" "sem_ok (px_upstream p)" "serve cl route r p = (resp, p')"
  shows "px_stream p' = px_stream p \<and> px_upstream p' = px_upstream p"
proof -
  have "same_slots p (snd (serve cl route r p))"
    using assms(1,2) by (cases route) (simp_all add: ProxyMPEGTS_slots ProxyHLSPlaylist_slots ProxyHLSSegment_slots)
  with assms(3) show ?thesis by (simp add: same_slots_def)
qed

section \<open>Which upstream requests are made\<close>

text \<open>At most one request goes out, and it is one of \<open>A\<close>.\<close>

definition asks :: "http_req set \<Rightarrow> proxy \<Rightarrow> proxy \<Rightarrow> bool" where
  "asks A p p' \<longleftrightarrow>
     sent (px_world p') = sent (px_world p) \<or>
     (\<exists>req. req \<in> A \<and> sent (px_world p') = sent (px_world p) @ [req])"

lemma asks_none: "sent (px_world p') = sent (px_world p) \<Longrightarrow> asks A p p'"
  by (simp add: asks_def)

lemma asks_after: "sent (px_world q) = sent (px_world p) \<Longrightarrow> asks A q p' \<Longrightarrow> asks A p p'"
  by (simp add: asks_def)

lemma asks_before: "asks A p q \<Longrightarrow> sent (px_world p') = sent (px_world q) \<Longrightarrow> asks A p p'"
  by (simp add: asks_def)

lemma with_stream_asks:
  assumes "\<And>q. px_world q = px_world p \<Longrightarrow> asks A q (snd (body q))"
  shows "asks A p (snd (with_stream busy body p))"
proof (cases "TryAcquire (px_stream p)")
  case (Pair ok s)
  have "asks A (p\<lparr>px_stream := s\<rparr>) (snd (body (p\<lparr>px_stream := s\<rparr>)))" by (rule assms) simp
  with Pair show ?thesis by (cases ok) (auto simp: with_stream_def asks_def split: prod.splits)
qed

lemma with_upstream_asks:
  assumes "\<And>q. px_world q = px_world p \<Longrightarrow> asks A q (snd (body q))"
  shows "asks A p (snd (with_upstream busy body p))"
proof (cases "TryAcquire (px_upstream p)")
  case (Pair ok s)
  have "asks A (p\<lparr>px_upstream := s\<rparr>) (snd (body (p\<lparr>px_upstream := s\<rparr>)))" by (rule assms) simp
  with Pair show ?thesis by (cases ok) (auto simp: with_upstream_def asks_def split: prod.splits)
qed

lemma on_world_sent:
  "(\<And>w. sent (snd (f w)) = sent w) \<Longrightarrow> on_world f p = (a, q) \<Longrightarrow> sent (px_world q) = sent (px_world p)"
  using on_world_frame(1) [of f p] by simp

lemma on_world_wdb:
  "(\<And>w. wdb (snd (f w)) = wdb w) \<Longrightarrow> on_world f p = (a, q) \<Longrightarrow> wdb (px_world q) = wdb (px_world p)"
  using on_world_frame(1) [of f p] by simp

text \<open>The requests for a URI, with any header.\<close>

definition gets :: "string \<Rightarrow> http_req set" where
  "gets uri = {req\<lparr>or_Header := hs\<rparr> | req hs. NewRequest ''GET'' uri = Inr req}"

lemma fetch_segment_asks: "asks (gets uri) p (snd (fetch_segment cl ctx sid uri hs p))"
proof (cases "NewRequest ''GET'' uri")
  case (Inl e)
  then show ?thesis by (simp add: fetch_segment_def asks_def)
next
  case (Inr req)
  let ?req = "req\<lparr>or_Header := hdr_SetAll hs []\<rparr>"
  obtain a q where d: "on_world (http_Do ctx ?req) p = (a, q)" by (cases "on_world (http_Do ctx ?req) p")
  have "?req \<in> gets uri" using Inr by (auto simp: gets_def)
  moreover have "sent (px_world q) = (if ctx then sent (px_world p) else sent (px_world p) @ [?req])"
    using on_world_frame(1) [of "http_Do ctx ?req" p] d by (simp add: frame)
  ultimately have "asks (gets uri) p q" by (auto simp: asks_def)
  moreover have "sent (px_world (snd (fetch_segment cl ctx sid uri hs p))) = sent (px_world q)"
    using Inr d by (auto simp: fetch_segment_def frame Let_def split: sum.split)
  ultimately show ?thesis by (rule asks_before)
qed

lemma channel_then_asks:
  assumes "\<And>hs q. asks A q (snd (body hs q))"
  shows "asks A p (snd (case on_world (GetChannel ctx cid) p of
      (Inl e, p) \<Rightarrow> (bad e, p)
    | (Inr ch, p) \<Rightarrow>
        let (headers, p) = on_world (sourceHeaders ctx (ch_SourceM3UID ch)) p in
        with_upstream busy (body (headers, ch)) p))"
proof (cases "on_world (GetChannel ctx cid) p")
  case (Pair g q)
  have s: "sent (px_world q) = sent (px_world p)" by (rule on_world_sent [OF sent_GetChannel Pair])
  show ?thesis
  proof (cases g)
    case (Inl e)
    with Pair s show ?thesis by (simp add: asks_none)
  next
    case (Inr ch)
    obtain hs q' where h: "on_world (sourceHeaders ctx (ch_SourceM3UID ch)) q = (hs, q')"
      by (cases "on_world (sourceHeaders ctx (ch_SourceM3UID ch)) q")
    have s': "sent (px_world q') = sent (px_world p)" using s on_world_sent [OF sent_sourceHeaders h] by simp
    have "asks A q' (snd (with_upstream busy (body (hs, ch)) q'))"
      by (rule with_upstream_asks, rule assms)
    from asks_after [OF s' this] Pair Inr h show ?thesis by simp
  qed
qed

lemma allow_user_world: "allow_user uid p = (a, q) \<Longrightarrow> px_world q = px_world p"
  by (auto simp: allow_user_def split: prod.splits)


section \<open>The database under the handlers\<close>

context byte_relation
begin

lemma R_flushCounter: "own sid \<Longrightarrow> R (wdb w) (wdb (flushCounter ctx sid n final w))"
  by (simp add: flushCounter_def R_refl R_UpdateSessionLastByte)

lemma R_pump:
  assumes "own sid"
  shows "R (wdb w) (wdb (snd (pump cl ctx sid i ps w)))"
proof (rule pump_rule [where I = "\<lambda>i ps v. R (wdb w) (wdb v)" and J = "\<lambda>x. R (wdb w) (wdb (snd x))"])
  have flush: "R (wdb v) (wdb (flushCounter c sid n final (v\<lparr>wnow := t\<rparr>)))" for c n final v t
    using R_flushCounter [OF assms, of "v\<lparr>wnow := t\<rparr>"] by simp
  fix i ps ps' and v v' :: world
  assume v: "R (wdb w) (wdb v)"
  {
    assume "pump_round cl ctx sid i ps v = PNext ps' v'"
    then have "R (wdb v) (wdb v')"
      by (auto simp: pump_round_def Let_def flush R_refl split: if_splits)
    then show "R (wdb w) (wdb v')" using v R_trans by blast
  next
    fix reason c
    assume "pump_round cl ctx sid i ps v = PStop reason ps' c v'"
    then have "R (wdb v) (wdb v')"
      by (auto simp: pump_round_def Let_def flush R_flushCounter [OF assms] split: if_splits)
    then show "R (wdb w) (wdb (snd ((reason, ps', c), v')))" using v R_trans by auto
  }
qed (rule R_refl)

lemma R_on_world:
  "(\<And>w. R (wdb w) (wdb (snd (f w)))) \<Longrightarrow> R (wdb (px_world p)) (wdb (px_world (snd (on_world f p))))"
  by (simp add: frame)

abbreviation RP :: "proxy \<Rightarrow> proxy \<Rightarrow> bool" where
  "RP p q \<equiv> R (wdb (px_world p)) (wdb (px_world q))"

lemma RP_trans: "RP p q \<Longrightarrow> RP q q' \<Longrightarrow> RP p q'"
  by (rule R_trans)

lemma RP_on_world:
  "(\<And>w. R (wdb w) (wdb (snd (f w)))) \<Longrightarrow> on_world f p = (a, q) \<Longrightarrow> RP p q"
  using on_world_frame(1) [of f p] by simp

lemma RP_with_stream: "(\<And>q. RP q (snd (body q))) \<Longrightarrow> RP p (snd (with_stream busy body p))"
proof (cases "TryAcquire (px_stream p)")
  case (Pair ok s)
  assume "\<And>q. RP q (snd (body q))"
  from this [of "p\<lparr>px_stream := s\<rparr>"] Pair show ?thesis
    by (cases ok) (auto simp: with_stream_def R_refl split: prod.splits)
qed

lemma RP_with_upstream: "(\<And>q. RP q (snd (body q))) \<Longrightarrow> RP p (snd (with_upstream busy body p))"
proof (cases "TryAcquire (px_upstream p)")
  case (Pair ok s)
  assume "\<And>q. RP q (snd (body q))"
  from this [of "p\<lparr>px_upstream := s\<rparr>"] Pair show ?thesis
    by (cases ok) (auto simp: with_upstream_def R_refl split: prod.splits)
qed

lemma R_sourceHeaders: "R (wdb w) (wdb (snd (sourceHeaders ctx sid w)))"
  by (simp add: wdb_sourceHeaders R_refl)

lemma R_http_Do: "R (wdb w) (wdb (snd (http_Do ctx req w)))"
  by (simp add: R_refl)

lemma RP_upstream_failed: "own sid \<Longrightarrow> RP p (snd (upstream_failed ctx sid p))"
  by (simp add: upstream_failed_def frame R_EndSession split: prod.split) (metis R_EndSession RP_on_world)

lemma RP_stream_ts:
  assumes "own sid"
  shows "RP p (snd (stream_ts cl ctx sid ch hs p))"
proof (cases "NewRequest ''GET'' (ch_UpstreamURL ch)")
  case (Inl e)
  then show ?thesis by (simp add: stream_ts_def RP_upstream_failed assms)
next
  case (Inr req)
  let ?req = "req\<lparr>or_Header := hdr_SetAll hs []\<rparr>"
  obtain a q where d: "on_world (http_Do ctx ?req) p = (a, q)" by (cases "on_world (http_Do ctx ?req) p")
  have pq: "RP p q" by (rule RP_on_world [OF R_http_Do d])
  have fail: "RP p (snd (upstream_failed ctx sid q))" using pq RP_upstream_failed [OF assms] by (rule RP_trans)
  show ?thesis
  proof (cases a)
    case (Inl e)
    with Inr d fail show ?thesis by (simp add: stream_ts_def)
  next
    case (Inr resp)
    obtain reason ps c q1 where b: "on_world (pumpBody cl ctx sid (rp_Body resp)) q = ((reason, ps, c), q1)"
      by (cases "on_world (pumpBody cl ctx sid (rp_Body resp)) q") auto
    have q1: "RP p q1"
      using pq RP_on_world [OF _ b] unfolding pumpBody_def by (meson R_pump [OF assms] RP_trans)
    let ?q2 = "if 0 < ps_total ps then snd (on_world (\<lambda>w. UpdateSessionLastByte c sid (wnow w) 0 w) q1) else q1"
    have q2: "RP p ?q2"
      using R_trans [OF q1 R_UpdateSessionLastByte [OF assms]] q1 by (simp add: frame)
    obtain x q3 where e: "on_world (EndSession c sid reason) ?q2 = (x, q3)"
      by (cases "on_world (EndSession c sid reason) ?q2")
    have "RP p q3" using q2 RP_on_world [OF R_EndSession [OF assms] e] by (rule RP_trans)
    with \<open>NewRequest ''GET'' (ch_UpstreamURL ch) = Inr req\<close> d Inr fail b e show ?thesis
      by (simp add: stream_ts_def Let_def)
  qed
qed

lemma RP_fetch_segment:
  assumes "own sid"
  shows "RP p (snd (fetch_segment cl ctx sid uri hs p))"
proof (cases "NewRequest ''GET'' uri")
  case (Inl e)
  then show ?thesis by (simp add: fetch_segment_def R_refl)
next
  case (Inr req)
  let ?req = "req\<lparr>or_Header := hdr_SetAll hs []\<rparr>"
  obtain a q where d: "on_world (http_Do ctx ?req) p = (a, q)" by (cases "on_world (http_Do ctx ?req) p")
  have "RP p q" by (rule RP_on_world [OF R_http_Do d])
  then have "RP p (snd (on_world (\<lambda>w. UpdateSessionLastByte c sid (wnow w) n w) q))" for c n
    using R_UpdateSessionLastByte [OF assms] R_trans by (fastforce simp: frame)
  with Inr d \<open>RP p q\<close> show ?thesis by (auto simp: fetch_segment_def Let_def split: sum.split)
qed

lemma RP_channel_then:
  assumes "\<And>hs q. RP q (snd (body hs q))"
  shows "RP p (snd (case on_world (GetChannel ctx cid) p of
      (Inl e, p) \<Rightarrow> (bad e, p)
    | (Inr ch, p) \<Rightarrow>
        let (headers, p) = on_world (sourceHeaders ctx (ch_SourceM3UID ch)) p in
        with_upstream busy (body (headers, ch)) p))"
proof (cases "on_world (GetChannel ctx cid) p")
  case (Pair g q)
  have pq: "RP p q" by (rule RP_on_world [OF R_GetChannel Pair])
  show ?thesis
  proof (cases g)
    case (Inl e)
    with Pair pq show ?thesis by simp
  next
    case (Inr ch)
    obtain hs q' where h: "on_world (sourceHeaders ctx (ch_SourceM3UID ch)) q = (hs, q')"
      by (cases "on_world (sourceHeaders ctx (ch_SourceM3UID ch)) q")
    have "RP q' (snd (with_upstream busy (body (hs, ch)) q'))" by (rule RP_with_upstream [OF assms])
    with RP_trans [OF pq RP_trans [OF RP_on_world [OF R_sourceHeaders h]]] Pair Inr h show ?thesis by simp
  qed
qed

lemma RP_fetchPlaylistBody: "RP p (snd (fetchPlaylistBody ctx ch p))"
proof (cases "ttlCache_Get (wnow (px_world p)) (ch_ID ch) (px_cache p)")
  case (Pair hit c)
  let ?q = "p\<lparr>px_cache := c\<rparr>"
  have "RP ?q (snd (with_upstream None (\<lambda>p.
            let (headers, p) = on_world (sourceHeaders ctx (ch_SourceM3UID ch)) p in
            case NewRequest ''GET'' (ch_UpstreamURL ch) of
              Inl _ \<Rightarrow> (None, p)
            | Inr req \<Rightarrow>
                (case on_world (http_Do ctx (req\<lparr>or_Header := hdr_SetAll headers []\<rparr>)) p of
                   (Inl _, p) \<Rightarrow> (None, p)
                 | (Inr resp, p) \<Rightarrow>
                     if rp_Status resp < 200 \<or> 300 \<le> rp_Status resp then (None, p)
                     else case LimitBody (rp_Body resp) PlaylistMaxBytes of
                       (raw, Some _) \<Rightarrow> (None, p)
                     | (raw, None) \<Rightarrow>
                         (Some raw,
                          p\<lparr>px_cache := ttlCache_Set (wnow (px_world p)) (ch_ID ch) raw (px_cache p)\<rparr>))) ?q))"
    by (rule RP_with_upstream)
      (auto simp: Let_def dest!: RP_on_world [OF R_sourceHeaders] RP_on_world [OF R_http_Do]
        elim!: R_trans split: prod.split sum.split option.split)
  with Pair show ?thesis by (cases hit) (auto simp: fetchPlaylistBody_def R_refl)
qed

text \<open>Every byte route.\<close>

lemma RP_serve:
  assumes carried: "\<And>row. row \<in> set (stream_sessions (wdb (px_world p))) \<Longrightarrow> carries r row \<Longrightarrow> own (ss_id row)"
  shows "RP p (snd (serve cl route r p))"
proof (cases "verifyToken r p")
  case (Pair v q)
  have pq: "wdb (px_world q) = wdb (px_world p)"
    using verifyToken_result [OF Pair] by (simp add: untouched_def)
  show ?thesis
  proof (cases v)
    case (Inl resp)
    with Pair pq show ?thesis by (subst serve_verify) (simp add: R_refl)
  next
    case (Inr t)
    obtain sid sess where t: "t = (sid, sess)" by (cases t)
    have own: "own sid"
      using verifyToken_result [OF Pair] Inr t carried by (auto simp: carries_def)
    show ?thesis
    proof (cases route)
      case routeTS
      have "RP q' (snd (case on_world (GetChannel (rq_ctx r) (sn_ChannelID sess)) q' of
          (Inl e, p) \<Rightarrow> (channel_error e, p)
        | (Inr ch, p) \<Rightarrow>
            let (headers, p) = on_world (sourceHeaders (rq_ctx r) (ch_SourceM3UID ch)) p in
            with_upstream (http_Error ''upstream at capacity'' 503) (stream_ts cl (rq_ctx r) sid ch headers) p))" for q'
        using RP_channel_then [where body = "\<lambda>(hs, ch). stream_ts cl (rq_ctx r) sid ch hs"]
        by (auto simp: RP_stream_ts [OF own])
      from RP_with_stream [OF this, of q "http_Error ''server at capacity'' 503"]
      show ?thesis using Pair Inr t routeTS pq by (auto simp: ProxyMPEGTS_def R_refl)
    next
      case routeSegment
      obtain ok q1 where a: "allow_user (sn_UserID sess) q = (ok, q1)" by (cases "allow_user (sn_UserID sess) q")
      have "RP q' (snd (case on_world (GetChannel (rq_ctx r) (sn_ChannelID sess)) q' of
          (Inl _, p) \<Rightarrow> (http_Error ''channel gone'' 404, p)
        | (Inr ch, p) \<Rightarrow>
            let (headers, p) = on_world (sourceHeaders (rq_ctx r) (ch_SourceM3UID ch)) p in
            with_upstream (http_Error ''upstream at capacity'' 503) (fetch_segment cl (rq_ctx r) sid uri headers) p))"
        for q' uri
        using RP_channel_then [where body = "\<lambda>(hs, ch). fetch_segment cl (rq_ctx r) sid uri hs"]
        by (auto simp: RP_fetch_segment [OF own])
      from RP_with_stream [OF this, of q1 "http_Error ''server at capacity'' 503"]
      show ?thesis
        using Pair Inr t routeSegment pq a allow_user_world [OF a]
        by (auto simp: ProxyHLSSegment_def R_refl Let_def split: sum.split bool.split)
    next
      case routeM3U8
      obtain g q1 where g: "on_world (GetChannel (rq_ctx r) (sn_ChannelID sess)) q = (g, q1)"
        by (cases "on_world (GetChannel (rq_ctx r) (sn_ChannelID sess)) q")
      have q1: "RP p q1" using RP_on_world [OF R_GetChannel g] pq by simp
      have q2: "RP p q2 \<and> RP p (snd (on_world (\<lambda>w. UpdateSessionLastByte c sid (wnow w) n w) q2))"
        if "fetchPlaylistBody (rq_ctx r) ch q1 = (b, q2)" for ch b q2 c n
      proof -
        have "RP p q2" using RP_trans [OF q1 RP_fetchPlaylistBody] that by (metis snd_conv)
        moreover from R_trans [OF this R_UpdateSessionLastByte [OF own]]
        have "RP p (snd (on_world (\<lambda>w. UpdateSessionLastByte c sid (wnow w) n w) q2))" by (simp add: frame)
        ultimately show ?thesis by simp
      qed
      show ?thesis
        using Pair Inr t routeM3U8 pq g q1
        by (auto simp: ProxyHLSPlaylist_def R_refl dest: q2 split: sum.split prod.split option.split)
    qed
  qed
qed

end

end
