(* ===== verification/StreamCaps.thy ===== *)
theory StreamCaps
  imports StreamSafety
begin

text \<open>
  The concurrency caps and the life of a session through the stream proxy: however minting,
  playback and the other store operations alternate, the number of active sessions of a user or
  of a channel never exceeds its cap; what was minted can be played; what was ended cannot.
  Each handler runs as one step; requests that check a cap at the same moment are the subject of
  \<open>ConcurrentCaps\<close>.
\<close>

section \<open>Active sessions are only added by minting\<close>

text \<open>The number of active sessions whose user and channel satisfy \<open>P\<close>.\<close>

definition load :: "(string \<Rightarrow> string \<Rightarrow> bool) \<Rightarrow> db \<Rightarrow> int" where
  "load P s = sql_count (\<lambda>r. P (ss_user_id r) (ss_channel_id r) \<and> active r) (stream_sessions s)"

lemma load_same: "stream_sessions s' = stream_sessions s \<Longrightarrow> load P s' = load P s"
  by (simp add: load_def)

lemma sql_count_mono: "(\<And>r. r \<in> set rs \<Longrightarrow> P r \<Longrightarrow> Q r) \<Longrightarrow> sql_count P rs \<le> sql_count Q rs"
  by (induction rs) (auto simp: sql_count_def)

lemma load_update:
  assumes "\<And>r. ss_user_id (f r) = ss_user_id r" "\<And>r. ss_channel_id (f r) = ss_channel_id r"
    "\<And>r. active (f r) \<Longrightarrow> active r"
  shows "load P (s\<lparr>stream_sessions := sql_update H f (stream_sessions s)\<rparr>) \<le> load P s"
proof -
  have "length (filter Q (map g rs)) = length (filter (Q \<circ> g) rs)" for Q g and rs :: "session_row list"
    by (simp add: filter_map)
  then have "load P (s\<lparr>stream_sessions := sql_update H f (stream_sessions s)\<rparr>) =
      sql_count (\<lambda>r. P (ss_user_id r) (ss_channel_id r) \<and> active (if H r then f r else r)) (stream_sessions s)"
    using assms(1,2) by (simp add: load_def sql_count_def sql_update_def comp_def if_distrib cong: if_cong)
  also have "\<dots> \<le> load P s"
    unfolding load_def by (rule sql_count_mono) (auto split: if_splits dest: assms(3))
  finally show ?thesis .
qed

lemma sql_count_delete: "sql_count P (sql_delete H rs) \<le> sql_count P rs"
  by (induction rs) (auto simp: sql_count_def sql_delete_def)

interpretation load_falls: db_relation "\<lambda>s s'. \<forall>P. load P s' \<le> load P s" "\<lambda>_. False"
proof (unfold_locales, goal_cases)
  case (1 s) show ?case by simp
next
  case (2 s1 s2 s3) then show ?case by (meson order_trans)
next
  case (13 r now s a s') then show ?case by simp
next
  case (10 sid t n now s b s') then show ?case
    by (auto simp: touch_session_def Let_def active_def split: if_splits intro!: load_update)
next
  case (11 sid reason now s a s') then show ?case
    by (auto simp: end_session_def active_def intro!: load_update)
next
  case (18 cutoff now s c s') then show ?case
    by (auto simp: reap_idle_def active_def intro!: load_update)
next
  case (24 sid now s b s') then show ?case
    by (auto simp: delete_m3u_def Let_def load_def sql_count_delete split: if_splits)
qed (intro allI eq_refl load_same; (rule same_sessions_delete | erule same_sessions))+

section \<open>Minting\<close>

lemma wdb_headProbe [frame]: "wdb (snd (headProbe ctx raw hs w)) = wdb w"
proof (cases "NewRequest ''HEAD'' raw")
  case (Inr req)
  let ?d = "http_Do ctx (req\<lparr>or_Header := hdr_SetAll hs []\<rparr>) w"
  have "wdb (snd ?d) = wdb w" by simp
  with Inr show ?thesis by (cases ?d) (auto simp: headProbe_def Let_def split: sum.split)
qed (simp add: headProbe_def)

lemma wdb_getSniff [frame]: "wdb (snd (getSniff ctx raw hs w)) = wdb w"
proof (cases "NewRequest ''GET'' raw")
  case (Inr req)
  let ?d = "http_Do ctx (req\<lparr>or_Header := hdr_Set ''Range'' ''bytes=0-511'' (hdr_SetAll hs [])\<rparr>) w"
  have "wdb (snd ?d) = wdb w" by simp
  with Inr show ?thesis by (cases ?d) (auto simp: getSniff_def Let_def split: sum.split)
qed (simp add: getSniff_def)

lemma wdb_detect [frame]: "wdb (snd (detectUpstreamKind ctx raw hs w)) = wdb w"
  using wdb_headProbe [of ctx raw hs w] wdb_getSniff [of ctx raw hs]
  by (auto simp: detectUpstreamKind_def Let_def split: prod.split option.split)

context user_relation
begin

lemma R_resolve_kind: "R (wdb w) (wdb (snd (resolve_kind ctx cid ch w)))"
proof (cases "ch_UpstreamKind ch \<noteq> [] \<and> ch_UpstreamKind ch \<noteq> ''unknown''")
  case True
  then show ?thesis by (simp add: resolve_kind_def R_refl)
next
  case False
  obtain hs w1 where h: "sourceHeaders ctx (ch_SourceM3UID ch) w = (hs, w1)"
    by (cases "sourceHeaders ctx (ch_SourceM3UID ch) w")
  obtain k w2 where d: "detectUpstreamKind ctx (ch_UpstreamURL ch) hs w1 = (k, w2)"
    by (cases "detectUpstreamKind ctx (ch_UpstreamURL ch) hs w1")
  have "wdb w2 = wdb w"
    using wdb_sourceHeaders [of ctx "ch_SourceM3UID ch" w] wdb_detect [of ctx "ch_UpstreamURL ch" hs w1] h d
    by simp
  with R_SetUpstreamKind [of w2 ctx cid "case k of Inl _ \<Rightarrow> ''mpegts'' | Inr k \<Rightarrow> k"]
  have r: "R (wdb w) (wdb (snd (SetUpstreamKind ctx cid (case k of Inl _ \<Rightarrow> ''mpegts'' | Inr k \<Rightarrow> k) w2)))"
    by simp
  have "snd (resolve_kind ctx cid ch w) =
      snd (SetUpstreamKind ctx cid (case k of Inl _ \<Rightarrow> ''mpegts'' | Inr k \<Rightarrow> k) w2)"
    using False h d by (auto simp: resolve_kind_def Let_def split: prod.split)
  with r show ?thesis by simp
qed

end

text \<open>What \<open>CreateSession\<close> of the store adds to the sessions.\<close>

definition adds_session :: "string \<Rightarrow> string \<Rightarrow> string \<Rightarrow> string \<Rightarrow> time option \<Rightarrow> db \<Rightarrow> db \<Rightarrow> bool" where
  "adds_session sid uid cid secret ended s s' \<longleftrightarrow>
     (\<exists>r. ss_id r = sid \<and> ss_user_id r = uid \<and> ss_channel_id r = cid \<and> ss_session_secret r = secret \<and>
        ss_ended_at r = ended \<and> sid \<notin> ss_id ` set (stream_sessions s) \<and>
        s' = s\<lparr>stream_sessions := stream_sessions s @ [r]\<rparr>)"

lemma insert_session_adds:
  assumes "insert_session (session_to_row y) now s = (Inr u, s')"
  shows "adds_session (sn_ID y) (sn_UserID y) (sn_ChannelID y) (sn_SessionSecret y)
    (map_option pg_ts (sn_EndedAt y)) s s'"
  using assms
  by (auto simp: insert_session_def adds_session_def split: if_splits
      intro!: exI [of _ "session_to_row y"]) (auto simp: session_to_row_def)

text \<open>The identifier the row is given.\<close>

definition row_id :: "Session \<Rightarrow> world \<Rightarrow> string" where
  "row_id x w = (if sn_ID x = [] then ulid w (ulid_next w) else sn_ID x)"

abbreviation adds_row :: "Session \<Rightarrow> world \<Rightarrow> world \<Rightarrow> bool" where
  "adds_row x w w' \<equiv> adds_session (row_id x w) (sn_UserID x) (sn_ChannelID x) (sn_SessionSecret x)
     (map_option pg_ts (sn_EndedAt x)) (wdb w) (wdb w')"

lemma CreateSession_row_adds:
  assumes "CreateSession_row ctx x w = (res, w')"
  shows "if \<exists>a. res = Inr a then adds_row x w w' else wdb w' = wdb w \<or> adds_row x w w'"
proof -
  define w0 where "w0 = (if sn_ID x = [] then snd (newULID w) else w)"
  have w0: "wdb w0 = wdb w" "wnow w0 = wnow w" by (simp_all add: w0_def newULID_def)
  define y where "y = x\<lparr>sn_ID := row_id x w,
      sn_StartedAt := (if is_zero (sn_StartedAt x) then wnow w else sn_StartedAt x),
      sn_LastByteAt := (if is_zero (sn_LastByteAt x)
        then (if is_zero (sn_StartedAt x) then wnow w else sn_StartedAt x) else sn_LastByteAt x)\<rparr>"
  obtain a w1 where c: "db_call ctx (insert_session (session_to_row y)) w0 = (a, w1)"
    by (cases "db_call ctx (insert_session (session_to_row y)) w0")
  have eq: "CreateSession_row ctx x w = (case wrap_err ''create session'' (a, w1) of
      (Inl e, v) \<Rightarrow> (Inl e, v) | (Inr _, v) \<Rightarrow> GetSession ctx (row_id x w) v)"
  proof (cases "sn_ID x = []")
    case True
    then have r: "row_id x w = ulid w (ulid_next w)" by (simp add: row_id_def)
    show ?thesis
      unfolding c [symmetric] r
      using True by (simp add: CreateSession_row_def Let_def y_def r w0_def newULID_def)
  next
    case False
    then have r: "row_id x w = sn_ID x" by (simp add: row_id_def)
    show ?thesis
      unfolding c [symmetric] r
      using False by (simp add: CreateSession_row_def Let_def y_def r w0_def)
  qed
  have end_eq: "wdb w' = wdb w1"
    using assms(1) eq wdb_GetSession [of ctx "row_id x w" w1] by (cases a) auto
  have ins: "adds_row x w w1" if "a = Inr u" for u
  proof -
    from c that obtain now where "insert_session (session_to_row y) now (wdb w0) = (Inr u, wdb w1)"
      by (auto simp: db_call_def Let_def split: if_splits option.splits prod.splits sum.splits list.splits)
    from insert_session_adds [OF this] w0 show ?thesis by (simp add: y_def)
  qed
  have "wdb w1 = wdb w" if "a = Inl e" for e
    using db_call_wdb [OF c] that w0 by auto
  with ins end_eq assms(1) eq show ?thesis by (cases a) auto
qed

lemma load_adds:
  assumes "adds_session sid uid cid secret ended s s'"
  shows "load P s' = load P s + (if P uid cid \<and> ended = None then 1 else 0)"
  using assms by (auto simp: adds_session_def load_def sql_count_def active_def)

lemma CreateSession_row_load:
  "load P (wdb (snd (CreateSession_row ctx x w))) \<le>
   load P (wdb w) + (if P (sn_UserID x) (sn_ChannelID x) then 1 else 0)"
proof -
  obtain res w' where c: "CreateSession_row ctx x w = (res, w')" by (cases "CreateSession_row ctx x w")
  from CreateSession_row_adds [OF c] have "wdb w' = wdb w \<or> adds_row x w w'" by (auto split: if_splits)
  with c load_adds show ?thesis by fastforce
qed

section \<open>The caps\<close>

abbreviation pload :: "(string \<Rightarrow> string \<Rightarrow> bool) \<Rightarrow> proxy \<Rightarrow> int" where
  "pload P p \<equiv> load P (wdb (px_world p))"

text \<open>Room under a cap; a cap that is not positive means no cap.\<close>

definition below :: "int \<Rightarrow> int \<Rightarrow> bool" where
  "below n k \<longleftrightarrow> n \<le> 0 \<or> k < n"

definition within_caps :: "proxy_conf \<Rightarrow> db \<Rightarrow> bool" where
  "within_caps c s \<longleftrightarrow>
     (\<forall>u. PerUserStreamCap c \<le> 0 \<or> load (\<lambda>u' _. u' = u) s \<le> PerUserStreamCap c) \<and>
     (\<forall>i. PerChannelDefaultCap c \<le> 0 \<or> load (\<lambda>_ i'. i' = i) s \<le> PerChannelDefaultCap c)"

lemma count_user: "CountActiveByUser ctx uid w = (Inr k, w') \<Longrightarrow> k = load (\<lambda>u _. u = uid) (wdb w)"
  by (auto simp: CountActiveByUser_def wrap_err_Inr db_call_def sql_read_def load_def Let_def
      split: if_splits option.splits prod.splits list.splits)

lemma count_channel: "CountActiveByChannel ctx cid w = (Inr k, w') \<Longrightarrow> k = load (\<lambda>_ i. i = cid) (wdb w)"
  by (auto simp: CountActiveByChannel_def wrap_err_Inr db_call_def sql_read_def load_def Let_def
      split: if_splits option.splits prod.splits list.splits)

lemma wdb_counts [frame]:
  "wdb (snd (CountActiveByUser ctx uid w)) = wdb w" "wdb (snd (CountActiveByChannel ctx cid w)) = wdb w"
  by (simp_all add: CountActiveByUser_def CountActiveByChannel_def snd_wrap frame)

lemma check_cap_result:
  assumes "check_cap n count kd msg p = (res, q)"
    "\<And>k w'. count (px_world p) = (Inr k, w') \<Longrightarrow> k = load P (wdb (px_world p))"
    "wdb (snd (count (px_world p))) = wdb (px_world p)"
  shows "wdb (px_world q) = wdb (px_world p) \<and> (res = None \<longrightarrow> below n (pload P p))"
proof -
  have w: "wdb (px_world (snd (on_world count p))) = wdb (px_world p)" using assms(3) by (simp add: frame)
  show ?thesis
  proof (cases "n \<le> 0")
    case True
    with assms(1) show ?thesis by (auto simp: check_cap_def below_def)
  next
    case False
    obtain k q1 where k: "on_world count p = (k, q1)" by (cases "on_world count p")
    have "fst (count (px_world p)) = k" using k on_world_frame(6) [of count p] by simp
    with assms(2) have "k = Inr m \<Longrightarrow> m = pload P p" for m by (metis prod.collapse)
    with w k False assms(1) show ?thesis by (auto simp: check_cap_def below_def split: sum.splits if_splits)
  qed
qed

lemma check_user:
  "check_cap n (CountActiveByUser ctx uid) kd msg p = (res, q) \<Longrightarrow>
   wdb (px_world q) = wdb (px_world p) \<and> (res = None \<longrightarrow> below n (pload (\<lambda>u _. u = uid) p))"
  by (erule check_cap_result) (simp_all add: frame count_user)

lemma check_channel:
  "check_cap n (CountActiveByChannel ctx cid) kd msg p = (res, q) \<Longrightarrow>
   wdb (px_world q) = wdb (px_world p) \<and> (res = None \<longrightarrow> below n (pload (\<lambda>_ i. i = cid) p))"
  by (erule check_cap_result) (simp_all add: frame count_channel)

lemma load_rel:
  "\<forall>P. load P s' \<le> load P s \<Longrightarrow> within_caps c s \<Longrightarrow> within_caps c s'"
  unfolding within_caps_def by (meson order_trans)

text \<open>Minting for a user and a channel that both have room keeps the caps.\<close>

lemma caps_plus_one:
  assumes "within_caps c s" "below (PerUserStreamCap c) (load (\<lambda>u _. u = uid) s)"
    "below (PerChannelDefaultCap c) (load (\<lambda>_ i. i = cid) s)"
    "\<And>P. load P s' \<le> load P s + (if P uid cid then 1 else 0)"
  shows "within_caps c s'"
  unfolding within_caps_def
proof (intro conjI allI)
  fix u
  show "PerUserStreamCap c \<le> 0 \<or> load (\<lambda>u' _. u' = u) s' \<le> PerUserStreamCap c"
    using assms(4) [of "\<lambda>u' _. u' = u"] assms(1,2) by (cases "u = uid") (auto simp: within_caps_def below_def intro: order_trans)
next
  fix i
  show "PerChannelDefaultCap c \<le> 0 \<or> load (\<lambda>_ i'. i' = i) s' \<le> PerChannelDefaultCap c"
    using assms(4) [of "\<lambda>_ i'. i' = i"] assms(1,3) by (cases "i = cid") (auto simp: within_caps_def below_def intro: order_trans)
qed

lemma on_world_falls:
  "(\<And>w. \<forall>P. load P (wdb (snd (f w))) \<le> load P (wdb w)) \<Longrightarrow> on_world f p = (a, q) \<Longrightarrow> pload P q \<le> pload P p"
  using on_world_frame(1) [of f p] by simp

lemma mint_session_load:
  "pload P (snd (mint_session c r cid kind p)) \<le> pload P p + (if P (rq_UserID r) cid then 1 else 0)"
proof -
  obtain s p1 where e: "on_world rand_Read p = (s, p1)" by (cases "on_world rand_Read p")
  have p1: "wdb (px_world p1) = wdb (px_world p)"
    using on_world_frame(1) [of rand_Read p] e by (simp add: rand_Read_def)
  show ?thesis
  proof (cases s)
    case (Inl x)
    with e p1 show ?thesis by (simp add: mint_session_def)
  next
    case (Inr secret)
    obtain sid p2 where u: "on_world newULID p1 = (sid, p2)" by (cases "on_world newULID p1")
    have p2: "wdb (px_world p2) = wdb (px_world p)"
      using on_world_frame(1) [of newULID p1] u p1 by (simp add: newULID_def)
    let ?x = "new_session r cid sid secret"
    obtain g p3 where g: "on_world (CreateSession_row (rq_ctx r) ?x) p2 = (g, p3)"
      by (cases "on_world (CreateSession_row (rq_ctx r) ?x) p2")
    have p3: "pload P p3 \<le> pload P p + (if P (rq_UserID r) cid then 1 else 0)"
      using CreateSession_row_load [of P "rq_ctx r" ?x "px_world p2"] g p2
        on_world_frame(1) [of "CreateSession_row (rq_ctx r) ?x" p2]
      by (simp add: new_session_def)
    show ?thesis
    proof (cases g)
      case (Inl x)
      with e Inr u g p3 show ?thesis by (simp add: mint_session_def)
    next
      case (Inr y)
      obtain m p4 where m: "on_world (MarkTuned (rq_ctx r) (rq_UserID r) cid) p3 = (m, p4)"
        by (cases "on_world (MarkTuned (rq_ctx r) (rq_UserID r) cid) p3")
      have "pload P p4 \<le> pload P p3" by (rule on_world_falls [OF load_falls.R_MarkTuned [OF TrueI] m])
      with e \<open>s = Inr secret\<close> u g Inr m p3 show ?thesis by (simp add: mint_session_def)
    qed
  qed
qed

lemma allow_user_wdb: "allow_user uid p = (a, q) \<Longrightarrow> wdb (px_world q) = wdb (px_world p)"
  using allow_user_world by simp

lemma CreateSession_caps:
  assumes "CreateSession c r p = (resp, p')" "within_caps c (wdb (px_world p))"
  shows "within_caps c (wdb (px_world p'))"
proof -
  let ?uid = "rq_UserID r" and ?cid = "URLParam r ''id''" and ?ctx = "rq_ctx r"
  note caps = assms(2)
  obtain ok p1 where a: "allow_user ?uid p = (ok, p1)" by (cases "allow_user ?uid p")
  have p1: "wdb (px_world p1) = wdb (px_world p)" by (rule allow_user_wdb [OF a])
  obtain g p2 where g: "on_world (GetChannel ?ctx ?cid) p1 = (g, p2)"
    by (cases "on_world (GetChannel ?ctx ?cid) p1")
  have p2: "wdb (px_world p2) = wdb (px_world p)"
    using on_world_frame(1) [of "GetChannel ?ctx ?cid" p1] g p1 by (simp add: frame)
  obtain u p3 where u: "check_cap (PerUserStreamCap c) (CountActiveByUser ?ctx ?uid)
      ''user_cap_exceeded'' ''user stream cap '' p2 = (u, p3)"
    by (cases "check_cap (PerUserStreamCap c) (CountActiveByUser ?ctx ?uid)
      ''user_cap_exceeded'' ''user stream cap '' p2")
  have p3: "wdb (px_world p3) = wdb (px_world p)"
      "u = None \<longrightarrow> below (PerUserStreamCap c) (pload (\<lambda>u _. u = ?uid) p)"
    using check_user [OF u] p2 by simp_all
  obtain v p4 where v: "check_cap (PerChannelDefaultCap c) (CountActiveByChannel ?ctx ?cid)
      ''channel_cap_exceeded'' ''channel stream cap '' p3 = (v, p4)"
    by (cases "check_cap (PerChannelDefaultCap c) (CountActiveByChannel ?ctx ?cid)
      ''channel_cap_exceeded'' ''channel stream cap '' p3")
  have p4: "wdb (px_world p4) = wdb (px_world p)"
      "v = None \<longrightarrow> below (PerChannelDefaultCap c) (pload (\<lambda>_ i. i = ?cid) p)"
    using check_channel [OF v] p3(1) by simp_all
  have mint: "within_caps c (wdb (px_world (snd (mint_session c r ?cid kind p5))))"
    if "on_world (resolve_kind ?ctx ?cid ch) p4 = (kind, p5)" "u = None" "v = None" for ch kind p5
  proof (rule caps_plus_one [OF caps])
    show "below (PerUserStreamCap c) (pload (\<lambda>u _. u = ?uid) p)"
      "below (PerChannelDefaultCap c) (pload (\<lambda>_ i. i = ?cid) p)"
      using p3(2) p4(2) that by simp_all
    fix P
    have "pload P p5 \<le> pload P p"
      using on_world_falls [OF load_falls.R_resolve_kind that(1)] p4(1) by (simp add: load_def)
    with mint_session_load [of P c r ?cid kind p5]
    show "pload P (snd (mint_session c r ?cid kind p5)) \<le> pload P p + (if P ?uid ?cid then 1 else 0)" by linarith
  qed
  show ?thesis
    using assms(1) caps a g u v p1 p2 p3(1) p4(1) mint
    by (auto simp: CreateSession_def Let_def split: if_splits bool.splits sum.splits option.splits prod.splits)
      (metis snd_conv)
qed

section \<open>Any sequence of requests\<close>

text \<open>
  What happens to the plugin: a session is requested, a byte route is requested, or one of the
  other parts of the plugin (refresh, reaper, administration) calls the store.
\<close>

datatype sys_op =
    sysCreate request
  | sysServe client stream_route request
  | sysStore ctx store_op

fun sys_step :: "proxy_conf \<Rightarrow> sys_op \<Rightarrow> proxy \<Rightarrow> proxy" where
  "sys_step c (sysCreate r) p = snd (CreateSession c r p)"
| "sys_step c (sysServe cl route r) p = snd (serve cl route r p)"
| "sys_step c (sysStore ctx op) p = p\<lparr>px_world := exec ctx op (px_world p)\<rparr>"

definition sys_run :: "proxy_conf \<Rightarrow> sys_op list \<Rightarrow> proxy \<Rightarrow> proxy" where
  "sys_run c ops p = foldl (\<lambda>p op. sys_step c op p) p ops"

text \<open>Only \<open>CreateSession\<close> mints.\<close>

fun mint_free :: "sys_op \<Rightarrow> bool" where
  "mint_free (sysStore ctx (opCreateSession x)) = False"
| "mint_free _ = True"

lemma mint_free_store: "mint_free (sysStore ctx op) \<Longrightarrow> mints op w = None"
  by (cases op) auto

text \<open>
  The caps hold request by request. If no user and no channel is over its cap, none is after any
  sequence of session requests, byte requests and other store calls, each handled to its end,
  whatever the database and the upstreams do.
\<close>

theorem caps_hold:
  assumes "within_caps c (wdb (px_world p))" "list_all mint_free ops"
  shows "within_caps c (wdb (px_world (sys_run c ops p)))"
  using assms
proof (induction ops arbitrary: p)
  case (Cons op ops)
  have "within_caps c (wdb (px_world (sys_step c op p)))"
  proof (cases op)
    case (sysCreate r)
    with Cons.prems(1) CreateSession_caps show ?thesis by (metis prod.collapse sys_step.simps(1))
  next
    case (sysServe cl route r)
    with load_rel [OF load_falls.RP_serve Cons.prems(1)] show ?thesis by simp
  next
    case (sysStore ctx sop)
    with Cons.prems(2) have "mint_free (sysStore ctx sop)" by simp
    then have "mints sop (px_world p) = None" by (rule mint_free_store)
    with load_falls.R_exec [of sop "px_world p" ctx] sysStore load_rel Cons.prems(1) show ?thesis by simp
  qed
  from Cons.IH [OF this] Cons.prems(2) show ?case by (simp add: sys_run_def)
qed (simp add: sys_run_def)

end
