(* ===== verification/StreamAccounts.thy ===== *)
theory StreamAccounts
  imports StreamPlays "HOL-Library.Sublist"
begin

text \<open>
  The accounting of the MPEG-TS pass-through: what is delivered is a prefix of the upstream body,
  every delivered byte is added to the session exactly once, when the copying stops, and what
  becomes of the session then.
\<close>

section \<open>Bytes\<close>

text \<open>The byte counters of the active rows of a session.\<close>

definition counted :: "string \<Rightarrow> db \<Rightarrow> int list" where
  "counted sid s = map ss_bytes_streamed (filter (\<lambda>r. ss_id r = sid \<and> active r) (stream_sessions s))"

lemma touch_counted:
  assumes "list_all (\<lambda>b. in_int64 (b + n)) (counted sid s)"
  shows "\<exists>m s'. touch_session sid t n now s = (Inr m, s') \<and> counted sid s' = map (\<lambda>b. b + n) (counted sid s)"
proof -
  have ok: "\<not> list_ex (\<lambda>r. (ss_id r = sid \<and> active r) \<and> \<not> in_int64 (ss_bytes_streamed r + n)) (stream_sessions s)"
    using assms by (auto simp: counted_def list_all_iff list_ex_iff)
  let ?hit = "\<lambda>r. ss_id r = sid \<and> active r"
  let ?f = "\<lambda>r. r\<lparr>ss_last_byte_at := pg_ts t, ss_bytes_streamed := ss_bytes_streamed r + n\<rparr>"
  have "map ss_bytes_streamed (filter ?hit (sql_update ?hit ?f rs)) =
      map (\<lambda>b. b + n) (map ss_bytes_streamed (filter ?hit rs))" for rs :: "session_row list"
    by (induction rs) (auto simp: sql_update_def active_def)
  with ok show ?thesis by (auto simp: touch_session_def Let_def counted_def)
qed

lemma flush_counted:
  assumes "script w = []" "list_all (\<lambda>b. in_int64 (b + n)) (counted sid (wdb w))" "ctx \<longrightarrow> final"
  shows "script (flushCounter ctx sid n final w) = [] \<and>
    counted sid (wdb (flushCounter ctx sid n final w)) = map (\<lambda>b. b + n) (counted sid (wdb w))"
proof (cases "n = 0 \<and> \<not> final")
  case True
  with assms show ?thesis by (simp add: flushCounter_def)
next
  case False
  obtain m s' where t: "touch_session sid (wnow w) n (pg_ts (wnow w)) (wdb w) = (Inr m, s')"
    "counted sid s' = map (\<lambda>b. b + n) (counted sid (wdb w))"
    using touch_counted [OF assms(2)] by blast
  have "flushCounter ctx sid n final w = w\<lparr>wdb := s'\<rparr>"
    using False assms(1,3) t(1)
    by (auto simp: flushCounter_def UpdateSessionLastByte_def snd_wrap db_call_quiet)
  with t(2) assms(1) show ?thesis by simp
qed

text \<open>
  The invariant of the loop: what was delivered and what is left make up the body, and the
  counters hold all but the batched bytes.
\<close>

definition pump_inv :: "string \<Rightarrow> string \<Rightarrow> int list \<Rightarrow> pump_state \<Rightarrow> world \<Rightarrow> bool" where
  "pump_inv sid body bs ps w \<longleftrightarrow>
     script w = [] \<and> ps_out ps @ fst (ps_body ps) = body \<and> ps_total ps = int (length (ps_out ps)) \<and>
     0 \<le> ps_batched ps \<and> ps_batched ps \<le> ps_total ps \<and>
     counted sid (wdb w) = map (\<lambda>b. b + (ps_total ps - ps_batched ps)) bs"

definition room :: "int list \<Rightarrow> string \<Rightarrow> bool" where
  "room bs body \<longleftrightarrow> list_all (\<lambda>b. 0 \<le> b \<and> in_int64 (b + int (length body))) bs"

lemma room_flush:
  assumes "room bs body" "pump_inv sid body bs ps w" "ctx \<longrightarrow> final"
  shows "pump_inv sid body bs (ps\<lparr>ps_batched := 0, ps_lastFlush := t\<rparr>) (flushCounter ctx sid (ps_batched ps) final w)"
proof -
  have "ps_total ps \<le> int (length body)" using assms(2) by (auto simp: pump_inv_def)
  then have "list_all (\<lambda>b. in_int64 (b + ps_batched ps)) (counted sid (wdb w))"
    using assms(1,2) by (auto simp: pump_inv_def room_def list_all_iff in_int64_def)
  from flush_counted [OF _ this assms(3)] assms(2) show ?thesis
    by (auto simp: pump_inv_def comp_def)
qed

lemma pump_inv_clock [simp]: "pump_inv sid body bs ps (w\<lparr>wnow := t\<rparr>) = pump_inv sid body bs ps w"
  by (simp add: pump_inv_def)

lemma pump_inv_chunk:
  assumes "pump_inv sid body bs ps w" "chunk = chunk_of cl i (fst (ps_body ps))"
  shows "pump_inv sid body bs (ps\<lparr>ps_body := (drop (length chunk) (fst (ps_body ps)), e),
      ps_total := ps_total ps + int (length chunk), ps_batched := ps_batched ps + int (length chunk),
      ps_out := ps_out ps @ chunk\<rparr>) w"
proof -
  have "chunk @ drop (length chunk) (fst (ps_body ps)) = fst (ps_body ps)"
    unfolding assms(2) chunk_of_def by (metis append_take_drop_id length_take min.absorb_iff2 min.cobounded2 nat_le_linear take_all take_take)
  with assms(1) show ?thesis by (auto simp: pump_inv_def)
qed

lemma pump_round_next:
  assumes "room bs body" "pump_inv sid body bs ps w" "pump_round cl live sid i ps w = PNext ps' w'"
  shows "pump_inv sid body bs ps' w'"
proof -
  let ?w = "w\<lparr>wnow := wnow w + int (snd (cl_reads cl i))\<rparr>"
  let ?chunk = "chunk_of cl i (fst (ps_body ps))"
  let ?ps = "ps\<lparr>ps_body := (drop (length ?chunk) (fst (ps_body ps)), snd (ps_body ps)),
      ps_total := ps_total ps + int (length ?chunk), ps_batched := ps_batched ps + int (length ?chunk),
      ps_out := ps_out ps @ ?chunk\<rparr>"
  have I: "pump_inv sid body bs ?ps ?w" using pump_inv_chunk [OF assms(2)] by simp
  from room_flush [OF assms(1) this, of live False]
  have "pump_inv sid body bs (?ps\<lparr>ps_batched := 0, ps_lastFlush := t\<rparr>)
      (flushCounter live sid (ps_batched ?ps) False ?w)" for t by simp
  with I assms(3) show ?thesis
    by (auto simp: pump_round_def Let_def split: if_splits)
qed

text \<open>When the loop stops, nothing is left in the batch.\<close>

definition pump_done :: "string \<Rightarrow> string \<Rightarrow> int list \<Rightarrow> (string \<times> pump_state \<times> ctx) \<times> world \<Rightarrow> bool" where
  "pump_done sid body bs res \<longleftrightarrow>
     (case res of ((reason, ps, c), w) \<Rightarrow>
        script w = [] \<and> (\<exists>rest. ps_out ps @ rest = body) \<and> ps_total ps = int (length (ps_out ps)) \<and>
        counted sid (wdb w) = map (\<lambda>b. b + ps_total ps) bs)"

lemma pump_round_stop:
  assumes "room bs body" "pump_inv sid body bs ps w" "pump_round cl live sid i ps w = PStop reason ps' c w'"
  shows "pump_done sid body bs ((reason, ps', c), w')"
proof -
  have "pump_inv sid body bs (ps\<lparr>ps_batched := 0, ps_lastFlush := 0\<rparr>)
      (flushCounter c' sid (ps_batched ps) True (w\<lparr>wnow := t\<rparr>))" for c' t
    by (rule room_flush [OF assms(1)]) (use assms(2) in simp_all)
  then have "pump_done sid body bs ((reason, ps, c), flushCounter c' sid (ps_batched ps) True (w\<lparr>wnow := t\<rparr>))" for c c' t
    unfolding pump_done_def pump_inv_def by simp metis
  from this [of _ _ "wnow w"] this assms(3) show ?thesis
    by (auto simp: pump_round_def Let_def split: if_splits)
qed

lemma pumpBody_done:
  assumes "script w = []" "room (counted sid (wdb w)) (fst body)"
  shows "pump_done sid (fst body) (counted sid (wdb w)) (pumpBody cl live sid body w)"
  unfolding pumpBody_def
proof (rule pump_rule [where I = "\<lambda>i. pump_inv sid (fst body) (counted sid (wdb w))"])
  show "pump_inv sid (fst body) (counted sid (wdb w))
      \<lparr>ps_body = body, ps_total = 0, ps_batched = 0, ps_lastFlush = wnow w, ps_out = []\<rparr> w"
    using assms(1) by (simp add: pump_inv_def)
qed (fact pump_round_next [OF assms(2)] pump_round_stop [OF assms(2)])+


section \<open>The end of the session\<close>

text \<open>The identifiers of the active sessions.\<close>

definition actives :: "db \<Rightarrow> string list" where
  "actives s = map ss_id (filter active (stream_sessions s))"

lemma touch_actives: "touch_session sid t n now s = (Inr m, s') \<Longrightarrow> actives s' = actives s"
proof -
  have "map ss_id (filter active (sql_update P (\<lambda>r. r\<lparr>ss_last_byte_at := a, ss_bytes_streamed := b r\<rparr>) rs)) =
      map ss_id (filter active rs)" for P a b and rs :: "session_row list"
    by (induction rs) (auto simp: sql_update_def active_def)
  then show "touch_session sid t n now s = (Inr m, s') \<Longrightarrow> actives s' = actives s"
    by (auto simp: touch_session_def Let_def actives_def split: if_splits)
qed

lemma Update_actives: "actives (wdb (snd (UpdateSessionLastByte ctx sid t n w))) = actives (wdb w)"
proof -
  obtain a v where d: "db_call ctx (touch_session sid t n) w = (a, v)" by (cases "db_call ctx (touch_session sid t n) w")
  from db_call_wdb [OF d] have "actives (wdb v) = actives (wdb w)" by (auto dest: touch_actives)
  with d show ?thesis by (simp add: UpdateSessionLastByte_def snd_wrap)
qed

lemma flush_actives: "actives (wdb (flushCounter ctx sid n final w)) = actives (wdb w)"
  by (simp add: flushCounter_def Update_actives)

lemma script_db_call: "script w = [] \<Longrightarrow> script (snd (db_call ctx f w)) = []"
  by (auto simp: db_call_def Let_def split: prod.splits sum.splits)

lemma script_Update: "script w = [] \<Longrightarrow> script (snd (UpdateSessionLastByte ctx sid t n w)) = []"
  by (simp add: UpdateSessionLastByte_def snd_wrap script_db_call)

lemma script_flush: "script w = [] \<Longrightarrow> script (flushCounter ctx sid n final w) = []"
  by (simp add: flushCounter_def script_Update)

lemma pump_quiet:
  assumes "pumpBody cl ctx sid body w = ((reason, ps, c), w')" "script w = []"
  shows "script w' = [] \<and> actives (wdb w') = actives (wdb w)"
proof -
  let ?I = "\<lambda>v. script v = [] \<and> actives (wdb v) = actives (wdb w)"
  have "?I (snd (pumpBody cl ctx sid body w))"
    unfolding pumpBody_def
  proof (rule pump_rule [where I = "\<lambda>i ps. ?I" and J = "\<lambda>x. ?I (snd x)"])
    fix i ps ps' and v v' :: world
    assume v: "?I v"
    then have f: "?I (flushCounter c sid n final (v\<lparr>wnow := t\<rparr>))" for c n final t
      by (simp add: flush_actives script_flush)
    {
      assume "pump_round cl ctx sid i ps v = PNext ps' v'"
      then show "?I v'" using v f by (auto simp: pump_round_def Let_def split: if_splits)
    next
      fix reason c
      assume "pump_round cl ctx sid i ps v = PStop reason ps' c v'"
      then show "?I (snd ((reason, ps', c), v'))"
        using v f [of _ _ _ "wnow v"] f by (auto simp: pump_round_def Let_def split: if_splits)
    }
  qed (use assms(2) in simp)
  with assms(1) show ?thesis by simp
qed

lemma EndSession_actives:
  assumes "script w = []"
  shows "actives (wdb (snd (EndSession ctx sid reason w))) =
    (if ctx then actives (wdb w) else filter (\<lambda>i. i \<noteq> sid) (actives (wdb w)))"
proof -
  have "map ss_id (filter active (sql_update (\<lambda>r. ss_id r = sid \<and> active r)
      (\<lambda>r. r\<lparr>ss_ended_at := Some now, ss_end_reason := reason\<rparr>) rs)) =
      filter (\<lambda>i. i \<noteq> sid) (map ss_id (filter active rs))" for now and rs :: "session_row list"
    by (induction rs) (auto simp: sql_update_def active_def)
  then show ?thesis
    using assms by (auto simp: EndSession_def snd_wrap db_call_quiet end_session_def actives_def)
qed

text \<open>
  Property C28: what the end of a stream does to its session. When the body ended or the
  upstream failed, the session is no longer active. When the client went away, so that its
  request context is cancelled, the session is left active, because the call that should end it
  runs under that context; it keeps counting against the caps until the reaper finds it idle.
\<close>

theorem stream_end_session:
  assumes "NewRequest ''GET'' (ch_UpstreamURL ch) = Inr req"
    "http_Do live (req\<lparr>or_Header := hdr_SetAll hs []\<rparr>) (px_world p) = (Inr resp, w)"
    "200 \<le> rp_Status resp" "rp_Status resp < 300" "script (px_world p) = []"
    "pumpBody cl live sid (rp_Body resp) w = ((reason, ps, gone), w')"
  shows "actives (wdb (px_world (snd (stream_ts cl live sid ch hs p)))) =
    (if gone then actives (wdb (px_world p)) else filter (\<lambda>i. i \<noteq> sid) (actives (wdb (px_world p))))"
proof -
  have w: "wdb w = wdb (px_world p)" "script w = []"
    using assms(2,5) by (auto simp: http_Do_def split: prod.splits)
  note q = pump_quiet [OF assms(6) w(2)]
  let ?w'' = "if 0 < ps_total ps then snd (UpdateSessionLastByte gone sid (wnow w') 0 w') else w'"
  have w'': "script ?w'' = []" "actives (wdb ?w'') = actives (wdb (px_world p))"
    using q w by (simp_all add: Update_actives script_Update)
  have "px_world (snd (stream_ts cl live sid ch hs p)) = snd (EndSession gone sid reason ?w'')"
    using assms(1-4,6)
    by (auto simp: stream_ts_def on_world_def Let_def split: prod.splits if_splits)
  with EndSession_actives [OF w''(1), of gone sid reason] w''(2) show ?thesis by simp
qed

section \<open>A stream comes to its end\<close>

text \<open>The loop of \<open>pumpBody\<close> with a bound on its rounds: \<^const>\<open>None\<close> when they do not suffice.\<close>

fun pump_rounds :: "nat \<Rightarrow> client \<Rightarrow> ctx \<Rightarrow> string \<Rightarrow> nat \<Rightarrow> pump_state \<Rightarrow> world \<Rightarrow>
    ((string \<times> pump_state \<times> ctx) \<times> world) option" where
  "pump_rounds 0 cl ctx sid i ps w = None"
| "pump_rounds (Suc n) cl ctx sid i ps w =
     (case pump_round cl ctx sid i ps w of
        PStop reason ps ctx w \<Rightarrow> Some ((reason, ps, ctx), w)
      | PNext ps w \<Rightarrow> pump_rounds n cl ctx sid (Suc i) ps w)"

text \<open>How many rounds there can be: the client goes before one of them, or every one of them takes a byte.\<close>

definition goes :: "client \<Rightarrow> nat set" where
  "goes cl = set_option (cl_cancel cl) \<union> set_option (cl_cut cl) \<union> set_option (cl_gone cl)"

definition rounds_left :: "client \<Rightarrow> nat \<Rightarrow> string \<Rightarrow> nat" where
  "rounds_left cl i body =
     Min (insert (length body) ((\<lambda>k. k - i) ` {k \<in> goes cl. i \<le> k}))"

lemma finite_goes: "finite {k \<in> goes cl. i \<le> k}"
  by (rule finite_subset [of _ "goes cl"]) (auto simp: goes_def)

lemma rounds_left_next:
  assumes "pump_round cl ctx sid i ps w = PNext ps' w'"
  shows "rounds_left cl (Suc i) (fst (ps_body ps')) < rounds_left cl i (fst (ps_body ps))"
proof -
  let ?K = "{k \<in> goes cl. i \<le> k}"
    and ?K' = "{k \<in> goes cl. Suc i \<le> k}"
  have short: "length (fst (ps_body ps')) < length (fst (ps_body ps))" by (rule pump_round_shorter [OF assms])
  have "i \<notin> goes cl"
    using assms by (auto simp: goes_def pump_round_def Let_def elim!: option.set_cases split: if_splits)
  then have later: "Suc i \<le> k" if "k \<in> ?K" for k using that by (cases "i = k") auto
  have "rounds_left cl i (fst (ps_body ps)) \<in> insert (length (fst (ps_body ps))) ((\<lambda>k. k - i) ` ?K)"
    unfolding rounds_left_def by (rule Min_in) (simp_all add: finite_goes)
  then consider "rounds_left cl i (fst (ps_body ps)) = length (fst (ps_body ps))"
    | k where "k \<in> ?K" "rounds_left cl i (fst (ps_body ps)) = k - i" by auto
  then show ?thesis
  proof cases
    case 1
    have "rounds_left cl (Suc i) (fst (ps_body ps')) \<le> length (fst (ps_body ps'))"
      unfolding rounds_left_def by (rule Min_le) (simp_all add: finite_goes)
    with 1 short show ?thesis by simp
  next
    case 2
    have "rounds_left cl (Suc i) (fst (ps_body ps')) \<le> k - Suc i"
      unfolding rounds_left_def by (rule Min_le) (use 2 later in \<open>auto simp: finite_goes\<close>)
    with 2 later [of k] show ?thesis by simp
  qed
qed

text \<open>
  Property C38: a stream comes to its end. From any point of a body and whatever the upstream sent,
  the copy loop returns: after no more rounds than there are bytes left, plus one, and, once the
  client has cancelled or gone, in the very round that finds out.
\<close>

theorem stream_ends:
  assumes "rounds_left cl i (fst (ps_body ps)) < n"
  shows "pump_rounds n cl ctx sid i ps w = Some (pump cl ctx sid i ps w)"
  using assms
proof (induction n arbitrary: i ps w)
  case (Suc n)
  show ?case
  proof (cases "pump_round cl ctx sid i ps w")
    case (PStop reason ps' c w')
    then show ?thesis by (simp add: pump.simps)
  next
    case (PNext ps' w')
    from rounds_left_next [OF PNext] Suc.prems have "rounds_left cl (Suc i) (fst (ps_body ps')) < n" by simp
    from Suc.IH [OF this] PNext show ?thesis by (simp add: pump.simps [of cl ctx sid i])
  qed
qed simp

text \<open>A client that leaves before the third read of a body of twenty bytes, three at a time.\<close>

theorem stream_ends_witness:
  "pump_rounds 3 (demo_client\<lparr>cl_gone := Some 2\<rparr>) live ''S'' 0
     \<lparr>ps_body = (replicate 20 (CHR ''x''), None), ps_total = 0, ps_batched = 0, ps_lastFlush = 0, ps_out = []\<rparr> demo_world =
   Some (pump (demo_client\<lparr>cl_gone := Some 2\<rparr>) live ''S'' 0
     \<lparr>ps_body = (replicate 20 (CHR ''x''), None), ps_total = 0, ps_batched = 0, ps_lastFlush = 0, ps_out = []\<rparr> demo_world)"
  by (rule stream_ends) (simp add: rounds_left_def goes_def demo_client_def)

end
