(* ===== verification/StreamDelivery.thy ===== *)
theory StreamDelivery
  imports StreamAccounts
begin

text \<open>
  A signed segment link delivers: the handler of the segment route on the path where everything
  is in order; and runs of the handlers on concrete inputs, where the hypotheses of the theorems
  on the stream proxy hold.
\<close>

section \<open>Segments\<close>

text \<open>The headers configured for the source of a channel.\<close>

definition source_headers_of :: "db \<Rightarrow> string \<Rightarrow> smap" where
  "source_headers_of s sid =
     (if sid = [] then []
      else case find (\<lambda>r. sr_id r = sid) (m3u_sources s) of None \<Rightarrow> [] | Some r \<Rightarrow> sr_http_headers r)"

lemma find_set: "find P xs = Some x \<Longrightarrow> x \<in> set xs \<and> P x"
  by (auto simp: find_Some_iff)

lemma GetSession_quiet:
  "script w = [] \<Longrightarrow> find (\<lambda>r. ss_id r = sid) (stream_sessions (wdb w)) = Some row \<Longrightarrow>
   GetSession live sid w = (Inr (scanSession row), w)"
  by (simp add: GetSession_def db_call_quiet sql_row_def)

lemma GetChannel_quiet:
  "script w = [] \<Longrightarrow> find (\<lambda>r. ch_ID r = cid) (channels (wdb w)) = Some row \<Longrightarrow>
   GetChannel live cid w = (Inr (scanChannelRow False row), w)"
  by (simp add: GetChannel_def db_call_quiet sql_row_def)

lemma sourceHeaders_quiet:
  "script w = [] \<Longrightarrow> sourceHeaders live sid w = (source_headers_of (wdb w) sid, w)"
  by (cases "find (\<lambda>r. sr_id r = sid) (m3u_sources (wdb w))")
    (simp_all add: sourceHeaders_def GetM3USource_def db_call_quiet sql_row_def source_headers_of_def
      scanM3USource_def err_no_rows_def wrapf_def err_not_found_def)

lemma on_world_eq: "f (px_world p) = (a, px_world p) \<Longrightarrow> on_world f p = (a, p)"
  by (simp add: on_world_def)

lemma verifyToken_quiet:
  assumes "script (px_world p) = []" "\<not> rq_ctx r"
    "find (\<lambda>x. ss_id x = ss_id row) (stream_sessions (wdb (px_world p))) = Some row"
    "authorised route r row"
  shows "verifyToken r p = (Inr (ss_id row, scanSession row), p)"
proof -
  have "on_world (GetSession live (ss_id row)) p = (Inr (scanSession row), p)"
    by (rule on_world_eq) (rule GetSession_quiet [OF assms(1,3)])
  with assms show ?thesis by (auto simp: verifyToken_def authorised_def active_def)
qed

text \<open>The request a segment is fetched with.\<close>

definition segment_request :: "db \<Rightarrow> channel_row \<Rightarrow> string \<Rightarrow> err + http_req" where
  "segment_request s ch uri =
     (case NewRequest ''GET'' uri of
        Inl e \<Rightarrow> Inl e
      | Inr req \<Rightarrow> Inr (req\<lparr>or_Header := hdr_SetAll (source_headers_of s (ch_SourceM3UID ch)) []\<rparr>))"

lemma fetch_segment_ok:
  assumes "script (px_world p) = []" "segment_request (wdb (px_world p)) ch uri = Inr req"
    "upstream (px_world p) (length (sent (px_world p))) req = (d, Inr resp)"
    "200 \<le> rp_Status resp" "rp_Status resp < 300" "cl_gone cl = None"
    "list_all (\<lambda>b. in_int64 (b + int (length (fst (rp_Body resp))))) (counted sid (wdb (px_world p)))"
  shows "\<exists>resp' p'. fetch_segment cl live sid uri (source_headers_of (wdb (px_world p)) (ch_SourceM3UID ch)) p = (resp', p') \<and>
    rs_Status resp' = 200 \<and> rs_Body resp' = fst (rp_Body resp) \<and>
    sent (px_world p') = sent (px_world p) @ [req] \<and>
    counted sid (wdb (px_world p')) = map (\<lambda>b. b + int (length (fst (rp_Body resp)))) (counted sid (wdb (px_world p)))"
proof -
  obtain req0 where r: "NewRequest ''GET'' uri = Inr req0"
    "req = req0\<lparr>or_Header := hdr_SetAll (source_headers_of (wdb (px_world p)) (ch_SourceM3UID ch)) []\<rparr>"
    using assms(2) by (auto simp: segment_request_def split: sum.splits)
  let ?w = "(px_world p)\<lparr>wnow := wnow (px_world p) + int d, sent := sent (px_world p) @ [req]\<rparr>"
  let ?n = "int (length (fst (rp_Body resp)))"
  have d: "on_world (http_Do live req) p = (Inr resp, p\<lparr>px_world := ?w\<rparr>)"
    using assms(3) by (simp add: on_world_def http_Do_def)
  obtain m s' where t: "touch_session sid (wnow ?w) ?n (pg_ts (wnow ?w)) (wdb ?w) = (Inr m, s')"
    "counted sid s' = map (\<lambda>b. b + ?n) (counted sid (wdb ?w))"
    using touch_counted [of ?n sid "wdb ?w" "wnow ?w" "pg_ts (wnow ?w)"] assms(7) by auto
  have u: "snd (UpdateSessionLastByte live sid (wnow ?w) ?n ?w) = ?w\<lparr>wdb := s'\<rparr>"
    using t(1) assms(1) by (simp add: UpdateSessionLastByte_def snd_wrap db_call_quiet)
  show ?thesis
    using r d u t(2) assms(4-6)
    by (cases "fst (rp_Body resp) = []")
      (auto simp: fetch_segment_def Let_def copied_def frame response0_def)
qed

lemma with_stream_ok:
  assumes "TryAcquire (px_stream p) = (True, s)" "body (p\<lparr>px_stream := s\<rparr>) = (r, q)"
  shows "with_stream busy body p = (r, q\<lparr>px_stream := Release (px_stream q)\<rparr>)"
  using assms by (simp add: with_stream_def)

lemma with_upstream_ok:
  assumes "TryAcquire (px_upstream p) = (True, s)" "body (p\<lparr>px_upstream := s\<rparr>) = (r, q)"
  shows "with_upstream busy body p = (r, q\<lparr>px_upstream := Release (px_upstream q)\<rparr>)"
  using assms by (simp add: with_upstream_def)

text \<open>Everything a segment request needs is there.\<close>

definition segment_ready :: "request \<Rightarrow> proxy \<Rightarrow> session_row \<Rightarrow> channel_row \<Rightarrow> string \<Rightarrow> http_req \<Rightarrow> http_resp \<Rightarrow> bool" where
  "segment_ready r p row ch uri req resp \<longleftrightarrow>
     script (px_world p) = [] \<and> \<not> rq_ctx r \<and>
     find (\<lambda>x. ss_id x = ss_id row) (stream_sessions (wdb (px_world p))) = Some row \<and>
     authorised routeSegment r row \<and>
     VerifySegment (wnow (px_world p)) (ss_session_secret row) (Query r ''u'') = Inr uri \<and>
     fst (allow_user (ss_user_id row) p) \<and> fst (TryAcquire (px_stream p)) \<and> fst (TryAcquire (px_upstream p)) \<and>
     find (\<lambda>x. ch_ID x = ss_channel_id row) (channels (wdb (px_world p))) = Some ch \<and>
     segment_request (wdb (px_world p)) ch uri = Inr req \<and>
     snd (upstream (px_world p) (length (sent (px_world p))) req) = Inr resp \<and>
     200 \<le> rp_Status resp \<and> rp_Status resp < 300 \<and>
     list_all (\<lambda>b. in_int64 (b + int (length (fst (rp_Body resp))))) (counted (ss_id row) (wdb (px_world p)))"

lemma segment_ready_delivers:
  assumes "segment_ready r p row ch uri req resp" "cl_gone cl = None"
  shows "\<exists>resp' p'. ProxyHLSSegment cl r p = (resp', p') \<and> rs_Status resp' = 200 \<and>
    rs_Body resp' = fst (rp_Body resp) \<and> sent (px_world p') = sent (px_world p) @ [req] \<and>
    counted (ss_id row) (wdb (px_world p')) =
      map (\<lambda>b. b + int (length (fst (rp_Body resp)))) (counted (ss_id row) (wdb (px_world p)))"
proof -
  let ?w = "px_world p" and ?sid = "ss_id row"
  note a = assms(1) [unfolded segment_ready_def]
  have v: "verifyToken r p = (Inr (?sid, scanSession row), p)"
    by (rule verifyToken_quiet [where route = routeSegment]) (use a in simp_all)
  have url: "URLParam r ''session_id'' = ?sid"
    using a by (simp add: authorised_def url_session_def)
  obtain lim where l: "allow_user (ss_user_id row) p = (True, p\<lparr>px_limiter := lim\<rparr>)"
    using a by (auto simp: allow_user_def split: prod.splits)
  obtain st where st: "TryAcquire (px_stream p) = (True, st)" using a by (cases "TryAcquire (px_stream p)") auto
  obtain up where up: "TryAcquire (px_upstream p) = (True, up)" using a by (cases "TryAcquire (px_upstream p)") auto
  obtain d where d: "upstream ?w (length (sent ?w)) req = (d, Inr resp)"
    using a by (cases "upstream ?w (length (sent ?w)) req") auto
  have "VerifySegment t k [] \<noteq> Inr x" for t k x by (simp add: VerifySegment_def split2_def)
  then have u: "Query r ''u'' \<noteq> []" using a by metis
  let ?q = "p\<lparr>px_limiter := lim, px_stream := st\<rparr>" and ?hs = "source_headers_of (wdb ?w) (ch_SourceM3UID ch)"
  have g: "on_world (GetChannel live (ss_channel_id row)) ?q = (Inr (scanChannelRow False ch), ?q)"
    by (rule on_world_eq) (use a in \<open>simp add: GetChannel_quiet\<close>)
  have h: "on_world (sourceHeaders live (ch_SourceM3UID ch)) ?q = (?hs, ?q)"
    by (rule on_world_eq) (use a in \<open>simp add: sourceHeaders_quiet\<close>)
  obtain resp' p' where f: "fetch_segment cl live ?sid uri ?hs (?q\<lparr>px_upstream := up\<rparr>) = (resp', p')"
    "rs_Status resp' = 200" "rs_Body resp' = fst (rp_Body resp)" "sent (px_world p') = sent ?w @ [req]"
    "counted ?sid (wdb (px_world p')) = map (\<lambda>b. b + int (length (fst (rp_Body resp)))) (counted ?sid (wdb ?w))"
    using fetch_segment_ok [of "?q\<lparr>px_upstream := up\<rparr>" ch uri req d resp cl ?sid] a d assms(2) by auto
  have src: "ch_SourceM3UID (scanChannelRow False ch) = ch_SourceM3UID ch"
    by (simp add: scanChannelRow_def channel_row.defs)
  note w1 = with_upstream_ok [of ?q up "fetch_segment cl live ?sid uri ?hs", OF _ f(1)]
  show ?thesis
    using a v url u l st up g h f(2-) w1 src
    by (simp add: ProxyHLSSegment_def Let_def with_stream_def)
qed


section \<open>The theorems at work\<close>

definition seg_query :: string where
  "seg_query = ''u='' @ SignSegment ''key'' ''http://u/s.ts'' (5 * second) @ ''&token='' @ tokenValue ''S1'' ''key''"

definition seg_request :: request where
  "seg_request = demo_request [(''session_id'', ''S1'')] seg_query"

lemma seg_query_parsed:
  "ParseQuery seg_query = [(''u'', SignSegment ''key'' ''http://u/s.ts'' (5 * second)), (''token'', tokenValue ''S1'' ''key'')]"
proof -
  have "list_all url_plain (tokenValue ''S1'' ''key'')"
    by (rule tokenValue_plain) (simp add: alnum_def is_digit_def is_upper_def)
  from link_query [OF SignSegment_plain this] show ?thesis by (simp only: seg_query_def)
qed

lemma seg_token: "splitToken (tokenValue ''S1'' ''key'') = Inr (''S1'', ''key'')"
  by (rule split_tokenValue) simp_all

lemma seg_authorised: "authorised routeSegment seg_request demo_session"
proof -
  have "tokenValue ''S1'' ''key'' \<noteq> []" by (simp add: tokenValue_def)
  then have "extractToken seg_request = Some (tokenValue ''S1'' ''key'')"
    by (simp add: extractToken_def seg_request_def demo_request_def Query_def seg_query_parsed query_Get_def
        hdr_Get_def has_prefix_def)
  then show ?thesis
    by (simp add: authorised_def active_def demo_session_def seg_token url_session_def seg_request_def
        demo_request_def URLParam_def)
qed

lemma seg_verified: "VerifySegment 0 ''key'' (Query seg_request ''u'') = Inr ''http://u/s.ts''"
proof -
  have "utf8_valid ''http://u/s.ts''" by (rule utf8_valid_ascii) (simp add: is_ascii_def)
  then show ?thesis
    by (simp add: Query_def seg_request_def demo_request_def seg_query_parsed query_Get_def verify_signed
        unix_def second_def in_int64_def)
qed

definition seg_upstream_request :: http_req where
  "seg_upstream_request = (case NewRequest ''GET'' ''http://u/s.ts'' of Inr req \<Rightarrow> req)"

lemma seg_upstream: "segment_request demo_db (demo_row ''a'' ''A'' 0) ''http://u/s.ts'' = Inr seg_upstream_request"
  by code_simp

abbreviation seg_proxy :: proxy where
  "seg_proxy \<equiv> demo_proxy [demo_session]"

abbreviation seg_response :: http_resp where
  "seg_response \<equiv> \<lparr>rp_Status = 200, rp_Header = [], rp_Body = (''GGGG'', None)\<rparr>"

lemma seg_world:
  "script (px_world seg_proxy) = []" "wdb (px_world seg_proxy) = demo_db\<lparr>stream_sessions := [demo_session]\<rparr>"
  "wnow (px_world seg_proxy) = 0" "upstream (px_world seg_proxy) = demo_upstream" "sent (px_world seg_proxy) = []"
  "px_stream seg_proxy = Some \<lparr>cap = 2, cur = 0\<rparr>" "px_upstream seg_proxy = Some \<lparr>cap = 2, cur = 0\<rparr>"
  by (simp_all add: demo_proxy_def initGuards_def demo_world_def newSemaphore_def demo_limits_def)

lemma seg_allowed: "fst (allow_user ''u'' (demo_proxy ss))"
  by (simp add: allow_user_def demo_proxy_def initGuards_def demo_world_def demo_limits_def Allow_def
      newRateLimiter_def fresh_bucket_def tb_allow_def tb_refill_def tb_init_def Let_def split: prod.split)

lemma demo_session_simps [simp]:
  "ss_id demo_session = ''S1''" "ss_user_id demo_session = ''u''" "ss_channel_id demo_session = ''a''"
  "ss_session_secret demo_session = ''key''" "active demo_session" "ss_bytes_streamed demo_session = 0"
  by (simp_all add: demo_session_def active_def)

lemma seg_ready:
  "segment_ready seg_request seg_proxy demo_session (demo_row ''a'' ''A'' 0) ''http://u/s.ts'' seg_upstream_request
    seg_response"
  unfolding segment_ready_def seg_world
proof (intro conjI)
  show "fst (allow_user (ss_user_id demo_session) seg_proxy)"
    using seg_allowed by simp
  show "authorised routeSegment seg_request demo_session" by (rule seg_authorised)
  show "VerifySegment 0 (ss_session_secret demo_session) (Query seg_request ''u'') = Inr ''http://u/s.ts''"
    using seg_verified by simp
  show "segment_request (demo_db\<lparr>stream_sessions := [demo_session]\<rparr>) (demo_row ''a'' ''A'' 0) ''http://u/s.ts'' =
      Inr seg_upstream_request"
  proof -
    have "source_headers_of (demo_db\<lparr>stream_sessions := [demo_session]\<rparr>) = source_headers_of demo_db"
      by (simp add: fun_eq_iff source_headers_of_def)
    then show ?thesis using seg_upstream by (simp only: segment_request_def)
  qed
  show "list_all (\<lambda>b. in_int64 (b + int (length (fst (rp_Body seg_response)))))
      (counted (ss_id demo_session) (demo_db\<lparr>stream_sessions := [demo_session]\<rparr>))"
    by (simp add: counted_def in_int64_def)
qed (simp_all add: seg_request_def demo_request_def TryAcquire_def demo_upstream_def demo_db_def demo_row_def)


text \<open>A request without a token, on a database with an active session.\<close>

definition bare_request :: request where
  "bare_request = demo_request [(''session_id'', ''S1.ts'')] []"

theorem unauthorised_no_effect_witness:
  "untouched seg_proxy (snd (serve demo_client routeTS bare_request seg_proxy))"
proof -
  have n: "extractToken bare_request = None"
    by (simp add: extractToken_def bare_request_def demo_request_def Query_def query_Get_def ParseQuery_def
        hdr_Get_def query_pair_def map_filter_def cut_def split2_def Let_def has_prefix_def)
  then have "list_all (\<lambda>row. \<not> authorised routeTS bare_request row) (stream_sessions (wdb (px_world seg_proxy)))"
    by (simp add: authorised_def list_all_iff)
  from unauthorised_no_effect [OF this] show ?thesis by (metis prod.collapse)
qed

theorem no_slot_leaks_witness:
  "px_stream (snd (serve demo_client routeSegment seg_request seg_proxy)) = px_stream seg_proxy"
  using no_slot_leaks [of seg_proxy demo_client routeSegment seg_request]
  by (metis prod.collapse seg_world(6,7) sem_ok_def option.simps(5) semaphore.select_convs(2) order_refl)


theorem caps_hold_witness:
  "within_caps demo_conf (wdb (px_world (sys_run demo_conf
     [sysCreate (demo_request [(''id'', ''a'')] []), sysServe demo_client routeTS bare_request] seg_proxy)))"
proof (rule caps_hold)
  have "load P (demo_db\<lparr>stream_sessions := [demo_session]\<rparr>) \<le> 1" for P
    by (simp add: load_def sql_count_def)
  then show "within_caps demo_conf (wdb (px_world seg_proxy))"
    by (simp add: within_caps_def seg_world demo_conf_def)
qed simp

lemma demo_sound: "sound_ids (px_world (demo_proxy ss))"
proof -
  have "list_all alnum (dec_digits n)" for n
    using dec_digits_digits [of n] by (auto simp: list_all_iff alnum_def)
  then show ?thesis
    by (simp add: sound_ids_def demo_proxy_def initGuards_def demo_world_def alnum_def is_lower_def)
qed

lemma demo_proxy_simps:
  "script (px_world (demo_proxy ss)) = []" "wdb (px_world (demo_proxy ss)) = demo_db\<lparr>stream_sessions := ss\<rparr>"
  "ulid (px_world (demo_proxy ss)) = (\<lambda>n. ''id'' @ dec_digits n)" "ulid_next (px_world (demo_proxy ss)) = 0"
  "entropy (px_world (demo_proxy ss)) = (\<lambda>n. Inr (replicate 32 (CHR ''k'')))"
  by (simp_all add: demo_proxy_def initGuards_def demo_world_def)

lemma demo_created: "rs_Status (fst (CreateSession demo_conf (demo_request [(''id'', ''a'')] []) (demo_proxy []))) = 200"
proof -
  let ?r = "demo_request [(''id'', ''a'')] []"
  have st: "rs_Status (session_created c kind sid v t) = 200" for c kind sid v t
    by (simp add: session_created_def Let_def response0_def)
  have r: "rq_UserID ?r = ''u''" "URLParam ?r ''id'' = ''a''" "rq_ctx ?r = live"
    by (simp_all add: demo_request_def URLParam_def)
  obtain p1 where a: "allow_user ''u'' (demo_proxy []) = (True, p1)"
    using seg_allowed [of "[]"] by (cases "allow_user ''u'' (demo_proxy [])") auto
  note w = allow_user_world [OF a]
  have g: "on_world (GetChannel live ''a'') p1 = (Inr (scanChannelRow False (demo_row ''a'' ''A'' 0)), p1)"
    by (rule on_world_eq, rule GetChannel_quiet) (simp_all add: w demo_proxy_simps demo_db_def demo_row_def)
  have u: "on_world (CountActiveByUser live x) p1 = (Inr 0, p1)" "on_world (CountActiveByChannel live x) p1 = (Inr 0, p1)" for x
    by (rule on_world_eq, simp add: CountActiveByUser_def CountActiveByChannel_def db_call_quiet sql_read_def
        sql_count_def w demo_proxy_simps demo_db_def)+
  have ch: "EffectiveEnabled (scanChannelRow False (demo_row ''a'' ''A'' 0))"
      "ch_UpstreamKind (scanChannelRow False (demo_row ''a'' ''A'' 0)) = ''hls''"
    by (simp_all add: scanChannelRow_def demo_row_def eff_enabled_def channel_row.defs)
  have k: "on_world (resolve_kind live ''a'' (scanChannelRow False (demo_row ''a'' ''A'' 0))) p1 = (''hls'', p1)"
    by (rule on_world_eq) (simp add: resolve_kind_def ch)
  have "rs_Status (fst (mint_session demo_conf ?r ''a'' ''hls'' p1)) = 200"
    by (simp add: mint_session_def on_world_def rand_Read_def newULID_def w demo_proxy_simps st r
        CreateSession_row_def new_session_def Let_def db_call_quiet insert_session_def session_to_row_def
        demo_db_def demo_row_def GetSession_quiet split: prod.split sum.split)
  then show ?thesis
    by (simp add: CreateSession_def r a g ch check_cap_def u k demo_conf_def Let_def del: fst_conv split: prod.split)
qed



text \<open>A client that stays.\<close>

lemma client_stays:
  assumes "pumpBody cl live sid body w = ((reason, ps, c), w')"
    "cl_cancel cl = None" "cl_cut cl = None" "cl_gone cl = None"
  shows "\<not> c"
proof -
  have "\<not> snd (snd (fst (pumpBody cl live sid body w)))"
    unfolding pumpBody_def
    by (rule pump_rule [where I = "\<lambda>_ _ _. True" and J = "\<lambda>x. \<not> snd (snd (fst x))"])
      (use assms(2-4) in \<open>auto simp: pump_round_def Let_def split: if_splits\<close>)
  with assms(1) show ?thesis by simp
qed

theorem stream_end_session_witness:
  "actives (wdb (px_world (snd (stream_ts demo_client live ''S1'' (scanChannelRow False (demo_row ''a'' ''A'' 0)) []
     seg_proxy)))) = []"
proof -
  let ?ch = "scanChannelRow False (demo_row ''a'' ''A'' 0)"
  have u: "ch_UpstreamURL ?ch = ''http://u/a''" by (simp add: scanChannelRow_def demo_row_def channel_row.defs)
  obtain req where req: "NewRequest ''GET'' (ch_UpstreamURL ?ch) = Inr req"
    unfolding u by (cases "NewRequest ''GET'' ''http://u/a''") (simp, code_simp)
  obtain w where w: "http_Do live (req\<lparr>or_Header := hdr_SetAll [] []\<rparr>) (px_world seg_proxy) = (Inr seg_response, w)"
    by (simp add: http_Do_def seg_world demo_upstream_def)
  obtain reason ps c w' where h: "pumpBody demo_client live ''S1'' (rp_Body seg_response) w = ((reason, ps, c), w')"
    by (metis prod.exhaust)
  have "\<not> c" by (rule client_stays [OF h]) (simp_all add: demo_client_def)
  with stream_end_session [OF req w _ _ seg_world(1) h] show ?thesis
    by (simp add: actives_def seg_world)
qed

end
