(* ===== verification/RefreshM3U.thy ===== *)
theory RefreshM3U
  imports StoreInvariant M3u "HOL-Library.Sublist"
begin

text \<open>
  The M3U refresh worker, \<open>src/internal/refresh/m3u.go\<close>: a conditional GET of the playlist, its
  parsing, one upsert per entry, the soft-disabling of what the playlist no longer lists, and
  the status of the source. Every statement may fail on its own; nothing is wrapped in a
  transaction. The theory shows that a successful refresh makes the enabled catalogue of the
  source the playlist, that a failed one keeps the validators of the conditional GET, and that no
  refresh touches an administrator's override.
\<close>

section \<open>Identifiers\<close>

definition slug_char :: "char \<Rightarrow> bool" where
  "slug_char c \<longleftrightarrow> is_lower c \<or> is_digit c"

text \<open>\<open>slugRegex.ReplaceAllString(s, "-")\<close>.\<close>

function dash_runs :: "string \<Rightarrow> string" where
  "dash_runs [] = []"
| "dash_runs (c # s) =
     (if slug_char c then c # dash_runs s
      else CHR ''-'' # dash_runs (dropWhile (\<lambda>d. \<not> slug_char d) s))"
  by pat_completeness auto
termination
  by (relation "measure length") (auto simp: length_dropWhile_le le_imp_less_Suc)

definition slug :: "(string \<Rightarrow> string) \<Rightarrow> string \<Rightarrow> string" where
  "slug uni s = trim_both {CHR ''-''} (dash_runs (go_ToLower uni s))"

definition sha8 :: "string \<Rightarrow> string" where
  "sha8 s = take 8 (hex_EncodeToString (sha256 s))"

definition entry_id :: "(string \<Rightarrow> string) \<Rightarrow> entry \<Rightarrow> string" where
  "entry_id uni e =
     (if TvgID e = [] then ''name:'' @ slug uni (Title e) @ '':'' @ sha8 (URL e) else TvgID e)"

text \<open>The \<open>store.Channel\<close> literal; fields it leaves out are zero.\<close>

definition entry_channel :: "string \<Rightarrow> string \<Rightarrow> entry \<Rightarrow> channel_row" where
  "entry_channel sid cid e =
     \<lparr>ch_ID = [], ch_SourceM3UID = sid, ch_SourceChannelID = cid, ch_DisplayName = Title e,
      ch_LogoURL = TvgLogo e, ch_UpstreamURL = URL e, ch_UpstreamKind = [],
      ch_ChannelNumberSrc = TvgChno e, ch_ChannelNumberAdmin = None, ch_GroupTitleSrc = GroupTitle e,
      ch_GroupTitleAdmin = None, ch_Attrs = Attrs e, ch_EnabledSrc = False, ch_EnabledAdmin = None,
      ch_Position = 0\<rparr>"

section \<open>Fetching\<close>

text \<open>The request of a refresh: the configured headers, then the validators.\<close>

definition conditional_headers :: "'a M3USource_scheme \<Rightarrow> smap" where
  "conditional_headers src =
     (let h = hdr_SetAll (src_HTTPHeaders src) [];
          h = (if src_ETag src = [] then h else hdr_Set ''If-None-Match'' (src_ETag src) h)
      in if src_LastModified src = [] then h else hdr_Set ''If-Modified-Since'' (src_LastModified src) h)"

definition source_request :: "'a M3USource_scheme \<Rightarrow> err + http_req" where
  "source_request src =
     (case NewRequest ''GET'' (src_URL src) of
        Inl e \<Rightarrow> Inl e
      | Inr req \<Rightarrow> Inr (req\<lparr>or_Header := conditional_headers src\<rparr>))"

section \<open>One source\<close>

definition error_status :: "err \<Rightarrow> string" where
  "error_status e = ''error: '' @ emsg e"

text \<open>The upserts, in playlist order; the ids seen, or the first failure.\<close>

fun upsert_entries :: "ctx \<Rightarrow> string \<Rightarrow> entry list \<Rightarrow> world \<Rightarrow> (err + string list) \<times> world" where
  "upsert_entries ctx sid [] w = (Inr [], w)"
| "upsert_entries ctx sid (e # es) w =
     (let cid = entry_id (uni_lower w) e in
      case UpsertChannelFromM3U ctx (entry_channel sid cid e) w of
        (Inl x, w) \<Rightarrow> (Inl x, w)
      | (Inr _, w) \<Rightarrow>
          (case upsert_entries ctx sid es w of
             (Inl x, w) \<Rightarrow> (Inl x, w)
           | (Inr seen, w) \<Rightarrow> (Inr (cid # seen), w)))"

text \<open>A failure is written to the source, best effort, with the old validators; then returned.\<close>

definition m3u_failed :: "ctx \<Rightarrow> M3USource \<Rightarrow> string \<Rightarrow> string \<Rightarrow> err \<Rightarrow> time \<Rightarrow> world \<Rightarrow> (err + unit) \<times> world" where
  "m3u_failed ctx src sid st e now w =
     (let (_, w) = MarkM3UStatus ctx sid st (src_ETag src) (src_LastModified src) now w in (Inl e, w))"

definition store_playlist ::
  "ctx \<Rightarrow> M3USource \<Rightarrow> string \<Rightarrow> http_resp \<Rightarrow> entry list \<Rightarrow> time \<Rightarrow> world \<Rightarrow> (err + unit) \<times> world" where
  "store_playlist ctx src sid resp es now w =
     (case upsert_entries ctx sid es w of
        (Inl e, w) \<Rightarrow> m3u_failed ctx src sid (error_status e) (wrapf ''upsert channel'' e) now w
      | (Inr seen, w) \<Rightarrow>
          (case MarkChannelsMissing ctx sid seen w of
             (Inl e, w) \<Rightarrow> m3u_failed ctx src sid (error_status e) (wrapf ''mark missing'' e) now w
           | (Inr _, w) \<Rightarrow>
               wrap_err ''mark status'' (MarkM3UStatus ctx sid ''ok'' (hdr_Get ''ETag'' (rp_Header resp))
                 (hdr_Get ''Last-Modified'' (rp_Header resp)) now w)))"

definition M3U_RefreshOne :: "ctx \<Rightarrow> string \<Rightarrow> world \<Rightarrow> (err + unit) \<times> world" where
  "M3U_RefreshOne ctx sid w =
     (case GetM3USource ctx sid w of
        (Inl e, w) \<Rightarrow> (Inl (wrapf ''get m3u source'' e), w)
      | (Inr src, w) \<Rightarrow>
          (case source_request src of
             Inl e \<Rightarrow> m3u_failed ctx src sid (error_status e) (wrapf ''build request'' e) (wnow w) w
           | Inr req \<Rightarrow>
               (case http_Do ctx req w of
                  (Inl e, w) \<Rightarrow> m3u_failed ctx src sid (error_status e) (wrapf ''http get'' e) (wnow w) w
                | (Inr resp, w) \<Rightarrow>
                    let now = wnow w in
                    if rp_Status resp = 304 then
                      wrap_err ''mark status''
                        (MarkM3UStatus ctx sid ''ok'' (src_ETag src) (src_LastModified src) now w)
                    else if rp_Status resp < 200 \<or> 300 \<le> rp_Status resp then
                      m3u_failed ctx src sid (''error: HTTP '' @ itoa (rp_Status resp))
                        (Err OtherErr (''http '' @ itoa (rp_Status resp))) now w
                    else
                      let body = LimitBody (rp_Body resp) PlaylistMaxBytes in
                      case m3u_Parse (fst body) (snd body) of
                        Inl e \<Rightarrow> m3u_failed ctx src sid (error_status e) (wrapf ''parse m3u'' e) now w
                      | Inr es \<Rightarrow> store_playlist ctx src sid resp es now w)))"

section \<open>All sources\<close>

text \<open>\<open>errors.Join\<close>: \<open>nil\<close> without errors, otherwise their messages on lines of their own.\<close>

fun join_lines :: "string list \<Rightarrow> string" where
  "join_lines [] = []"
| "join_lines [x] = x"
| "join_lines (x # xs) = x @ LF # join_lines xs"

definition errors_Join :: "err list \<Rightarrow> err + unit" where
  "errors_Join es = (if es = [] then Inr () else Inl (Err OtherErr (join_lines (map emsg es))))"

text \<open>The loop over the sources; the errors in order.\<close>

fun refresh_each :: "(string \<Rightarrow> world \<Rightarrow> (err + unit) \<times> world) \<Rightarrow> 'a M3USource_scheme list \<Rightarrow> world \<Rightarrow>
    err list \<times> world" where
  "refresh_each one [] w = ([], w)"
| "refresh_each one (src # srcs) w =
     (if \<not> src_Enabled src then refresh_each one srcs w
      else case one (src_ID src) w of
        (Inl e, w) \<Rightarrow>
          (let (es, w) = refresh_each one srcs w in (wrapf (''source '' @ src_ID src) e # es, w))
      | (Inr _, w) \<Rightarrow> refresh_each one srcs w)"

definition M3U_RefreshAll :: "ctx \<Rightarrow> world \<Rightarrow> (err + unit) \<times> world" where
  "M3U_RefreshAll ctx w =
     (case wrap_err ''list m3u sources'' (ListM3USources ctx w) of
        (Inl e, w) \<Rightarrow> (Inl e, w)
      | (Inr srcs, w) \<Rightarrow> (let (es, w) = refresh_each (M3U_RefreshOne ctx) srcs w in (errors_Join es, w)))"

section \<open>What a refresh does to the database\<close>

context refresh_relation
begin

lemma R_upsert_entries:
  assumes "source sid"
  shows "R (wdb w) (wdb (snd (upsert_entries ctx sid es w)))"
proof (induction es arbitrary: w)
  case (Cons e es)
  let ?c = "entry_channel sid (entry_id (uni_lower w) e) e"
  obtain a v where u: "UpsertChannelFromM3U ctx ?c w = (a, v)" by (cases "UpsertChannelFromM3U ctx ?c w")
  have "R (wdb w) (wdb v)" using R_UpsertChannelFromM3U [of ?c w ctx] u assms by (simp add: entry_channel_def)
  moreover from this have "R (wdb w) (wdb (snd (upsert_entries ctx sid es v)))"
    using Cons.IH by (rule R_trans)
  ultimately show ?case using u by (cases "upsert_entries ctx sid es v") (auto simp: Let_def split: sum.split)
qed (simp add: R_refl)

lemma R_m3u_failed: "R (wdb w) (wdb (snd (m3u_failed ctx src sid st e now w)))"
  using R_MarkM3UStatus [of w ctx sid st "src_ETag src" "src_LastModified src" now]
  by (auto simp: m3u_failed_def split: prod.split)

lemma R_mark: "R (wdb w) (wdb (snd (wrap_err p (MarkM3UStatus ctx sid st et lm t w))))"
  by (simp only: snd_worlds R_MarkM3UStatus)

lemma R_store_playlist:
  assumes "source sid"
  shows "R (wdb w) (wdb (snd (store_playlist ctx src sid resp es now w)))"
proof -
  obtain a v where u: "upsert_entries ctx sid es w = (a, v)" by (cases "upsert_entries ctx sid es w")
  have v: "R (wdb w) (wdb v)" using R_upsert_entries [OF assms, of w ctx es] u by simp
  show ?thesis
  proof (cases a)
    case (Inl e)
    with u R_trans [OF v R_m3u_failed] show ?thesis by (simp add: store_playlist_def)
  next
    case (Inr seen)
    obtain b x where m: "MarkChannelsMissing ctx sid seen v = (b, x)" by (cases "MarkChannelsMissing ctx sid seen v")
    have x: "R (wdb w) (wdb x)" using R_trans [OF v R_MarkChannelsMissing [OF assms]] m by (metis snd_conv)
    from R_trans [OF x R_m3u_failed] R_trans [OF x R_mark] u Inr m show ?thesis
      by (auto simp: store_playlist_def split: sum.split)
  qed
qed

lemma R_M3U_RefreshOne:
  assumes "source sid"
  shows "R (wdb w) (wdb (snd (M3U_RefreshOne ctx sid w)))"
proof -
  obtain g v where g: "GetM3USource ctx sid w = (g, v)" by (cases "GetM3USource ctx sid w")
  have v: "R (wdb w) (wdb v)" using R_GetM3USource [of w ctx sid] g by simp
  show ?thesis
  proof (cases g)
    case (Inl e)
    with g v show ?thesis by (simp add: M3U_RefreshOne_def)
  next
    case (Inr src)
    show ?thesis
    proof (cases "source_request src")
      case (Inl e)
      with g Inr R_trans [OF v R_m3u_failed] show ?thesis by (simp add: M3U_RefreshOne_def)
    next
      case (Inr req)
      obtain a x where d: "http_Do ctx req v = (a, x)" by (cases "http_Do ctx req v")
      have x: "R (wdb w) (wdb x)" using v d http_Do_wdb [of ctx req v] by simp
      from R_trans [OF x R_m3u_failed] R_trans [OF x R_mark] R_trans [OF x R_store_playlist [OF assms]]
      show ?thesis
        using g \<open>g = Inr src\<close> Inr d
        by (auto simp: M3U_RefreshOne_def Let_def split: sum.split)
    qed
  qed
qed

lemma R_refresh_each:
  assumes "\<And>i w. i \<in> src_ID ` set srcs \<Longrightarrow> R (wdb w) (wdb (snd (one i w)))"
  shows "R (wdb w) (wdb (snd (refresh_each one srcs w)))"
  using assms
proof (induction srcs arbitrary: w)
  case (Cons src srcs)
  obtain a v where o: "one (src_ID src) w = (a, v)" by (cases "one (src_ID src) w")
  have IH: "R (wdb v) (wdb (snd (refresh_each one srcs v)))" for v by (rule Cons.IH) (use Cons.prems in simp)
  have "R (wdb w) (wdb v)" using Cons.prems [of "src_ID src" w] o by simp
  then have "R (wdb w) (wdb (snd (refresh_each one srcs v)))" using IH by (rule R_trans)
  then show ?case using o IH by (auto split: sum.split prod.split)
qed (simp add: R_refl)

lemma R_M3U_RefreshAll:
  assumes "\<And>i. source i"
  shows "R (wdb w) (wdb (snd (M3U_RefreshAll ctx w)))"
proof -
  obtain a v where l: "ListM3USources ctx w = (a, v)" by (cases "ListM3USources ctx w")
  have v: "R (wdb w) (wdb v)" using R_ListM3USources [of w ctx] l by simp
  show ?thesis
  proof (cases a)
    case (Inr srcs)
    have "R (wdb w) (wdb (snd (refresh_each (M3U_RefreshOne ctx) srcs v)))"
      by (rule R_trans [OF v R_refresh_each]) (rule R_M3U_RefreshOne [OF assms])
    with l Inr show ?thesis by (auto simp: M3U_RefreshAll_def split: prod.split)
  qed (use l v in \<open>simp add: M3U_RefreshAll_def\<close>)
qed

end

section \<open>What survives\<close>

text \<open>
  What belongs to others: the catalogue only grows, no administrator column or probed kind of a row
  changes, no guide link is changed or removed, and the tables of the users, the sessions and
  the settings are the same.
\<close>

definition others_kept :: "db \<Rightarrow> db \<Rightarrow> bool" where
  "others_kept s s' \<longleftrightarrow>
     prefix (map admin_part (channels s)) (map admin_part (channels s')) \<and>
     prefix (channel_epg_keys s) (channel_epg_keys s') \<and>
     user_favorites s' = user_favorites s \<and> user_recent s' = user_recent s \<and>
     stream_sessions s' = stream_sessions s \<and> settings s' = settings s"

lemma others_channels:
  "prefix (map admin_part (channels s)) (map admin_part cs) \<Longrightarrow> others_kept s (s\<lparr>channels := cs\<rparr>)"
  by (simp add: others_kept_def)

lemma upsert_rest:
  "upsert_channel cid c kind now s = (Inr i, s') \<Longrightarrow> s' = s\<lparr>channels := channels s'\<rparr>"
  by (auto simp: upsert_channel_def Let_def split: if_splits option.splits)

interpretation others: refresh_relation others_kept "\<lambda>_. True"
proof (unfold_locales, goal_cases)
  case (1 s) show ?case by (simp add: others_kept_def)
next
  case (2 s1 s2 s3) then show ?case by (auto simp: others_kept_def)
next
  case (3 cid ch kind now s d s')
  have "others_kept s (s\<lparr>channels := channels s'\<rparr>)"
    by (rule others_channels) (use upsert_channel_admin [OF 3(2)] in auto)
  with upsert_rest [OF 3(2)] show ?case by simp
next
  case (4 sid seen now s a s')
  have "others_kept s (s\<lparr>channels := channels s'\<rparr>)"
    by (rule others_channels) (use mark_missing_admin [OF 4(2)] in auto)
  with 4(2) show ?case by (auto simp: mark_missing_def)
qed (auto simp: others_kept_def auto_link_def Let_def update_m3u_def update_xmltv_def delete_programs_def
    copy_programs_def split: if_splits)


section \<open>The catalogue is the playlist\<close>

text \<open>
  The abstraction: what a source offers, as a map from its channel ids to what the playlist says
  of them.
\<close>

type_synonym item = "string \<times> string \<times> string \<times> string \<times> string \<times> smap"

definition row_item :: "channel_row \<Rightarrow> item" where
  "row_item r = (ch_DisplayName r, ch_ChannelNumberSrc r, ch_LogoURL r, ch_GroupTitleSrc r, ch_UpstreamURL r, ch_Attrs r)"

definition entry_item :: "entry \<Rightarrow> item" where
  "entry_item e = (Title e, TvgChno e, TvgLogo e, GroupTitle e, URL e, Attrs e)"

definition offers :: "string \<Rightarrow> channel_row \<Rightarrow> bool" where
  "offers sid r \<longleftrightarrow> ch_SourceM3UID r = sid \<and> ch_EnabledSrc r"

definition row_catalogue :: "channel_row list \<Rightarrow> string \<Rightarrow> string \<Rightarrow> item option" where
  "row_catalogue rs sid = map_of (map (\<lambda>r. (ch_SourceChannelID r, row_item r)) (filter (offers sid) rs))"

abbreviation catalogue :: "db \<Rightarrow> string \<Rightarrow> string \<Rightarrow> item option" where
  "catalogue s \<equiv> row_catalogue (channels s)"

text \<open>What a playlist says: the last entry of an id counts.\<close>

definition playlist :: "(string \<Rightarrow> string) \<Rightarrow> entry list \<Rightarrow> string \<Rightarrow> item option" where
  "playlist uni es = map_of (rev (map (\<lambda>e. (entry_id uni e, entry_item e)) es))"

lemma cat_Cons: "row_catalogue (r # rs) sid =
    (if offers sid r then (row_catalogue rs sid)(ch_SourceChannelID r \<mapsto> row_item r) else row_catalogue rs sid)"
  by (simp add: row_catalogue_def)

lemma cat_append: "row_catalogue (rs @ qs) sid = row_catalogue qs sid ++ row_catalogue rs sid"
  by (simp add: row_catalogue_def)

lemma cat_other:
  assumes "\<And>r. P r \<Longrightarrow> ch_SourceM3UID r = sid" "\<And>r. ch_SourceM3UID (f r) = ch_SourceM3UID r" "sid' \<noteq> sid"
  shows "row_catalogue (sql_update P f rs) sid' = row_catalogue rs sid'"
proof (induction rs)
  case (Cons r rs)
  then show ?case using assms by (auto simp: sql_update_def cat_Cons offers_def)
qed (simp add: sql_update_def)

lemma cat_update:
  assumes "\<And>r. P r \<longleftrightarrow> ch_SourceM3UID r = sid \<and> ch_SourceChannelID r = k"
    "\<And>r. P r \<Longrightarrow> offers sid (f r) \<and> ch_SourceChannelID (f r) = k \<and> row_item (f r) = it" "list_ex P rs"
  shows "row_catalogue (sql_update P f rs) sid = (row_catalogue rs sid)(k \<mapsto> it)"
  using assms(3)
proof (induction rs)
  case (Cons r rs)
  have rest: "row_catalogue (sql_update P f rs) sid =
      (if list_ex P rs then (row_catalogue rs sid)(k \<mapsto> it) else row_catalogue rs sid)"
    using Cons.IH by (auto simp: sql_update_def list_ex_iff intro!: arg_cong [where f = "\<lambda>x. row_catalogue x sid"] map_idI)
  show ?case
  proof (cases "P r")
    case True
    then show ?thesis
      using rest assms(1,2) [of r] by (auto simp: sql_update_def cat_Cons)
  next
    case False
    then have "list_ex P rs" using Cons.prems by simp
    moreover have "offers sid r \<Longrightarrow> ch_SourceChannelID r \<noteq> k" using False assms(1) by (auto simp: offers_def)
    ultimately show ?thesis
      using rest False by (auto simp: sql_update_def cat_Cons fun_upd_twist)
  qed
qed simp

lemma cat_fresh:
  "\<not> list_ex (\<lambda>r. ch_SourceM3UID r = sid \<and> ch_SourceChannelID r = k) rs \<Longrightarrow> row_catalogue rs sid k = None"
  by (auto simp: row_catalogue_def map_of_eq_None_iff list_ex_iff offers_def)

lemma upsert_catalogue:
  assumes "upsert_channel cid (c :: channel_row) kind now s = (Inr i, s')"
  shows "catalogue s' = (catalogue s)(ch_SourceM3UID c := (catalogue s (ch_SourceM3UID c))(ch_SourceChannelID c \<mapsto> row_item c))"
proof (rule ext)
  fix sid'
  let ?sid = "ch_SourceM3UID c" and ?k = "ch_SourceChannelID c"
  let ?same = "\<lambda>r. ch_SourceM3UID r = ?sid \<and> ch_SourceChannelID r = ?k"
  let ?f = "\<lambda>r. r\<lparr>ch_DisplayName := ch_DisplayName c, ch_ChannelNumberSrc := ch_ChannelNumberSrc c,
                    ch_LogoURL := ch_LogoURL c, ch_GroupTitleSrc := ch_GroupTitleSrc c,
                    ch_UpstreamURL := ch_UpstreamURL c, ch_Attrs := ch_Attrs c, ch_EnabledSrc := True\<rparr>"
  show "catalogue s' sid' = ((catalogue s)(?sid := (catalogue s ?sid)(?k \<mapsto> row_item c))) sid'"
  proof (cases "find ?same (channels s)")
    case (Some r)
    then have ex: "list_ex ?same (channels s)" by (auto simp: find_Some_iff list_ex_length)
    have s': "channels s' = sql_update ?same ?f (channels s)"
      using assms Some by (auto simp: upsert_channel_def Let_def split: if_splits)
    show ?thesis
      using cat_update [OF _ _ ex, of ?sid ?k ?f "row_item c"] cat_other [of ?same ?sid ?f sid' "channels s"]
      by (cases "sid' = ?sid") (auto simp: s' offers_def row_item_def)
  next
    case None
    then have no: "\<not> list_ex ?same (channels s)" by (auto simp: find_None_iff list_ex_iff)
    obtain r where s': "channels s' = channels s @ [r]" "ch_SourceM3UID r = ?sid" "ch_SourceChannelID r = ?k"
      "ch_EnabledSrc r" "row_item r = row_item c"
      using assms None by (auto simp: upsert_channel_def Let_def row_item_def split: if_splits)
    from cat_fresh [OF no] s' show ?thesis
      by (auto simp: cat_append cat_Cons offers_def row_catalogue_def [of "[]"] map_add_def fun_eq_iff split: option.split)
  qed
qed

lemma missing_catalogue:
  assumes "mark_missing sid seen now s = (Inr u, s')"
  shows "catalogue s' = (catalogue s)(sid := catalogue s sid |` set seen)"
proof -
  let ?P = "\<lambda>r. ch_SourceM3UID r = sid \<and> ch_EnabledSrc r \<and> ch_SourceChannelID r \<notin> set seen"
  have s': "channels s' = sql_update ?P (\<lambda>r. r\<lparr>ch_EnabledSrc := False\<rparr>) (channels s)"
    using assms by (auto simp: mark_missing_def)
  have "row_catalogue (sql_update ?P (\<lambda>r. r\<lparr>ch_EnabledSrc := False\<rparr>) rs) sid = row_catalogue rs sid |` set seen" for rs
  proof (induction rs)
    case (Cons r rs)
    then show ?case
      by (auto simp: sql_update_def cat_Cons offers_def restrict_map_def fun_eq_iff row_item_def)
  qed (simp add: sql_update_def row_catalogue_def)
  with cat_other [of ?P sid "\<lambda>r. r\<lparr>ch_EnabledSrc := False\<rparr>"] s' show ?thesis
    by (auto simp: fun_eq_iff)
qed

lemma upsert_sources: "upsert_channel cid c kind now s = (Inr i, s') \<Longrightarrow> m3u_sources s' = m3u_sources s"
  by (auto simp: upsert_channel_def Let_def split: if_splits option.splits)

lemma UpsertChannel_ok:
  assumes "UpsertChannelFromM3U ctx (entry_channel sid cid e) w = (Inr i, w')"
  shows "catalogue (wdb w') = (catalogue (wdb w))(sid := (catalogue (wdb w) sid)(cid \<mapsto> entry_item e))"
    "uni_lower w' = uni_lower w" "sent w' = sent w" "m3u_sources (wdb w') = m3u_sources (wdb w)"
proof -
  let ?c = "entry_channel sid cid e"
  let ?w = "snd (newULID w)"
  have w: "wdb ?w = wdb w" "uni_lower ?w = uni_lower w" "sent ?w = sent w" by (simp_all add: newULID_def)
  have c: "db_call ctx (upsert_channel (ulid w (ulid_next w)) ?c ''unknown'') ?w = (Inr i, w')"
    using assms by (simp add: UpsertChannelFromM3U_def Let_def newULID_def entry_channel_def wrap_err_Inr)
  then obtain now where s: "upsert_channel (ulid w (ulid_next w)) ?c ''unknown'' now (wdb ?w) = (Inr i, wdb w')"
    by (blast dest: db_call_Inr_stmt)
  from upsert_catalogue [OF s] show "catalogue (wdb w') = (catalogue (wdb w))(sid := (catalogue (wdb w) sid)(cid \<mapsto> entry_item e))"
    unfolding w by (simp add: entry_channel_def row_item_def entry_item_def)
  from upsert_sources [OF s] show "m3u_sources (wdb w') = m3u_sources (wdb w)" unfolding w .
  show "uni_lower w' = uni_lower w" "sent w' = sent w"
    using uni_db_call [of ctx "upsert_channel (ulid w (ulid_next w)) ?c ''unknown''" ?w]
      sent_db_call [of ctx "upsert_channel (ulid w (ulid_next w)) ?c ''unknown''" ?w] c w by simp_all
qed

lemma upsert_entries_ok:
  assumes "upsert_entries ctx sid es w = (Inr seen, w')"
  shows "catalogue (wdb w') = (catalogue (wdb w))(sid := catalogue (wdb w) sid ++ playlist (uni_lower w) es) \<and>
    seen = map (entry_id (uni_lower w)) es \<and> sent w' = sent w \<and> m3u_sources (wdb w') = m3u_sources (wdb w)"
  using assms
proof (induction es arbitrary: w seen)
  case Nil
  then show ?case by (simp add: playlist_def)
next
  case (Cons e es)
  let ?cid = "entry_id (uni_lower w) e"
  obtain i v where u: "UpsertChannelFromM3U ctx (entry_channel sid ?cid e) w = (Inr i, v)"
    using Cons.prems by (auto simp: Let_def split: prod.splits sum.splits)
  obtain seen' where r: "upsert_entries ctx sid es v = (Inr seen', w')" "seen = ?cid # seen'"
    using Cons.prems u by (auto simp: Let_def split: prod.splits sum.splits)
  from Cons.IH [OF r(1)] UpsertChannel_ok [OF u] r(2) show ?case
    by (auto simp: playlist_def map_add_def fun_eq_iff split: option.split)
qed

lemma playlist_dom: "dom (playlist uni es) = entry_id uni ` set es"
  by (auto simp: playlist_def dom_map_of_conv_image_fst image_image)

lemma mark_status_ok:
  assumes "MarkM3UStatus ctx sid st et lm t w = (r, w')"
  shows "channels (wdb w') = channels (wdb w) \<and> sent w' = sent w"
proof -
  obtain a v where d: "db_call ctx (update_m3u sid (set_status t st et lm)) w = (a, v)"
    by (cases "db_call ctx (update_m3u sid (set_status t st et lm)) w")
  have "w' = v" using assms d by (cases a) (auto simp: MarkM3UStatus_def split: if_splits)
  with db_call_wdb [OF d] sent_db_call [of ctx "update_m3u sid (set_status t st et lm)" w] d show ?thesis
    by (auto simp: update_m3u_def dest!: sym [where t = "wdb v"])
qed

lemma store_playlist_ok:
  assumes "store_playlist ctx src sid resp es now w = (Inr (), w')"
  shows "catalogue (wdb w') = (catalogue (wdb w))(sid := playlist (uni_lower w) es) \<and> sent w' = sent w"
proof -
  obtain seen v where u: "upsert_entries ctx sid es w = (Inr seen, v)"
    using assms by (auto simp: store_playlist_def m3u_failed_def split: prod.splits sum.splits)
  note u' = upsert_entries_ok [OF u]
  obtain x where m: "MarkChannelsMissing ctx sid seen v = (Inr (), x)"
    using assms u by (auto simp: store_playlist_def m3u_failed_def split: prod.splits sum.splits)
  then have d: "db_call ctx (mark_missing sid seen) v = (Inr (), x)"
    by (simp add: MarkChannelsMissing_def wrap_err_Inr)
  then obtain t where "mark_missing sid seen t (wdb v) = (Inr (), wdb x)" by (blast dest: db_call_Inr_stmt)
  note x = missing_catalogue [OF this]
  have sx: "sent x = sent v" using sent_db_call [of ctx "mark_missing sid seen" v] d by simp
  have st: "MarkM3UStatus ctx sid ''ok'' (hdr_Get ''ETag'' (rp_Header resp)) (hdr_Get ''Last-Modified'' (rp_Header resp)) now x
      = (Inr (), w')"
    using assms u m by (simp add: store_playlist_def wrap_err_Inr)
  have "(f ++ playlist (uni_lower w) es) |` set seen = playlist (uni_lower w) es" for f
    using u' playlist_dom [of "uni_lower w" es]
    by (auto simp: restrict_map_def map_add_def fun_eq_iff split: option.split)
  with u' x sx mark_status_ok [OF st] show ?thesis by (simp add: fun_upd_idem_iff)
qed

lemma GetM3USource_frame:
  assumes "GetM3USource ctx sid w = (r, v)"
  shows "sent v = sent w \<and> upstream v = upstream w \<and> uni_lower v = uni_lower w \<and> wdb v = wdb w"
proof -
  have "v = snd (GetM3USource ctx sid w)" using assms by simp
  then show ?thesis by (simp add: GetM3USource_def snd_wrap frame)
qed

text \<open>
  Property C6: a refresh is a refinement of "take over the playlist". When the refresh of a source
  succeeds, it made one upstream request; a 304 answer left all channels as they were; after
  any other answer the enabled channels of the source are exactly the entries of the parsed
  body, by id and with their data, the last entry counting where an id repeats; the
  catalogues of the other sources are as before.
\<close>

theorem refresh_takes_over_playlist:
  assumes "M3U_RefreshOne ctx sid w = (Inr (), w')"
  shows "\<exists>req resp. sent w' = sent w @ [req] \<and> snd (upstream w (length (sent w)) req) = Inr resp \<and>
    (if rp_Status resp = 304 then channels (wdb w') = channels (wdb w)
     else \<exists>es. m3u_Parse (fst (LimitBody (rp_Body resp) PlaylistMaxBytes))
                 (snd (LimitBody (rp_Body resp) PlaylistMaxBytes)) = Inr es \<and>
       catalogue (wdb w') = (catalogue (wdb w))(sid := playlist (uni_lower w) es))"
proof -
  obtain src v where g: "GetM3USource ctx sid w = (Inr src, v)"
    using assms by (auto simp: M3U_RefreshOne_def split: prod.splits sum.splits)
  note v = GetM3USource_frame [OF g]
  obtain req where req: "source_request src = Inr req"
    using assms g by (auto simp: M3U_RefreshOne_def m3u_failed_def split: prod.splits sum.splits)
  obtain resp x where d: "http_Do ctx req v = (Inr resp, x)"
    using assms g req by (auto simp: M3U_RefreshOne_def m3u_failed_def split: prod.splits sum.splits)
  then have x: "sent x = sent w @ [req]" "snd (upstream w (length (sent w)) req) = Inr resp"
      "wdb x = wdb w" "uni_lower x = uni_lower w"
    using v by (auto simp: http_Do_def split: if_splits prod.splits)
  let ?b = "LimitBody (rp_Body resp) PlaylistMaxBytes"
  show ?thesis
  proof (cases "rp_Status resp = 304")
    case True
    then have "MarkM3UStatus ctx sid ''ok'' (src_ETag src) (src_LastModified src) (wnow x) x = (Inr (), w')"
      using assms g req d by (simp add: M3U_RefreshOne_def wrap_err_Inr)
    from mark_status_ok [OF this] x True show ?thesis by auto
  next
    case False
    then obtain es where es: "m3u_Parse (fst ?b) (snd ?b) = Inr es"
      using assms g req d
      by (auto simp: M3U_RefreshOne_def m3u_failed_def Let_def split: prod.splits sum.splits if_splits)
    then have "store_playlist ctx src sid resp es (wnow x) x = (Inr (), w')"
      using assms g req d False
      by (auto simp: M3U_RefreshOne_def m3u_failed_def Let_def split: prod.splits if_splits)
    from store_playlist_ok [OF this] x es False show ?thesis by auto
  qed
qed

section \<open>A failed refresh will be retried in full\<close>

text \<open>The validators the next conditional GET sends.\<close>

definition validator :: "source_row \<Rightarrow> string \<times> string \<times> string" where
  "validator r = (sr_id r, sr_etag r, sr_last_modified r)"

abbreviation validators :: "world \<Rightarrow> (string \<times> string \<times> string) list" where
  "validators w \<equiv> map validator (m3u_sources (wdb w))"

lemma map_update_same: "(\<And>r. r \<in> set rs \<Longrightarrow> P r \<Longrightarrow> g (f r) = g r) \<Longrightarrow> map g (sql_update P f rs) = map g rs"
  by (auto simp: sql_update_def)

lemma mark_keeps_validators:
  assumes "MarkM3UStatus ctx sid st et lm t w = (r, w')"
    "\<And>x. x \<in> set (m3u_sources (wdb w)) \<Longrightarrow> sr_id x = sid \<Longrightarrow> validator x = (sid, et, lm)"
  shows "validators w' = validators w"
proof -
  obtain a v where d: "db_call ctx (update_m3u sid (set_status t st et lm)) w = (a, v)"
    by (cases "db_call ctx (update_m3u sid (set_status t st et lm)) w")
  have "w' = v" using assms(1) d by (cases a) (auto simp: MarkM3UStatus_def split: if_splits)
  moreover have "map validator (sql_update (\<lambda>r. sr_id r = sid) (set_status t st et lm) (m3u_sources (wdb w))) = validators w"
    by (rule map_update_same) (use assms(2) in \<open>auto simp: validator_def set_status_def\<close>)
  ultimately show ?thesis
    using db_call_wdb [OF d] by (auto simp: update_m3u_def dest!: sym [where t = "wdb v"])
qed

text \<open>A status that could not be written changed nothing.\<close>

lemma mark_failed_same:
  assumes "MarkM3UStatus ctx sid st et lm t w = (Inl e, w')"
  shows "validators w' = validators w"
proof -
  obtain a v where d: "db_call ctx (update_m3u sid (set_status t st et lm)) w = (a, v)"
    by (cases "db_call ctx (update_m3u sid (set_status t st et lm)) w")
  have v: "w' = v" "a = Inr 0 \<or> (\<exists>x. a = Inl x)"
    using assms(1) d by (cases a; auto simp: MarkM3UStatus_def split: if_splits)+
  from db_call_wdb [OF d] show ?thesis
  proof
    assume "\<exists>now n. update_m3u sid (set_status t st et lm) now (wdb w) = (Inr n, wdb v) \<and> a = Inr n"
    with v(2) have "sql_count (\<lambda>r. sr_id r = sid) (m3u_sources (wdb w)) = 0"
      "m3u_sources (wdb v) = sql_update (\<lambda>r. sr_id r = sid) (set_status t st et lm) (m3u_sources (wdb w))"
      by (auto simp: update_m3u_def dest!: sym [where t = "wdb v"] simp del: sql_count_0)
    with v(1) show ?thesis by (auto simp: sql_update_def)
  qed (simp add: v(1))
qed

lemma keeps_sources:
  "m3u_sources (wdb (snd (MarkChannelsMissing ctx sid seen w))) = m3u_sources (wdb w)"
  "m3u_sources (wdb (snd (UpsertChannelFromM3U ctx (entry_channel sid cid e) w))) = m3u_sources (wdb w)"
proof -
  obtain a v where d: "db_call ctx (mark_missing sid seen) w = (a, v)" by (cases "db_call ctx (mark_missing sid seen) w")
  from db_call_wdb [OF d] d show "m3u_sources (wdb (snd (MarkChannelsMissing ctx sid seen w))) = m3u_sources (wdb w)"
    by (auto simp: MarkChannelsMissing_def snd_wrap mark_missing_def dest!: sym [where t = "wdb v"])
  let ?w = "snd (newULID w)" and ?st = "upsert_channel (ulid w (ulid_next w)) (entry_channel sid cid e) ''unknown''"
  obtain b u where u: "db_call ctx ?st ?w = (b, u)" by (cases "db_call ctx ?st ?w")
  have "snd (UpsertChannelFromM3U ctx (entry_channel sid cid e) w) = u"
    using u by (simp add: UpsertChannelFromM3U_def Let_def newULID_def entry_channel_def snd_wrap)
  with db_call_wdb [OF u] show "m3u_sources (wdb (snd (UpsertChannelFromM3U ctx (entry_channel sid cid e) w))) = m3u_sources (wdb w)"
    by (auto simp: newULID_def dest: upsert_sources)
qed

lemma upsert_entries_sources: "m3u_sources (wdb (snd (upsert_entries ctx sid es w))) = m3u_sources (wdb w)"
proof (induction es arbitrary: w)
  case (Cons e es)
  let ?c = "entry_channel sid (entry_id (uni_lower w) e) e"
  obtain a v where u: "UpsertChannelFromM3U ctx ?c w = (a, v)" by (cases "UpsertChannelFromM3U ctx ?c w")
  have "m3u_sources (wdb v) = m3u_sources (wdb w)" using keeps_sources(2) u by (metis snd_conv)
  with u Cons.IH [of v] show ?case by (cases "upsert_entries ctx sid es v") (auto simp: Let_def split: sum.split)
qed simp

lemma failed_keeps_validators:
  assumes "m3u_failed ctx src sid st e now w = (r, w')" "m3u_sources (wdb w) = m3u_sources (wdb v)"
    "\<And>x. x \<in> set (m3u_sources (wdb v)) \<Longrightarrow> sr_id x = sid \<Longrightarrow> validator x = (sid, src_ETag src, src_LastModified src)"
  shows "validators w' = validators v"
proof -
  obtain a x where m: "MarkM3UStatus ctx sid st (src_ETag src) (src_LastModified src) now w = (a, x)"
    by (cases "MarkM3UStatus ctx sid st (src_ETag src) (src_LastModified src) now w")
  have "validators x = validators w" by (rule mark_keeps_validators [OF m]) (use assms(2,3) in auto)
  with assms(1,2) m show ?thesis by (simp add: m3u_failed_def)
qed

lemma GetM3USource_validator:
  assumes "GetM3USource ctx sid w = (Inr src, v)" "distinct (map sr_id (m3u_sources (wdb w)))"
    "x \<in> set (m3u_sources (wdb w))" "sr_id x = sid"
  shows "validator x = (sid, src_ETag src, src_LastModified src)"
proof -
  from assms(1) obtain now where
    "map_option scanM3USource (find (\<lambda>r. sr_id r = sid) (m3u_sources (wdb w))) = Some src"
    unfolding GetM3USource_def not_found_Inr wrap_err_Inr by (blast dest: db_row_Inr)
  then obtain r where "find (\<lambda>r. sr_id r = sid) (m3u_sources (wdb w)) = Some r" "src = scanM3USource r" by auto
  then have "r \<in> set (m3u_sources (wdb w))" "sr_id r = sid" by (auto simp: find_Some_iff)
  then have "r = x" using assms(2-4) by (metis distinct_map inj_on_eq_iff)
  with \<open>src = scanM3USource r\<close> assms(4) show ?thesis by (simp add: validator_def scanM3USource_def)
qed

lemma store_playlist_failed:
  assumes "store_playlist ctx src sid resp es now y = (Inl x, z)"
    "\<And>r. r \<in> set (m3u_sources (wdb y)) \<Longrightarrow> sr_id r = sid \<Longrightarrow> validator r = (sid, src_ETag src, src_LastModified src)"
  shows "validators z = validators y"
proof -
  have failed: "validators y' = validators y" if "m3u_failed ctx src sid st x now u = (r, y')"
    "m3u_sources (wdb u) = m3u_sources (wdb y)" for st x now u r y'
    by (rule failed_keeps_validators [OF that assms(2)])
  obtain b u where u: "upsert_entries ctx sid es y = (b, u)" by (cases "upsert_entries ctx sid es y")
  have su: "m3u_sources (wdb u) = m3u_sources (wdb y)" using upsert_entries_sources u by (metis snd_conv)
  show ?thesis
  proof (cases b)
    case (Inl e)
    with u su failed assms(1) show ?thesis by (simp add: store_playlist_def)
  next
    case (Inr seen)
    obtain c m where m: "MarkChannelsMissing ctx sid seen u = (c, m)" by (cases "MarkChannelsMissing ctx sid seen u")
    have sm: "m3u_sources (wdb m) = m3u_sources (wdb y)" using keeps_sources(1) m su by (metis snd_conv)
    show ?thesis
    proof (cases c)
      case (Inl e)
      with u Inr m sm failed assms(1) show ?thesis by (simp add: store_playlist_def)
    next
      case (Inr unit)
      let ?mk = "MarkM3UStatus ctx sid ''ok'' (hdr_Get ''ETag'' (rp_Header resp)) (hdr_Get ''Last-Modified'' (rp_Header resp)) now m"
      obtain e where "?mk = (Inl e, z)"
        using assms(1) u \<open>b = Inr seen\<close> m Inr by (cases ?mk; cases "fst ?mk") (auto simp: store_playlist_def)
      from mark_failed_same [OF this] sm show ?thesis by simp
    qed
  qed
qed


section \<open>The theorems at work\<close>

text \<open>A world in which the playlist of the demonstration source has become empty.\<close>

definition empty_playlist_world :: world where
  "empty_playlist_world = demo_world\<lparr>upstream :=
     (\<lambda>n r. (0, Inr \<lparr>rp_Status = 200, rp_Header = [], rp_Body = (''#EXTM3U'' @ [LF], None)\<rparr>))\<rparr>"

lemma demo_GetM3USource:
  "wdb w = demo_db \<Longrightarrow> script w = [] \<Longrightarrow> GetM3USource live ''m'' w = (Inr (scanM3USource demo_source), w)"
  by (simp add: GetM3USource_def db_call_quiet sql_row_def demo_db_def demo_source_def)

lemma demo_source_request: "\<exists>req. source_request (scanM3USource demo_source) = Inr req"
proof -
  have "case source_request (scanM3USource demo_source) of Inr req \<Rightarrow> True | Inl e \<Rightarrow> False" by code_simp
  then show ?thesis by (auto split: sum.splits)
qed

lemma empty_playlist_parsed:
  "m3u_Parse (''#EXTM3U'' @ [LF]) None = Inr []" "LimitBody (''#EXTM3U'' @ [LF], None) PlaylistMaxBytes = (''#EXTM3U'' @ [LF], None)"
proof -
  have "scan_lines max_token (''#EXTM3U'' @ [LF]) = ([''#EXTM3U''], False)"
    by (simp add: scan_lines_def max_token_def drop_cr_def)
  moreover have "strip_bom (''#EXTM3U'' @ [LF]) = ''#EXTM3U'' @ [LF]" by code_simp
  moreover have "m3u_lines \<lparr>entries = [], pending = None, headerSeen = False\<rparr> [''#EXTM3U''] =
      Inr \<lparr>entries = [], pending = None, headerSeen = True\<rparr>" by code_simp
  ultimately show "m3u_Parse (''#EXTM3U'' @ [LF]) None = Inr []" by (simp add: m3u_Parse_def)
  show "LimitBody (''#EXTM3U'' @ [LF], None) PlaylistMaxBytes = (''#EXTM3U'' @ [LF], None)"
    by (simp add: LimitBody_def PlaylistMaxBytes_def)
qed

lemma empty_refresh_ok: "fst (M3U_RefreshOne live ''m'' empty_playlist_world) = Inr ()"
proof -
  have w: "wdb empty_playlist_world = demo_db" "script empty_playlist_world = []"
    by (simp_all add: empty_playlist_world_def demo_world_def)
  obtain req where r: "source_request (scanM3USource demo_source) = Inr req" using demo_source_request by blast
  show ?thesis
    using w r empty_playlist_parsed
    by (simp add: M3U_RefreshOne_def demo_GetM3USource http_Do_def empty_playlist_world_def Let_def
        store_playlist_def MarkChannelsMissing_def MarkM3UStatus_def db_call_quiet mark_missing_def
        update_m3u_def demo_world_def demo_db_def demo_source_def sql_count_def del: append_Cons append_Nil)
qed

theorem refresh_takes_over_playlist_witness:
  "catalogue (wdb (snd (M3U_RefreshOne live ''m'' empty_playlist_world))) ''m'' = Map.empty"
proof -
  obtain w' where h: "M3U_RefreshOne live ''m'' empty_playlist_world = (Inr (), w')"
    using empty_refresh_ok by (cases "M3U_RefreshOne live ''m'' empty_playlist_world") auto
  from refresh_takes_over_playlist [OF h] show ?thesis
    unfolding h snd_conv using empty_playlist_parsed
    by (auto simp: playlist_def empty_playlist_world_def simp del: append_Cons append_Nil split: if_splits)
qed

lemma demo_refresh_fails: "\<exists>e. fst (M3U_RefreshOne live ''m'' demo_world) = Inl e"
proof -
  have w: "wdb demo_world = demo_db" "script demo_world = []" by (simp_all add: demo_world_def)
  obtain req where r: "source_request (scanM3USource demo_source) = Inr req" using demo_source_request by blast
  show ?thesis
    using w r by (simp add: M3U_RefreshOne_def demo_GetM3USource http_Do_def m3u_failed_def demo_world_def
        split: prod.split)
qed


end
