(* ===== verification/Xml.thy ===== *)
theory Xml
  imports Json NetUrl
begin

text \<open>
  The strict decoder of Go's \<open>encoding/xml\<close>, as far as \<open>src/internal/xmltv\<close> uses it: the tokens of
  a document, \<open>Skip\<close> and the decoding of an element, whose content is read into a tree. A name is
  its prefix and its local part; a token keeps the bytes it was read from, which \<open>innerxml\<close>
  fields return. The letters that XML names allow beyond ASCII are the parameter \<open>uni\<close>, a predicate
  on names. The limit of 10000 on the nesting of decoded elements is left out.
\<close>

type_synonym xname = "string \<times> string"

datatype xtok =
    XStart xname "(xname \<times> string) list"
  | XEnd xname
  | XChars string
  | XMisc

text \<open>A syntax error with what is left of the input (it gives the line), or a failed read.\<close>

datatype xerr = XSyntax string string | XFail err

type_synonym 'a xres = "xerr + ('a \<times> string)"

definition xml_space :: "char \<Rightarrow> bool" where
  "xml_space c \<longleftrightarrow> c \<in> {CHR '' '', CR, LF, TAB}"

definition skip_space :: "string \<Rightarrow> string" where
  "skip_space s = dropWhile xml_space s"

text \<open>The end of the input: \<open>io.EOF\<close> inside a token is a syntax error.\<close>

definition at_end :: "err option \<Rightarrow> xerr" where
  "at_end fin = (case fin of None \<Rightarrow> XSyntax ''unexpected EOF'' [] | Some e \<Rightarrow> XFail e)"

section \<open>Names\<close>

definition name_byte :: "char \<Rightarrow> bool" where
  "name_byte c \<longleftrightarrow> is_upper c \<or> is_lower c \<or> is_digit c \<or> c \<in> {CHR ''_'', CHR '':'', CHR ''.'', CHR ''-''} \<or> 128 \<le> code c"

definition is_name :: "(string \<Rightarrow> bool) \<Rightarrow> string \<Rightarrow> bool" where
  "is_name uni s \<longleftrightarrow>
     (case s of [] \<Rightarrow> False
      | c # cs \<Rightarrow>
          if list_all is_ascii s then is_upper c \<or> is_lower c \<or> c \<in> {CHR ''_'', CHR '':''} else uni s)"

text \<open>\<open>readName\<close>: the name bytes ahead; \<^const>\<open>None\<close> when there is none.\<close>

definition read_name :: "err option \<Rightarrow> string \<Rightarrow> xerr + (string \<times> string) option" where
  "read_name fin s =
     (case s of
        [] \<Rightarrow> Inl (at_end fin)
      | c # _ \<Rightarrow>
          if \<not> name_byte c then Inr None
          else if dropWhile name_byte s = [] then Inl (at_end fin)
          else Inr (Some (takeWhile name_byte s, dropWhile name_byte s)))"

definition xml_name :: "(string \<Rightarrow> bool) \<Rightarrow> err option \<Rightarrow> string \<Rightarrow> string \<Rightarrow> string xres" where
  "xml_name uni fin miss s =
     (case read_name fin s of
        Inl e \<Rightarrow> Inl e
      | Inr None \<Rightarrow> Inl (XSyntax miss s)
      | Inr (Some (n, r)) \<Rightarrow>
          if is_name uni n then Inr (n, r) else Inl (XSyntax (''invalid XML name: '' @ n) r))"

definition nsname :: "(string \<Rightarrow> bool) \<Rightarrow> err option \<Rightarrow> string \<Rightarrow> string \<Rightarrow> xname xres" where
  "nsname uni fin miss s =
     (case xml_name uni fin miss s of
        Inl e \<Rightarrow> Inl e
      | Inr (n, r) \<Rightarrow>
          if 1 < length (filter (\<lambda>c. c = CHR '':'') n) then Inl (XSyntax miss r)
          else case split2 n (CHR '':'') of
            (sp, Some l) \<Rightarrow> Inr (if sp = [] \<or> l = [] then ([], n) else (sp, l), r)
          | (_, None) \<Rightarrow> Inr (([], n), r))"

section \<open>Text\<close>

definition entities :: "(string \<times> char) list" where
  "entities = [(''lt'', CHR ''<''), (''gt'', CHR ''>''), (''amp'', CHR ''&''), (''apos'', CHR 0x27), (''quot'', QUOTE)]"

definition hex_digit :: "char \<Rightarrow> bool" where
  "hex_digit c \<longleftrightarrow> is_digit c \<or> (97 \<le> code c \<and> code c \<le> 102) \<or> (65 \<le> code c \<and> code c \<le> 70)"

definition digits_val :: "nat \<Rightarrow> string \<Rightarrow> nat option" where
  "digits_val base ds =
     (if ds = [] then None
      else Some (foldl (\<lambda>n c. base * n + (case unhexc c of Some d \<Rightarrow> d | None \<Rightarrow> 0)) 0 ds))"

definition no_entity :: "string \<Rightarrow> string \<Rightarrow> xerr" where
  "no_entity ent r =
     XSyntax (''invalid character entity '' @ (if last ent = CHR '';'' then ent else ent @ '' (no semicolon)'')) r"

text \<open>What follows an ampersand: the text it stands for and the rest.\<close>

definition entity_ref :: "(string \<Rightarrow> bool) \<Rightarrow> err option \<Rightarrow> string \<Rightarrow> string xres" where
  "entity_ref uni fin s =
     (case s of
        [] \<Rightarrow> Inl (at_end fin)
      | CHR ''#'' # s1 \<Rightarrow>
          (let hex = (s1 \<noteq> [] \<and> hd s1 = CHR ''x''); s2 = (if hex then tl s1 else s1);
               P = (if hex then hex_digit else is_digit);
               ds = takeWhile P s2; r = dropWhile P s2; ent = ''&#'' @ (if hex then ''x'' else []) @ ds
           in case r of
                [] \<Rightarrow> Inl (at_end fin)
              | c # r' \<Rightarrow>
                  if c \<noteq> CHR '';'' then Inl (no_entity ent r)
                  else case digits_val (if hex then 16 else 10) ds of
                    Some n \<Rightarrow>
                      if n \<le> 0x10FFFF then
                        Inr (if 0xD800 \<le> n \<and> n \<le> 0xDFFF then rune_error else utf8_encode n, r')
                      else Inl (no_entity (ent @ '';'') r')
                  | None \<Rightarrow> Inl (no_entity (ent @ '';'') r'))
      | _ \<Rightarrow>
          (case read_name fin s of
             Inl e \<Rightarrow> Inl e
           | Inr nm \<Rightarrow>
               (let (n, r) = (case nm of None \<Rightarrow> ([], s) | Some p \<Rightarrow> p) in
                case r of
                  [] \<Rightarrow> Inl (at_end fin)
                | c # r' \<Rightarrow>
                    if c \<noteq> CHR '';'' then Inl (no_entity (CHR ''&'' # n) r)
                    else case (if is_name uni n then map_of entities n else None) of
                      Some t \<Rightarrow> Inr ([t], r')
                    | None \<Rightarrow> Inl (no_entity (CHR ''&'' # n @ '';'') r'))))"

text \<open>The characters XML allows, in valid UTF-8.\<close>

definition bad_rune :: "string \<Rightarrow> nat \<Rightarrow> bool" where
  "bad_rune s n \<longleftrightarrow>
     (n = 1 \<and> code (hd s) < 32 \<and> hd s \<notin> {TAB, LF, CR}) \<or>
     has_prefix s [CHR 0xEF, CHR 0xBF, CHR 0xBE] \<or> has_prefix s [CHR 0xEF, CHR 0xBF, CHR 0xBF]"

function check_chars :: "string \<Rightarrow> string option" where
  "check_chars s =
     (if s = [] then None
      else case utf8_len s of
        None \<Rightarrow> Some ''invalid UTF-8''
      | Some n \<Rightarrow> if bad_rune s n then Some ''illegal character code'' else check_chars (drop n s))"
  by pat_completeness auto
termination by (relation "measure length") (auto dest: utf8_len_bounds)

declare check_chars.simps [simp del]

lemma length_drop_while: "length (dropWhile P s) \<le> length s"
  by (rule length_dropWhile_le)

lemma read_name_shorter: "read_name fin s = Inr (Some (n, r)) \<Longrightarrow> length r < length s"
  using length_drop_while [of name_byte "tl s"]
  by (cases s) (auto simp: read_name_def split: if_splits)

lemma entity_ref_shorter: "entity_ref uni fin s = Inr (t, r) \<Longrightarrow> length r < length s"
proof -
  have dw: "dropWhile P t = c # r \<Longrightarrow> length r < length t" for P t c r
    using length_drop_while [of P t] by simp
  assume h: "entity_ref uni fin s = Inr (t, r)"
  show ?thesis
  proof (cases s)
    case Nil
    with h show ?thesis by (simp add: entity_ref_def)
  next
    case (Cons c s1)
    show ?thesis
    proof (cases "c = CHR ''#''")
      case True
      let ?s2 = "if s1 \<noteq> [] \<and> hd s1 = CHR ''x'' then tl s1 else s1"
      obtain P d where "dropWhile P ?s2 = d # r"
        using h Cons True by (auto simp: entity_ref_def Let_def split: list.splits if_splits option.splits)
      from dw [OF this] have "length r < length ?s2" .
      then show ?thesis using Cons by (auto split: if_splits)
    next
      case False
      then have e: "entity_ref uni fin s = (case read_name fin s of
             Inl e \<Rightarrow> Inl e
           | Inr nm \<Rightarrow>
               (let (n, r) = (case nm of None \<Rightarrow> ([], s) | Some p \<Rightarrow> p) in
                case r of
                  [] \<Rightarrow> Inl (at_end fin)
                | c # r' \<Rightarrow>
                    if c \<noteq> CHR '';'' then Inl (no_entity (CHR ''&'' # n) r)
                    else case (if is_name uni n then map_of entities n else None) of
                      Some t \<Rightarrow> Inr ([t], r')
                    | None \<Rightarrow> Inl (no_entity (CHR ''&'' # n @ '';'') r')))"
        unfolding Cons entity_ref_def by (auto split: char.split bool.split)
      show ?thesis
      proof (cases "read_name fin s")
        case (Inl x)
        with h e show ?thesis by simp
      next
        case (Inr nm)
        show ?thesis
        proof (cases nm)
          case None
          with h e Inr show ?thesis by (auto simp: is_name_def split: list.splits if_splits)
        next
          case (Some p)
          obtain n r1 where p: "p = (n, r1)" by (cases p)
          have "length r1 < length s" using read_name_shorter Inr Some p by simp
          with h e Inr Some p show ?thesis by (auto split: list.splits if_splits option.splits)
        qed
      qed
    qed
  qed
qed

text \<open>
  \<open>text\<close>: up to the closing quote, the next tag, or the end of the CDATA section. \<open>acc\<close> holds
  what was written so far, in reverse; \<open>b0\<close> and \<open>b1\<close> are the two bytes read last.
\<close>

function text_loop :: "(string \<Rightarrow> bool) \<Rightarrow> err option \<Rightarrow> char option \<Rightarrow> bool \<Rightarrow> char \<Rightarrow> char \<Rightarrow> string \<Rightarrow>
    string \<Rightarrow> string xres" where
  "text_loop uni fin q cdata b0 b1 acc s =
     (case s of
        [] \<Rightarrow>
          (if \<not> cdata then Inr (rev acc, [])
           else Inl (case fin of None \<Rightarrow> XSyntax ''unexpected EOF in CDATA section'' [] | Some e \<Rightarrow> XFail e))
      | c # r \<Rightarrow>
          if q = None \<and> b0 = CHR '']'' \<and> b1 = CHR '']'' \<and> c = CHR ''>'' then
            (if cdata then Inr (rev (drop 2 acc), r)
             else Inl (XSyntax ''unescaped ]]> not in CDATA section'' r))
          else if c = CHR ''<'' \<and> \<not> cdata then
            (if q \<noteq> None then Inl (XSyntax ''unescaped < inside quoted string'' r) else Inr (rev acc, s))
          else if q = Some c then Inr (rev acc, r)
          else if c = CHR ''&'' \<and> \<not> cdata then
            (case entity_ref uni fin r of
               Inl e \<Rightarrow> Inl e
             | Inr (t, r') \<Rightarrow> text_loop uni fin q cdata (CHR 0x00) (CHR 0x00) (rev t @ acc) r')
          else
            text_loop uni fin q cdata b1 c
              (if c = CR then LF # acc else if b1 = CR \<and> c = LF then acc else c # acc) r)"
  by pat_completeness auto
termination
  by (relation "measure (\<lambda>(uni, fin, q, cdata, b0, b1, acc, s). length s)")
    (auto dest: entity_ref_shorter)

declare text_loop.simps [simp del]

definition xml_text :: "(string \<Rightarrow> bool) \<Rightarrow> err option \<Rightarrow> char option \<Rightarrow> bool \<Rightarrow> string \<Rightarrow> string xres" where
  "xml_text uni fin q cdata s =
     (case text_loop uni fin q cdata (CHR 0x00) (CHR 0x00) [] s of
        Inl e \<Rightarrow> Inl e
      | Inr (t, r) \<Rightarrow> (case check_chars t of None \<Rightarrow> Inr (t, r) | Some m \<Rightarrow> Inl (XSyntax m r)))"

lemma text_loop_shorter: "text_loop uni fin q cdata b0 b1 acc s = Inr (t, r) \<Longrightarrow> length r \<le> length s"
proof (induction uni fin q cdata b0 b1 acc s rule: text_loop.induct)
  case (1 uni fin q cdata b0 b1 acc s)
  then show ?case
    by (subst (asm) (3) text_loop.simps)
      (auto split: list.splits if_splits sum.splits prod.splits dest!: entity_ref_shorter, force)
qed

section \<open>Tags\<close>

definition attr_value :: "(string \<Rightarrow> bool) \<Rightarrow> err option \<Rightarrow> string \<Rightarrow> string xres" where
  "attr_value uni fin s =
     (case s of
        [] \<Rightarrow> Inl (at_end fin)
      | c # r \<Rightarrow>
          if c = QUOTE \<or> c = CHR 0x27 then xml_text uni fin (Some c) False r
          else Inl (XSyntax ''unquoted or missing attribute value in element'' r))"

lemma nsname_shorter: "nsname uni fin miss s = Inr (n, r) \<Longrightarrow> length r < length s"
  by (auto simp: nsname_def xml_name_def split: sum.splits option.splits prod.splits if_splits
      dest!: read_name_shorter)

lemma xml_text_shorter: "xml_text uni fin q cdata s = Inr (t, r) \<Longrightarrow> length r \<le> length s"
  by (auto simp: xml_text_def split: sum.splits option.splits dest!: text_loop_shorter)

lemma xml_value_shorter: "attr_value uni fin s = Inr (v, r) \<Longrightarrow> length r \<le> length s"
  by (auto simp: attr_value_def split: list.splits if_splits dest!: xml_text_shorter)

lemma skip_space_le: "skip_space s = r \<Longrightarrow> length r \<le> length s"
  by (auto simp: skip_space_def length_dropWhile_le)

lemma attr_shorter:
  assumes "skip_space s0 = t" "nsname uni fin miss t = Inr (n, y)" "skip_space y = d # z"
    "attr_value uni fin (skip_space z) = Inr (v, w)"
  shows "length w < length s0"
  using skip_space_le [OF assms(1)] nsname_shorter [OF assms(2)] skip_space_le [OF assms(3)]
    skip_space_le [of z, OF refl] xml_value_shorter [OF assms(4)]
  by simp

text \<open>The attributes, and whether the tag closes itself.\<close>

function xml_attrs :: "(string \<Rightarrow> bool) \<Rightarrow> err option \<Rightarrow> string \<Rightarrow> ((xname \<times> string) list \<times> bool) xres" where
  "xml_attrs uni fin s0 =
     (case skip_space s0 of
        [] \<Rightarrow> Inl (at_end fin)
      | c # r \<Rightarrow>
          if c = CHR ''/'' then
            (case r of
               [] \<Rightarrow> Inl (at_end fin)
             | d # r' \<Rightarrow> if d = CHR ''>'' then Inr (([], True), r') else Inl (XSyntax ''expected /> in element'' r'))
          else if c = CHR ''>'' then Inr (([], False), r)
          else case nsname uni fin ''expected attribute name in element'' (c # r) of
            Inl e \<Rightarrow> Inl e
          | Inr (n, s) \<Rightarrow>
              (case skip_space s of
                 [] \<Rightarrow> Inl (at_end fin)
               | d # r \<Rightarrow>
                   if d \<noteq> CHR ''='' then Inl (XSyntax ''attribute name without = in element'' r)
                   else case attr_value uni fin (skip_space r) of
                     Inl e \<Rightarrow> Inl e
                   | Inr (v, s) \<Rightarrow>
                       (case xml_attrs uni fin s of
                          Inl e \<Rightarrow> Inl e
                        | Inr ((as, closed), s) \<Rightarrow> Inr (((n, v) # as, closed), s))))"
  by pat_completeness auto
termination
  by (relation "measure (\<lambda>(uni, fin, s). length s)")
    (auto dest: attr_shorter)

declare xml_attrs.simps [simp del]

section \<open>Comments, instructions and directives\<close>

text \<open>What follows the first occurrence of a string.\<close>

fun after_sub :: "string \<Rightarrow> string \<Rightarrow> string option" where
  "after_sub p [] = (if p = [] then Some [] else None)"
| "after_sub p (c # s) = (if has_prefix (c # s) p then Some (drop (length p) (c # s)) else after_sub p s)"

lemma after_sub_shorter: "after_sub p s = Some r \<Longrightarrow> length r \<le> length s"
  by (induction p s rule: after_sub.induct) (auto split: if_splits)

fun xml_comment :: "err option \<Rightarrow> char \<Rightarrow> char \<Rightarrow> string \<Rightarrow> xerr + string" where
  "xml_comment fin b0 b1 [] = Inl (at_end fin)"
| "xml_comment fin b0 b1 (c # r) =
     (if b0 = CHR ''-'' \<and> b1 = CHR ''-'' then
        (if c = CHR ''>'' then Inr r
         else Inl (XSyntax (''invalid sequence '' @ go_quote ''--'' @ '' not allowed in comments'') r))
      else xml_comment fin b1 c r)"

fun inst_body :: "err option \<Rightarrow> string \<Rightarrow> string \<Rightarrow> string xres" where
  "inst_body fin acc [] = Inl (at_end fin)"
| "inst_body fin acc (c # r) =
     (if c = CHR ''>'' \<and> acc \<noteq> [] \<and> hd acc = CHR ''?'' then Inr (rev (tl acc), r) else inst_body fin (c # acc) r)"

text \<open>\<open>procInst\<close>: the quoted value of a parameter of the XML declaration.\<close>

function proc_inst :: "string \<Rightarrow> string \<Rightarrow> string" where
  "proc_inst p s =
     (case after_sub p s of
        None \<Rightarrow> []
      | Some [] \<Rightarrow> []
      | Some (c # r) \<Rightarrow>
          if c = QUOTE \<or> c = CHR 0x27 then (if c \<in> set r then takeWhile (\<lambda>d. d \<noteq> c) r else [])
          else proc_inst p r)"
  by pat_completeness auto
termination by (relation "measure (\<lambda>(p, s). length s)") (auto dest: after_sub_shorter)

declare proc_inst.simps [simp del]

definition declaration_error :: "string \<Rightarrow> err option" where
  "declaration_error content =
     (let ver = proc_inst ''version='' content; enc = proc_inst ''encoding='' content in
      if ver \<noteq> [] \<and> ver \<noteq> ''1.0'' then
        Some (Err OtherErr (''xml: unsupported version '' @ go_quote ver @ ''; only version 1.0 is supported''))
      else if enc \<noteq> [] \<and> to_lower enc \<noteq> ''utf-8'' then
        Some (Err OtherErr (''xml: encoding '' @ go_quote enc @ '' declared but Decoder.CharsetReader is nil''))
      else None)"

definition xml_inst :: "(string \<Rightarrow> bool) \<Rightarrow> err option \<Rightarrow> string \<Rightarrow> xerr + string" where
  "xml_inst uni fin s =
     (case xml_name uni fin ''expected target name after <?'' s of
        Inl e \<Rightarrow> Inl e
      | Inr (n, s) \<Rightarrow>
          (case inst_body fin [] (skip_space s) of
             Inl e \<Rightarrow> Inl e
           | Inr (d, r) \<Rightarrow>
               (case (if n = ''xml'' then declaration_error d else None) of
                  Some e \<Rightarrow> Inl (XFail e)
                | None \<Rightarrow> Inr r)))"

function directive :: "err option \<Rightarrow> char option \<Rightarrow> nat \<Rightarrow> string \<Rightarrow> xerr + string" where
  "directive fin inq depth s =
     (case s of
        [] \<Rightarrow> Inl (at_end fin)
      | c # r \<Rightarrow>
          if inq = None \<and> c = CHR ''>'' \<and> depth = 0 then Inr r
          else if inq = Some c then directive fin None depth r
          else if inq \<noteq> None then directive fin inq depth r
          else if c = CHR 0x27 \<or> c = QUOTE then directive fin (Some c) depth r
          else if c = CHR ''>'' then directive fin None (depth - 1) r
          else if c = CHR ''<'' then
            (if has_prefix r ''!--'' then
               (case after_sub ''-->'' (drop 3 r) of
                  None \<Rightarrow> Inl (at_end fin)
                | Some r' \<Rightarrow> directive fin None depth r')
             else directive fin None (Suc depth) r)
          else directive fin None depth r)"
  by pat_completeness auto
termination
  by (relation "measure (\<lambda>(fin, inq, depth, s). length s)") (auto dest!: after_sub_shorter)

declare directive.simps [simp del]

text \<open>After \<open><!\<close>: a comment, a CDATA section or a directive.\<close>

definition xml_bang :: "(string \<Rightarrow> bool) \<Rightarrow> err option \<Rightarrow> string \<Rightarrow> xtok xres" where
  "xml_bang uni fin s =
     (case s of
        [] \<Rightarrow> Inl (at_end fin)
      | c # r \<Rightarrow>
          if c = CHR ''-'' then
            (case r of
               [] \<Rightarrow> Inl (at_end fin)
             | d # r' \<Rightarrow>
                 if d \<noteq> CHR ''-'' then Inl (XSyntax ''invalid sequence <!- not part of <!--'' r')
                 else map_sum id (\<lambda>r. (XMisc, r)) (xml_comment fin (CHR 0x00) (CHR 0x00) r'))
          else if c = CHR ''['' then
            (if has_prefix r ''CDATA['' then map_sum id (\<lambda>(t, r). (XChars t, r)) (xml_text uni fin None True (drop 6 r))
             else if has_prefix ''CDATA['' r then Inl (at_end fin)
             else Inl (XSyntax ''invalid <![ sequence'' r))
          else map_sum id (\<lambda>r. (XMisc, r)) (directive fin None 0 r))"

text \<open>\<open>rawToken\<close>, with the information whether a start tag closed itself.\<close>

definition xml_raw :: "(string \<Rightarrow> bool) \<Rightarrow> err option \<Rightarrow> string \<Rightarrow> (xtok \<times> bool) xres" where
  "xml_raw uni fin s =
     (case s of
        CHR ''<'' # r \<Rightarrow>
          (case r of
             [] \<Rightarrow> Inl (at_end fin)
           | c # r' \<Rightarrow>
               if c = CHR ''/'' then
                 (case nsname uni fin ''expected element name after </'' r' of
                    Inl e \<Rightarrow> Inl e
                  | Inr (n, s) \<Rightarrow>
                      (case skip_space s of
                         [] \<Rightarrow> Inl (at_end fin)
                       | d # r \<Rightarrow>
                           if d = CHR ''>'' then Inr ((XEnd n, False), r)
                           else Inl (XSyntax (''invalid characters between </'' @ snd n @ '' and >'') r)))
               else if c = CHR ''?'' then map_sum id (\<lambda>r. ((XMisc, False), r)) (xml_inst uni fin r')
               else if c = CHR ''!'' then map_sum id (\<lambda>(t, r). ((t, False), r)) (xml_bang uni fin r')
               else
                 (case nsname uni fin ''expected element name after <'' r of
                    Inl e \<Rightarrow> Inl e
                  | Inr (n, s) \<Rightarrow>
                      (case xml_attrs uni fin s of
                         Inl e \<Rightarrow> Inl e
                       | Inr ((as, closed), r) \<Rightarrow> Inr ((XStart n as, closed), r))))
      | _ \<Rightarrow> map_sum id (\<lambda>(t, r). ((XChars t, False), r)) (xml_text uni fin None False s))"

text \<open>Every token consumes input.\<close>

lemma comment_shorter: "xml_comment fin b0 b1 s = Inr r \<Longrightarrow> length r < length s"
  by (induction fin b0 b1 s rule: xml_comment.induct) (auto split: if_splits)

lemma inst_body_shorter: "inst_body fin acc s = Inr (d, r) \<Longrightarrow> length r < length s"
  by (induction fin acc s rule: inst_body.induct) (auto split: if_splits)

lemma directive_shorter: "directive fin inq depth s = Inr r \<Longrightarrow> length r < length s"
proof (induction "length s" arbitrary: inq depth s rule: less_induct)
  case less
  note step = less.prems [unfolded directive.simps [of fin inq depth s]]
  obtain c t where s: "s = c # t" using step by (cases s) auto
  have t: "directive fin inq' depth' t = Inr r \<Longrightarrow> length r < length s" for inq' depth'
    using less.hyps [of t inq' depth'] s by simp
  have u: "length r < length s" if h: "directive fin None depth u = Inr r" "after_sub ''-->'' (drop 3 t) = Some u" for u
  proof -
    have "length u < length s" using s after_sub_shorter [OF h(2)] by simp
    from this less.hyps [OF this h(1)] show ?thesis by simp
  qed
  show ?case
    using step t u unfolding s by (auto split: if_splits option.splits)
qed

lemma attrs_shorter: "xml_attrs uni fin s = Inr (a, r) \<Longrightarrow> length r < length s"
proof (induction uni fin s arbitrary: a r rule: xml_attrs.induct)
  case (1 uni fin s0)
  obtain c t where c: "skip_space s0 = c # t"
    using "1.prems" by (subst (asm) xml_attrs.simps) (auto split: list.splits)
  then have le: "Suc (length t) \<le> length s0" using skip_space_le [OF c] by simp
  show ?case
  proof (cases "c = CHR ''/'' \<or> c = CHR ''>''")
    case True
    then show ?thesis
      using "1.prems" c le by (subst (asm) xml_attrs.simps) (auto split: list.splits if_splits)
  next
    case False
    then obtain n y where n: "nsname uni fin ''expected attribute name in element'' (c # t) = Inr (n, y)"
      using "1.prems" c by (subst (asm) xml_attrs.simps) (auto split: sum.splits)
    obtain d z where d: "skip_space y = d # z" "d = CHR ''=''"
      using "1.prems" c False n by (subst (asm) xml_attrs.simps) (auto split: list.splits if_splits)
    obtain v w where v: "attr_value uni fin (skip_space z) = Inr (v, w)"
      using "1.prems" c False n d by (subst (asm) xml_attrs.simps) (auto split: sum.splits)
    obtain a' where rec: "xml_attrs uni fin w = Inr (a', r)"
      using "1.prems" c False n d v by (subst (asm) xml_attrs.simps) (auto split: sum.splits)
    have "length r < length w"
      by (rule "1.IH" [OF c _ _ n refl d(1) _ v refl rec]) (use False d in auto)
    with attr_shorter [OF c n d(1) v] show ?thesis by simp
  qed
qed

lemma map_sum_Inr: "map_sum id g x = Inr y \<longleftrightarrow> (\<exists>z. x = Inr z \<and> y = g z)"
  by (cases x) auto

lemma xml_bang_shorter: "xml_bang uni fin s = Inr (t, r) \<Longrightarrow> length r < length s"
  by (auto simp: xml_bang_def map_sum_Inr split: list.splits if_splits
      dest!: comment_shorter directive_shorter xml_text_shorter)

lemma xml_inst_shorter: "xml_inst uni fin s = Inr r \<Longrightarrow> length r < length s"
proof -
  assume h: "xml_inst uni fin s = Inr r"
  obtain n t where n: "xml_name uni fin ''expected target name after <?'' s = Inr (n, t)"
    using h by (auto simp: xml_inst_def split: sum.splits prod.splits)
  then have "length t < length s"
    by (auto simp: xml_name_def split: sum.splits option.splits prod.splits if_splits dest: read_name_shorter)
  moreover obtain d where "inst_body fin [] (skip_space t) = Inr (d, r)"
    using h n by (auto simp: xml_inst_def split: sum.splits prod.splits option.splits)
  then have "length r < length (skip_space t)" by (rule inst_body_shorter)
  ultimately show ?thesis using skip_space_le [of t, OF refl] by simp
qed

lemma xml_raw_shorter:
  assumes "xml_raw uni fin s = Inr (t, r)" "s \<noteq> []"
  shows "length r < length s"
proof (cases "hd s = CHR ''<''")
  case True
  then obtain u where s: "s = CHR ''<'' # u" using assms(2) by (cases s) auto
  from assms(1) obtain c v where u: "u = c # v" by (cases u) (auto simp: xml_raw_def s)
  have end_tag: "nsname uni fin m v = Inr (n, x) \<Longrightarrow> skip_space x = d # r \<Longrightarrow> length r < length s" for m n x d
    using nsname_shorter [of uni fin m v n x] skip_space_le [of x "d # r"] by (simp add: s u)
  have start_tag: "nsname uni fin m u = Inr (n, x) \<Longrightarrow> xml_attrs uni fin x = Inr (a, r) \<Longrightarrow> length r < length s" for m n x a
    using nsname_shorter [of uni fin m u n x] attrs_shorter [of uni fin x a r] by (simp add: s)
  have "length r < length v \<Longrightarrow> length r < length s" by (simp add: s u)
  with assms(1) end_tag start_tag show ?thesis
    by (auto simp: xml_raw_def s u map_sum_Inr split: list.splits if_splits sum.splits
        dest!: xml_bang_shorter xml_inst_shorter)
next
  case False
  then obtain c v where s: "s = c # v" "c \<noteq> CHR ''<''" using assms(2) by (cases s) auto
  then have "xml_raw uni fin s = map_sum id (\<lambda>(t, r). ((XChars t, False), r)) (xml_text uni fin None False s)"
    by (auto simp: xml_raw_def split: char.split bool.split)
  with assms(1) have "map_sum id (\<lambda>(t, r). ((XChars t, False), r)) (xml_text uni fin None False s) = Inr (t, r)"
    by simp
  then obtain x where x: "xml_text uni fin None False s = Inr (x, r)" by (auto simp: map_sum_Inr)
  then obtain x' where t: "text_loop uni fin None False (CHR 0x00) (CHR 0x00) [] s = Inr (x', r)"
    by (auto simp: xml_text_def split: sum.splits option.splits)
  show ?thesis
  proof (cases "c = CHR ''&''")
    case True
    then obtain y z where e: "entity_ref uni fin v = Inr (y, z)" "text_loop uni fin None False (CHR 0x00) (CHR 0x00) (rev y) z = Inr (x', r)"
      using t by (subst (asm) text_loop.simps) (auto simp: s split: sum.splits)
    with entity_ref_shorter [OF e(1)] text_loop_shorter [OF e(2)] show ?thesis by (simp add: s)
  next
    case False
    then obtain b0 b1 acc where "text_loop uni fin None False b0 b1 acc v = Inr (x', r)"
      using t s(2) by (subst (asm) text_loop.simps) (auto simp: s(1))
    from text_loop_shorter [OF this] show ?thesis by (simp add: s)
  qed
qed

section \<open>The tokens of a document\<close>

text \<open>
  \<open>Token\<close>, called until it fails: the tokens with the bytes they were read from, and what ended
  them, \<^const>\<open>None\<close> being \<open>io.EOF\<close>. The second argument of \<open>pop_error\<close> is the open element.
\<close>

definition pop_error :: "xname \<Rightarrow> xname list \<Rightarrow> string option" where
  "pop_error n stk =
     (case stk of
        [] \<Rightarrow> Some (''unexpected end element </'' @ snd n @ ''>'')
      | m # _ \<Rightarrow>
          if snd m \<noteq> snd n then Some (''element <'' @ snd m @ ''> closed by </'' @ snd n @ ''>'')
          else if fst m \<noteq> fst n then
            Some (''element <'' @ snd m @ ''> in space '' @ fst m @ '' closed by </'' @ snd n @ ''> in space '' @ fst n)
          else None)"

type_synonym xtokens = "(xtok \<times> string) list"

function xml_tokens :: "(string \<Rightarrow> bool) \<Rightarrow> err option \<Rightarrow> xname list \<Rightarrow> string \<Rightarrow> xtokens \<times> xerr option" where
  "xml_tokens uni fin stk s =
     (if s = [] then
        ([], case fin of Some e \<Rightarrow> Some (XFail e)
           | None \<Rightarrow> if stk = [] then None else Some (XSyntax ''unexpected EOF'' []))
      else case xml_raw uni fin s of
        Inl e \<Rightarrow> ([], Some e)
      | Inr ((t, closed), r) \<Rightarrow>
          let raw = take (length s - length r) s in
          case t of
            XStart n as \<Rightarrow>
              if closed then
                (let (ts, e) = xml_tokens uni fin stk r in ((t, raw) # (XEnd n, []) # ts, e))
              else (let (ts, e) = xml_tokens uni fin (n # stk) r in ((t, raw) # ts, e))
          | XEnd n \<Rightarrow>
              (case pop_error n stk of
                 Some m \<Rightarrow> ([], Some (XSyntax m r))
               | None \<Rightarrow> (let (ts, e) = xml_tokens uni fin (tl stk) r in ((t, raw) # ts, e)))
          | _ \<Rightarrow> (let (ts, e) = xml_tokens uni fin stk r in ((t, raw) # ts, e)))"
  by pat_completeness auto
termination
  by (relation "measure (\<lambda>(uni, fin, stk, s). length s)") (auto dest!: xml_raw_shorter)

declare xml_tokens.simps [simp del]

text \<open>\<open>SyntaxError\<close>: the line is that of the position reached.\<close>

definition xml_error :: "string \<Rightarrow> xerr \<Rightarrow> err" where
  "xml_error doc e =
     (case e of
        XFail x \<Rightarrow> x
      | XSyntax m r \<Rightarrow>
          Err OtherErr (''XML syntax error on line '' @
            dec_digits (1 + length (filter (\<lambda>c. c = LF) (take (length doc - length r) doc))) @ '': '' @ m))"

text \<open>The tokens of a body, with the error that ended them; \<^const>\<open>None\<close> is \<open>io.EOF\<close>.\<close>

definition xml_decode :: "(string \<Rightarrow> bool) \<Rightarrow> string \<times> err option \<Rightarrow> xtokens \<times> err option" where
  "xml_decode uni body =
     (let (ts, e) = xml_tokens uni (snd body) [] (fst body) in (ts, map_option (xml_error (fst body)) e))"

definition err_EOF :: err where
  "err_EOF = Err OtherErr ''EOF''"

definition token_error :: "err option \<Rightarrow> err" where
  "token_error fin = (case fin of None \<Rightarrow> err_EOF | Some e \<Rightarrow> e)"

section \<open>Elements\<close>

text \<open>The content of an element as a tree; every node keeps its source text.\<close>

datatype xnode =
    NText string string
  | NMisc string
  | NElem string "(string \<times> string) list" "xnode list" string string

text \<open>An element that is being read: name, attributes, the start tag, the content in reverse.\<close>

type_synonym xframe = "string \<times> (string \<times> string) list \<times> string \<times> xnode list"

definition open_frame :: "xname \<Rightarrow> (xname \<times> string) list \<Rightarrow> string \<Rightarrow> xframe" where
  "open_frame n as raw = (snd n, map (\<lambda>(a, v). (snd a, v)) as, raw, [])"

definition close_frame :: "xframe \<Rightarrow> string \<Rightarrow> xnode" where
  "close_frame f raw = (case f of (n, as, start, kids) \<Rightarrow> NElem n as (rev kids) start raw)"

definition add_node :: "xnode \<Rightarrow> xframe \<Rightarrow> xframe" where
  "add_node x f = (case f of (n, as, start, kids) \<Rightarrow> (n, as, start, x # kids))"

text \<open>Reads up to the end of the element at the bottom of the stack.\<close>

fun xml_build :: "xframe \<Rightarrow> xframe list \<Rightarrow> xtokens \<Rightarrow> (xnode \<times> xtokens) option" where
  "xml_build f fs [] = None"
| "xml_build f fs ((XStart n as, raw) # ts) = xml_build (open_frame n as raw) (f # fs) ts"
| "xml_build f fs ((XEnd n, raw) # ts) =
     (case fs of
        [] \<Rightarrow> Some (close_frame f raw, ts)
      | g # gs \<Rightarrow> xml_build (add_node (close_frame f raw) g) gs ts)"
| "xml_build f fs ((XChars t, raw) # ts) = xml_build (add_node (NText t raw) f) fs ts"
| "xml_build f fs ((XMisc, raw) # ts) = xml_build (add_node (NMisc raw) f) fs ts"

lemma xml_build_shorter: "xml_build f fs ts = Some (x, r) \<Longrightarrow> length r < length ts"
  by (induction f fs ts rule: xml_build.induct) (auto split: list.splits)

fun node_raw :: "xnode \<Rightarrow> string" where
  "node_raw (NText t raw) = raw"
| "node_raw (NMisc raw) = raw"
| "node_raw (NElem n as kids start end) = start @ concat (map node_raw kids) @ end"

text \<open>The pieces of an element that struct fields are filled from.\<close>

definition kids_of :: "xnode \<Rightarrow> xnode list" where
  "kids_of x = (case x of NElem n as kids s e \<Rightarrow> kids | _ \<Rightarrow> [])"

text \<open>\<open>,attr\<close>: the last attribute of that local name; \<open>old\<close> stays when there is none.\<close>

definition attr_of :: "string \<Rightarrow> string \<Rightarrow> xnode \<Rightarrow> string" where
  "attr_of k old x =
     (case x of
        NElem n as kids s e \<Rightarrow> (case map_of (rev as) k of Some v \<Rightarrow> v | None \<Rightarrow> old)
      | _ \<Rightarrow> old)"

text \<open>Child elements of a local name, in order.\<close>

definition named :: "string \<Rightarrow> xnode \<Rightarrow> xnode list" where
  "named k x = filter (\<lambda>y. case y of NElem n as ks s e \<Rightarrow> n = k | _ \<Rightarrow> False) (kids_of x)"

text \<open>\<open>,chardata\<close>, and the value of a string: the text directly inside.\<close>

definition chardata :: "xnode \<Rightarrow> string" where
  "chardata x = concat (map (\<lambda>y. case y of NText t raw \<Rightarrow> t | _ \<Rightarrow> []) (kids_of x))"

definition innerxml :: "xnode \<Rightarrow> string" where
  "innerxml x = concat (map node_raw (kids_of x))"

text \<open>A string field is set by each element of its name, so the last one counts.\<close>

definition string_field :: "string \<Rightarrow> xnode \<Rightarrow> string" where
  "string_field k x = (case named k x of [] \<Rightarrow> [] | ys \<Rightarrow> chardata (last ys))"

end
