(* ===== verification/Xmltv.thy ===== *)
theory Xmltv
  imports Xml Dates HttpGuard
begin

text \<open>
  The XMLTV parser, \<open>src/internal/xmltv/parser.go\<close>. \<open>Parse\<close> walks the tokens of the document and
  hands each channel and each programme, wherever it is nested, to a callback; here a callback
  passes a state on or fails. Two things are parameters: \<open>gunzip\<close>, the decompression of
  \<open>compress/gzip\<close>, and \<open>uni\<close>, see the theory \<open>Xml\<close>.
\<close>

section \<open>Types\<close>

record xm_Channel =
  xc_ID :: string
  xc_DisplayName :: string
  xc_IconURL :: string

record xm_Credit =
  xk_Kind :: string
  xk_Name :: string
  xk_Pos :: int

record Programme =
  xp_Channel :: string
  xp_Start :: time
  xp_Stop :: time
  xp_Title :: string
  xp_SubTitle :: string
  xp_Description :: string
  xp_Categories :: "string list"
  xp_EpisodeNum :: string
  xp_SeasonNum :: "int option"
  xp_Episode :: "int option"
  xp_Rating :: string
  xp_IconURL :: string
  xp_OriginalAirDate :: "time option"
  xp_Credits :: "xm_Credit list"

section \<open>Raw elements\<close>

text \<open>The icon of an element: each \<open>icon\<close> child with a \<open>src\<close> overwrites it.\<close>

definition icon_src :: "xnode \<Rightarrow> string" where
  "icon_src x = foldl (\<lambda>old i. attr_of ''src'' old i) [] (named ''icon'' x)"

definition toChannel :: "xnode \<Rightarrow> xm_Channel" where
  "toChannel x =
     \<lparr>xc_ID = attr_of ''id'' [] x, xc_DisplayName = trim_space (string_field ''display-name'' x),
      xc_IconURL = icon_src x\<rparr>"

text \<open>\<open>rawRating\<close> is one struct: the last \<open>value\<close> in any \<open>rating\<close> counts.\<close>

definition rating_value :: "xnode \<Rightarrow> string" where
  "rating_value x =
     (case concat (map (named ''value'') (named ''rating'' x)) of [] \<Rightarrow> [] | ys \<Rightarrow> chardata (last ys))"

definition episode_nums :: "xnode \<Rightarrow> (string \<times> string) list" where
  "episode_nums x = map (\<lambda>e. (attr_of ''system'' [] e, chardata e)) (named ''episode-num'' x)"

definition credits_xml :: "xnode \<Rightarrow> string" where
  "credits_xml x = (case named ''credits'' x of [] \<Rightarrow> [] | ys \<Rightarrow> innerxml (last ys))"

definition creditKinds :: "string list" where
  "creditKinds = [''presenter'', ''director'', ''actor'', ''writer'', ''guest'', ''producer'', ''composer'', ''editor'']"

definition isCreditKind :: "string \<Rightarrow> bool" where
  "isCreditKind n = list_ex (\<lambda>k. k = n) creditKinds"

section \<open>Episode numbers\<close>

text \<open>One component of an \<open>xmltv_ns\<close> number, zero-based, perhaps with a total after a slash.\<close>

definition ns_component :: "string \<Rightarrow> int option" where
  "ns_component p0 =
     (let p = trim_space p0 in
      if p = [] then None
      else
        let p = trim_space (case index_byte p (CHR ''/'') of Some i \<Rightarrow> take i p | None \<Rightarrow> p) in
        if p = [] then None else map_option (\<lambda>n. wrap64 (n + 1)) (atoi p))"

text \<open>\<open>strings.SplitN\<close> with a limit of three; the third part is not used.\<close>

definition parseXMLTVNS :: "string \<Rightarrow> int option \<times> int option" where
  "parseXMLTVNS s =
     (if s = [] then (None, None)
      else case split2 s (CHR ''.'') of
        (a, None) \<Rightarrow> (ns_component a, None)
      | (a, Some r) \<Rightarrow> (ns_component a, ns_component (fst (split2 r (CHR ''.'')))))"

text \<open>A season or an episode as a guide writes it: zero-based, perhaps with the number of parts.\<close>

definition render_ns :: "int \<Rightarrow> int option \<Rightarrow> string" where
  "render_ns n tot = itoa n @ (case tot of None \<Rightarrow> [] | Some m \<Rightarrow> CHR ''/'' # itoa m)"

lemma itoa_no_sep: "CHR ''/'' \<notin> set (itoa i)" "CHR ''.'' \<notin> set (itoa i)"
  by (auto dest!: itoa_bytes simp: is_digit_def)

lemma render_ns_facts:
  "CHR ''.'' \<notin> set (render_ns n tot)" "list_all solid (render_ns n tot)" "render_ns n tot \<noteq> []"
  using itoa_no_sep itoa_solid by (auto simp: render_ns_def split: option.splits)

lemma ns_component_render:
  assumes "0 \<le> n" "n < 2 ^ 63 - 1"
  shows "ns_component (render_ns n tot) = Some (n + 1)"
proof -
  have "in_int64 n" "in_int64 (n + 1)" using assms by (auto simp: in_int64_def)
  then have a: "map_option (\<lambda>n. wrap64 (n + 1)) (atoi (itoa n)) = Some (n + 1)"
    by (simp add: atoi_itoa wrap64_id)
  have t: "trim_space (render_ns n tot) = render_ns n tot" "trim_space (itoa n) = itoa n"
    using render_ns_facts itoa_solid by (simp_all add: trim_space_trimmed trimmed_solid)
  have "(case index_byte (render_ns n tot) (CHR ''/'') of Some i \<Rightarrow> take i (render_ns n tot)
      | None \<Rightarrow> render_ns n tot) = itoa n"
    by (cases tot) (simp_all add: render_ns_def index_byte_append index_byte_absent itoa_no_sep)
  with a t show ?thesis by (simp add: ns_component_def render_ns_facts Let_def)
qed

text \<open>Property C32: an episode number that names season \<open>s\<close> and episode \<open>e\<close>, counted from zero and each
  perhaps with a total, with or without a third part, is read as season \<open>s + 1\<close> and episode
  \<open>e + 1\<close>.\<close>

theorem episode_numbers:
  assumes "0 \<le> s" "s < 2 ^ 63 - 1" "0 \<le> e" "e < 2 ^ 63 - 1" "part = [] \<or> hd part = CHR ''.''"
  shows "parseXMLTVNS (render_ns s st @ ''.'' @ render_ns e et @ part) = (Some (s + 1), Some (e + 1))"
proof -
  have "fst (split2 (render_ns e et @ part) (CHR ''.'')) = render_ns e et"
    using assms(5) render_ns_facts(1) [of e et]
    by (cases part) (auto simp: split2_append, simp add: split2_def index_byte_absent)
  then show ?thesis
    using assms by (simp add: parseXMLTVNS_def split2_append render_ns_facts ns_component_render)
qed

theorem episode_numbers_witness:
  "parseXMLTVNS (render_ns 4 None @ ''.'' @ render_ns 11 (Some 22) @ ''.0/1'') = (Some 5, Some 12)"
  using episode_numbers [of 4 11 "''.0/1''" None "Some 22"] by simp

section \<open>Credits\<close>

function credits_loop :: "err option \<Rightarrow> int \<Rightarrow> xtokens \<Rightarrow> err + xm_Credit list" where
  "credits_loop fin pos ts =
     (case ts of
        [] \<Rightarrow> (case fin of None \<Rightarrow> Inr [] | Some e \<Rightarrow> Inl (wrapf ''xmltv: parse credits'' e))
      | (XStart n as, raw) # ts' \<Rightarrow>
          if \<not> isCreditKind (snd n) then
            (case xml_build (open_frame n as raw) [] ts' of
               None \<Rightarrow> Inl (wrapf ''xmltv: skip credit'' (token_error fin))
             | Some (x, r) \<Rightarrow> credits_loop fin pos r)
          else
            (case xml_build (open_frame n as raw) [] ts' of
               None \<Rightarrow> Inl (wrapf ''xmltv: decode credit'' (token_error fin))
             | Some (x, r) \<Rightarrow>
                 (case credits_loop fin (pos + 1) r of
                    Inl e \<Rightarrow> Inl e
                  | Inr cs \<Rightarrow>
                      Inr (\<lparr>xk_Kind = snd n, xk_Name = trim_space (chardata x), xk_Pos = pos + 1\<rparr> # cs)))
      | _ # ts' \<Rightarrow> credits_loop fin pos ts')"
  by pat_completeness auto
termination
  by (relation "measure (\<lambda>(fin, pos, ts). length ts)") (auto dest: xml_build_shorter)

declare credits_loop.simps [simp del]

definition parseCredits :: "(string \<Rightarrow> bool) \<Rightarrow> string \<Rightarrow> err + xm_Credit list" where
  "parseCredits uni inner = (let (ts, fin) = xml_decode uni (inner, None) in credits_loop fin 0 ts)"

lemma credits_pos:
  "credits_loop fin pos ts = Inr cs \<Longrightarrow>
   map xk_Pos cs = map (\<lambda>i. pos + 1 + int i) [0..<length cs] \<and> list_all (isCreditKind \<circ> xk_Kind) cs"
proof (induction fin pos ts arbitrary: cs rule: credits_loop.induct)
  case (1 fin pos ts)
  have shift: "map (\<lambda>i. pos + 1 + 1 + int i) [0..<m] = map (\<lambda>i. pos + 1 + int i) [1..<Suc m]" for m
    unfolding One_nat_def map_Suc_upt [symmetric] map_map by (simp add: comp_def)
  have cons: "map xk_Pos (c # r) = map (\<lambda>i. pos + 1 + int i) [0..<length (c # r)]"
    if "xk_Pos c = pos + 1" "map xk_Pos r = map (\<lambda>i. pos + 1 + 1 + int i) [0..<length r]" for c r
    using that by (simp only: shift list.map length_Cons upt_conv_Cons [of 0 "Suc _"]) simp
  show ?case
  proof (cases ts)
    case Nil
    with "1.prems" have "credits_loop fin pos [] = Inr cs" by simp
    then show ?thesis by (subst (asm) credits_loop.simps) (simp split: option.splits)
  next
    case (Cons y ts')
    obtain t raw where y: "y = (t, raw)" by (cases y)
    have step: "credits_loop fin pos ((t, raw) # ts') = Inr cs"
      using "1.prems" by (simp add: Cons y)
    show ?thesis
    proof (cases t)
      case (XStart n as)
      obtain x r where b: "xml_build (open_frame n as raw) [] ts' = Some (x, r)"
        using step XStart by (subst (asm) credits_loop.simps) (auto split: option.splits if_splits)
      show ?thesis
      proof (cases "isCreditKind (snd n)")
        case False
        with step XStart b have "credits_loop fin pos r = Inr cs"
          by (subst (asm) credits_loop.simps) simp
        then show ?thesis using "1.IH"(1) [OF Cons y [symmetric] XStart False b refl] by blast
      next
        case True
        with step XStart b obtain cs' where r: "credits_loop fin (pos + 1) r = Inr cs'"
          and cs: "cs = \<lparr>xk_Kind = snd n, xk_Name = trim_space (chardata x), xk_Pos = pos + 1\<rparr> # cs'"
          by (subst (asm) credits_loop.simps) (auto split: sum.splits)
        then have "map xk_Pos cs' = map (\<lambda>i. pos + 1 + 1 + int i) [0..<length cs'] \<and>
            list_all (isCreditKind \<circ> xk_Kind) cs'"
          using "1.IH"(2) [OF Cons y [symmetric] XStart _ b refl r] True by blast
        then show ?thesis unfolding cs
          using cons [of "\<lparr>xk_Kind = snd n, xk_Name = trim_space (chardata x), xk_Pos = pos + 1\<rparr>" cs'] True
          by (simp only: xm_Credit.simps list.pred_inject comp_def simp_thms)
      qed
    qed (use step "1.IH" Cons y in \<open>(subst (asm) credits_loop.simps, simp)+\<close>)
  qed
qed

text \<open>Property C33: the credits of a programme are numbered from 1 without gaps, in the order of the
  document, and each has one of the known kinds.\<close>

theorem credits_numbered:
  assumes "parseCredits uni inner = Inr cs"
  shows "map xk_Pos cs = map int [1..<Suc (length cs)] \<and> list_all (isCreditKind \<circ> xk_Kind) cs"
  using assms credits_pos [of _ 0 _ cs]
  by (auto simp: parseCredits_def map_Suc_upt [symmetric] split: prod.splits simp del: upt_Suc map_Suc_upt)

theorem credits_numbered_witness:
  "map_sum id (map (\<lambda>c. (xk_Kind c, xk_Name c, xk_Pos c)))
     (parseCredits (\<lambda>_. False) ''<director>A</director><x>q</x><actor> B </actor>'') =
   Inr [(''director'', ''A'', 1), (''actor'', ''B'', 2)]"
proof -
  let ?doc = "''<director>A</director><x>q</x><actor> B </actor>''"
  obtain cs where cs: "parseCredits (\<lambda>_. False) ?doc = Inr cs"
      "map (\<lambda>c. (xk_Kind c, xk_Name c)) cs = [(''director'', ''A''), (''actor'', ''B'')]"
    by (rule that [of "[\<lparr>xk_Kind = ''director'', xk_Name = ''A'', xk_Pos = 1\<rparr>,
        \<lparr>xk_Kind = ''actor'', xk_Name = ''B'', xk_Pos = 2\<rparr>]"]) code_simp+
  with credits_numbered [OF cs(1)] show ?thesis by (auto simp: map_eq_Cons_conv)
qed

section \<open>Programmes\<close>

text \<open>
  \<open>time.Parse\<close> for the start and stop attributes; an empty one is the zero time. Of the message of a
  parse error only the beginning is kept.
\<close>

definition xmltv_time :: "string \<Rightarrow> string \<Rightarrow> err + time" where
  "xmltv_time what s =
     (if s = [] then Inr zero_time
      else case parse_xmltv_time s of
        None \<Rightarrow> Inl (wrapf (''xmltv: parse '' @ what) (Err OtherErr (''parsing time '' @ go_quote s)))
      | Some t \<Rightarrow> Inr t)"

definition first_ns :: "(string \<times> string) list \<Rightarrow> string option" where
  "first_ns ens = map_option (\<lambda>en. trim_space (snd en)) (find (\<lambda>en. fst en = ''xmltv_ns'') ens)"

definition air_date :: "string \<Rightarrow> time option" where
  "air_date s = (if s = [] then None else parse_yyyymmdd (trim_space s))"

definition toProgramme :: "(string \<Rightarrow> bool) \<Rightarrow> xnode \<Rightarrow> err + Programme" where
  "toProgramme uni x =
     (case xmltv_time ''start'' (attr_of ''start'' [] x) of
        Inl e \<Rightarrow> Inl e
      | Inr t0 \<Rightarrow>
          (case xmltv_time ''stop'' (attr_of ''stop'' [] x) of
             Inl e \<Rightarrow> Inl e
           | Inr t1 \<Rightarrow>
               (let ep = first_ns (episode_nums x);
                    (sn, en) = (case ep of None \<Rightarrow> (None, None) | Some v \<Rightarrow> parseXMLTVNS v);
                    inner = credits_xml x
                in case (if trim_space inner = [] then Inr [] else parseCredits uni inner) of
                     Inl e \<Rightarrow> Inl e
                   | Inr cs \<Rightarrow>
                       Inr \<lparr>xp_Channel = attr_of ''channel'' [] x, xp_Start = t0, xp_Stop = t1,
                         xp_Title = trim_space (string_field ''title'' x),
                         xp_SubTitle = trim_space (string_field ''sub-title'' x),
                         xp_Description = trim_space (string_field ''desc'' x),
                         xp_Categories = map chardata (named ''category'' x),
                         xp_EpisodeNum = (case ep of None \<Rightarrow> [] | Some v \<Rightarrow> v),
                         xp_SeasonNum = sn, xp_Episode = en,
                         xp_Rating = trim_space (rating_value x), xp_IconURL = icon_src x,
                         xp_OriginalAirDate = air_date (string_field ''date'' x), xp_Credits = cs\<rparr>)))"

section \<open>The document\<close>

type_synonym ('a, 's) callback = "('a \<Rightarrow> 's \<Rightarrow> err + 's) option"

definition call_back :: "('a, 's) callback \<Rightarrow> err + 'a \<Rightarrow> 's \<Rightarrow> err + 's" where
  "call_back cb arg st =
     (case cb of
        None \<Rightarrow> Inr st
      | Some f \<Rightarrow> (case arg of Inl e \<Rightarrow> Inl e | Inr a \<Rightarrow> f a st))"

function parse_loop :: "(string \<Rightarrow> bool) \<Rightarrow> err option \<Rightarrow> (xm_Channel, 's) callback \<Rightarrow>
    (Programme, 's) callback \<Rightarrow> xtokens \<Rightarrow> 's \<Rightarrow> err + 's" where
  "parse_loop uni fin onC onP ts st =
     (case ts of
        [] \<Rightarrow> (case fin of None \<Rightarrow> Inr st | Some e \<Rightarrow> Inl (wrapf ''xmltv: token'' e))
      | (XStart n as, raw) # ts' \<Rightarrow>
          if snd n = ''channel'' then
            (case xml_build (open_frame n as raw) [] ts' of
               None \<Rightarrow> Inl (wrapf ''xmltv: decode channel'' (token_error fin))
             | Some (x, r) \<Rightarrow>
                 (case call_back onC (Inr (toChannel x)) st of
                    Inl e \<Rightarrow> Inl e
                  | Inr st \<Rightarrow> parse_loop uni fin onC onP r st))
          else if snd n = ''programme'' then
            (case xml_build (open_frame n as raw) [] ts' of
               None \<Rightarrow> Inl (wrapf ''xmltv: decode programme'' (token_error fin))
             | Some (x, r) \<Rightarrow>
                 (case call_back onP (toProgramme uni x) st of
                    Inl e \<Rightarrow> Inl e
                  | Inr st \<Rightarrow> parse_loop uni fin onC onP r st))
          else parse_loop uni fin onC onP ts' st
      | _ # ts' \<Rightarrow> parse_loop uni fin onC onP ts' st)"
  by pat_completeness auto
termination
  by (relation "measure (\<lambda>(uni, fin, onC, onP, ts, st). length ts)") (auto dest: xml_build_shorter)

declare parse_loop.simps [simp del]

definition xmltv_Parse :: "(string \<Rightarrow> bool) \<Rightarrow> (xm_Channel, 's) callback \<Rightarrow> (Programme, 's) callback \<Rightarrow>
    http_body \<Rightarrow> 's \<Rightarrow> err + 's" where
  "xmltv_Parse uni onC onP body st = (let (ts, fin) = xml_decode uni body in parse_loop uni fin onC onP ts st)"

definition gzipMagic :: string where
  "gzipMagic = [CHR 0x1F, CHR 0x8B]"

definition ParseAuto :: "(http_body \<Rightarrow> err + http_body) \<Rightarrow> (string \<Rightarrow> bool) \<Rightarrow> (xm_Channel, 's) callback \<Rightarrow>
    (Programme, 's) callback \<Rightarrow> http_body \<Rightarrow> 's \<Rightarrow> err + 's" where
  "ParseAuto gunzip uni onC onP body st =
     (if has_prefix (fst body) gzipMagic then
        (case gunzip body of
           Inl e \<Rightarrow> Inl (wrapf ''xmltv: gzip'' e)
         | Inr b \<Rightarrow> xmltv_Parse uni onC onP b st)
      else xmltv_Parse uni onC onP body st)"

end
