(* ===== verification/RefreshXMLTV.thy ===== *)
theory RefreshXMLTV
  imports RefreshM3U Xmltv
begin

text \<open>
  The XMLTV refresh worker, \<open>src/internal/refresh/xmltv.go\<close>: the conditional GET, the parsing of
  the whole document, one transaction per guide channel that replaces its future programmes, the
  automatic links by channel id, and the pruning of old programmes. A Go map is ranged over in
  an arbitrary order: \<open>ord\<close> is the order taken. \<open>gunzip\<close> and \<open>uni\<close> are those of \<open>Xmltv\<close>.
\<close>

section \<open>Collecting the document\<close>

definition pruneAge :: duration where
  "pruneAge = 6 * hour"

definition toStoreProgram :: "Programme \<Rightarrow> Program" where
  "toStoreProgram p =
     \<lparr>pr_ID = [], pr_XMLTVChannelID = xp_Channel p, pr_Title = xp_Title p, pr_SubTitle = xp_SubTitle p,
      pr_Description = xp_Description p, pr_EpisodeNum = xp_EpisodeNum p, pr_Rating = xp_Rating p,
      pr_IconURL = xp_IconURL p, pr_Start = xp_Start p, pr_Stop = xp_Stop p,
      pr_Categories = xp_Categories p, pr_SeasonNum = xp_SeasonNum p, pr_Episode = xp_Episode p,
      pr_OriginalAirDate = xp_OriginalAirDate p,
      pr_Credits = map (\<lambda>c. \<lparr>cr_Kind = xk_Kind c, cr_Name = xk_Name c, cr_Position = xk_Pos c\<rparr>) (xp_Credits p)\<rparr>"

text \<open>The channel ids, and the programmes by channel id.\<close>

type_synonym guide_doc = "string list \<times> (string \<times> Program list) list"

definition onChannel :: "xm_Channel \<Rightarrow> guide_doc \<Rightarrow> err + guide_doc" where
  "onChannel c d = (case d of (ids, ps) \<Rightarrow> Inr (ids @ [xc_ID c], ps))"

definition onProgramme :: "Programme \<Rightarrow> guide_doc \<Rightarrow> err + guide_doc" where
  "onProgramme p d =
     (case d of (ids, ps) \<Rightarrow>
        let old = (case map_of ps (xp_Channel p) of None \<Rightarrow> [] | Some qs \<Rightarrow> qs)
        in Inr (ids, AList.update (xp_Channel p) (old @ [toStoreProgram p]) ps))"

section \<open>Storing it\<close>

definition xmltv_failed :: "ctx \<Rightarrow> XMLTVSource \<Rightarrow> string \<Rightarrow> string \<Rightarrow> err \<Rightarrow> time \<Rightarrow> world \<Rightarrow> (err + unit) \<times> world" where
  "xmltv_failed ctx src sid st e now w =
     (let (_, w) = MarkXMLTVStatus ctx sid st (src_ETag src) (src_LastModified src) now w in (Inl e, w))"

definition autoLinkEPG :: "ctx \<Rightarrow> string \<Rightarrow> world \<Rightarrow> (err + unit) \<times> world" where
  "autoLinkEPG ctx xid w = wrap_err ''insert channel_epg_keys'' (db_call ctx (auto_link xid) w)"

text \<open>The two loops; an error is returned bare and as the worker wraps it.\<close>

fun replace_all :: "ctx \<Rightarrow> (string \<times> Program list) list \<Rightarrow> world \<Rightarrow> ((err \<times> err) + unit) \<times> world" where
  "replace_all ctx [] w = (Inr (), w)"
| "replace_all ctx ((xid, ps) # rest) w =
     (case ReplaceFutureForChannel ctx xid ps w of
        (Inl e, w) \<Rightarrow> (Inl (e, wrapf (''replace future '' @ xid) e), w)
      | (Inr _, w) \<Rightarrow> replace_all ctx rest w)"

fun link_all :: "ctx \<Rightarrow> string list \<Rightarrow> world \<Rightarrow> ((err \<times> err) + unit) \<times> world" where
  "link_all ctx [] w = (Inr (), w)"
| "link_all ctx (xid # rest) w =
     (case autoLinkEPG ctx xid w of
        (Inl e, w) \<Rightarrow> (Inl (e, wrapf (''auto-link '' @ xid) e), w)
      | (Inr _, w) \<Rightarrow> link_all ctx rest w)"

definition store_guide :: "((string \<times> Program list) list \<Rightarrow> (string \<times> Program list) list) \<Rightarrow> ctx \<Rightarrow>
    guide_doc \<Rightarrow> world \<Rightarrow> ((err \<times> err) + unit) \<times> world" where
  "store_guide ord ctx d w =
     (case replace_all ctx (ord (snd d)) w of
        (Inl e, w) \<Rightarrow> (Inl e, w)
      | (Inr _, w) \<Rightarrow>
          (case link_all ctx (fst d) w of
             (Inl e, w) \<Rightarrow> (Inl e, w)
           | (Inr _, w) \<Rightarrow>
               (case PruneOldPrograms ctx (wnow w - pruneAge) w of
                  (Inl e, w) \<Rightarrow> (Inl (e, wrapf ''prune'' e), w)
                | (Inr _, w) \<Rightarrow> (Inr (), w))))"

definition XMLTV_RefreshOne :: "(http_body \<Rightarrow> err + http_body) \<Rightarrow> (string \<Rightarrow> bool) \<Rightarrow>
    ((string \<times> Program list) list \<Rightarrow> (string \<times> Program list) list) \<Rightarrow>
    ctx \<Rightarrow> string \<Rightarrow> world \<Rightarrow> (err + unit) \<times> world" where
  "XMLTV_RefreshOne gunzip uni ord ctx sid w =
     (case GetXMLTVSource ctx sid w of
        (Inl e, w) \<Rightarrow> (Inl (wrapf ''get xmltv source'' e), w)
      | (Inr src, w) \<Rightarrow>
          (case source_request src of
             Inl e \<Rightarrow> xmltv_failed ctx src sid (error_status e) (wrapf ''build request'' e) (wnow w) w
           | Inr req \<Rightarrow>
               (case http_Do ctx req w of
                  (Inl e, w) \<Rightarrow> xmltv_failed ctx src sid (error_status e) (wrapf ''http get'' e) (wnow w) w
                | (Inr resp, w) \<Rightarrow>
                    let now = wnow w in
                    if rp_Status resp = 304 then
                      wrap_err ''mark status''
                        (MarkXMLTVStatus ctx sid ''ok'' (src_ETag src) (src_LastModified src) now w)
                    else if rp_Status resp < 200 \<or> 300 \<le> rp_Status resp then
                      xmltv_failed ctx src sid (''error: HTTP '' @ itoa (rp_Status resp))
                        (Err OtherErr (''http '' @ itoa (rp_Status resp))) now w
                    else
                      case ParseAuto gunzip uni (Some onChannel) (Some onProgramme)
                          (LimitBody (rp_Body resp) XMLTVMaxBytes) ([], []) of
                        Inl e \<Rightarrow> xmltv_failed ctx src sid (error_status e) (wrapf ''parse xmltv'' e) now w
                      | Inr d \<Rightarrow>
                          (case store_guide ord ctx d w of
                             (Inl (e, e'), w) \<Rightarrow> xmltv_failed ctx src sid (error_status e) e' now w
                           | (Inr _, w) \<Rightarrow>
                               wrap_err ''mark status'' (MarkXMLTVStatus ctx sid ''ok''
                                 (hdr_Get ''ETag'' (rp_Header resp)) (hdr_Get ''Last-Modified'' (rp_Header resp)) now w)))))"

definition XMLTV_RefreshAll :: "(http_body \<Rightarrow> err + http_body) \<Rightarrow> (string \<Rightarrow> bool) \<Rightarrow>
    ((string \<times> Program list) list \<Rightarrow> (string \<times> Program list) list) \<Rightarrow>
    ctx \<Rightarrow> world \<Rightarrow> (err + unit) \<times> world" where
  "XMLTV_RefreshAll gunzip uni ord ctx w =
     (case wrap_err ''list xmltv sources'' (ListXMLTVSources ctx w) of
        (Inl e, w) \<Rightarrow> (Inl e, w)
      | (Inr srcs, w) \<Rightarrow>
          (let (es, w) = refresh_each (XMLTV_RefreshOne gunzip uni ord ctx) srcs w in (errors_Join es, w)))"

section \<open>What a refresh does to the database\<close>

context refresh_relation
begin

lemma R_xmltv_failed: "R (wdb w) (wdb (snd (xmltv_failed ctx src sid st e now w)))"
  using R_MarkXMLTVStatus [of w ctx sid st "src_ETag src" "src_LastModified src" now]
  by (auto simp: xmltv_failed_def split: prod.split)

lemma R_mark_xmltv: "R (wdb w) (wdb (snd (wrap_err p (MarkXMLTVStatus ctx sid st et lm t w))))"
  by (simp only: snd_worlds R_MarkXMLTVStatus)

lemma R_autoLinkEPG: "R (wdb w) (wdb (snd (autoLinkEPG ctx xid w)))"
  unfolding autoLinkEPG_def snd_worlds by (rule R_call, erule R_auto_link)

lemma R_replace_all: "R (wdb w) (wdb (snd (replace_all ctx ps w)))"
proof (induction ctx ps w rule: replace_all.induct)
  case (2 ctx xid ps rest w)
  obtain a v where r: "ReplaceFutureForChannel ctx xid ps w = (a, v)" by (cases "ReplaceFutureForChannel ctx xid ps w")
  have "R (wdb w) (wdb v)" using R_ReplaceFuture [of w ctx xid ps] r by simp
  with r 2 [OF r [symmetric]] R_trans show ?case by (auto split: sum.split)
qed (simp add: R_refl)

lemma R_link_all: "R (wdb w) (wdb (snd (link_all ctx ids w)))"
proof (induction ctx ids w rule: link_all.induct)
  case (2 ctx xid rest w)
  obtain a v where r: "autoLinkEPG ctx xid w = (a, v)" by (cases "autoLinkEPG ctx xid w")
  have "R (wdb w) (wdb v)" using R_autoLinkEPG [of w ctx xid] r by simp
  with r 2 [OF r [symmetric]] R_trans show ?case by (auto split: sum.split)
qed (simp add: R_refl)

lemma R_store_guide: "R (wdb w) (wdb (snd (store_guide ord ctx d w)))"
proof -
  obtain a v where r: "replace_all ctx (ord (snd d)) w = (a, v)" by (cases "replace_all ctx (ord (snd d)) w")
  have v: "R (wdb w) (wdb v)" using R_replace_all [of w ctx "ord (snd d)"] r by simp
  obtain b x where l: "link_all ctx (fst d) v = (b, x)" by (cases "link_all ctx (fst d) v")
  have x: "R (wdb w) (wdb x)" using R_trans [OF v R_link_all] l by (metis snd_conv)
  obtain c y where p: "PruneOldPrograms ctx (wnow x - pruneAge) x = (c, y)"
    by (cases "PruneOldPrograms ctx (wnow x - pruneAge) x")
  have y: "R (wdb w) (wdb y)" using R_trans [OF x R_PruneOldPrograms] p by (metis snd_conv)
  show ?thesis using r l p v x y by (auto simp: store_guide_def split: sum.split)
qed

lemma R_XMLTV_RefreshOne: "R (wdb w) (wdb (snd (XMLTV_RefreshOne gunzip uni ord ctx sid w)))"
proof -
  obtain g v where g: "GetXMLTVSource ctx sid w = (g, v)" by (cases "GetXMLTVSource ctx sid w")
  have v: "R (wdb w) (wdb v)" using R_GetXMLTVSource [of w ctx sid] g by simp
  show ?thesis
  proof (cases g)
    case (Inl e)
    with g v show ?thesis by (simp add: XMLTV_RefreshOne_def)
  next
    case (Inr src)
    show ?thesis
    proof (cases "source_request src")
      case (Inl e)
      with g Inr R_trans [OF v R_xmltv_failed] show ?thesis by (simp add: XMLTV_RefreshOne_def)
    next
      case (Inr req)
      obtain a x where d: "http_Do ctx req v = (a, x)" by (cases "http_Do ctx req v")
      have x: "R (wdb w) (wdb x)" using v d http_Do_wdb [of ctx req v] by simp
      have y: "R (wdb w) (wdb y)" if "store_guide ord ctx doc x = (b, y)" for doc b y
        using R_trans [OF x R_store_guide] that by (metis snd_conv)
      from R_trans [OF x R_xmltv_failed] R_trans [OF x R_mark_xmltv] y R_trans [OF y R_mark_xmltv] R_trans [OF y R_xmltv_failed]
      show ?thesis
        using g \<open>g = Inr src\<close> Inr d
        by (auto simp: XMLTV_RefreshOne_def Let_def split: sum.split prod.split)
    qed
  qed
qed

lemma R_XMLTV_RefreshAll: "R (wdb w) (wdb (snd (XMLTV_RefreshAll gunzip uni ord ctx w)))"
proof -
  obtain a v where l: "ListXMLTVSources ctx w = (a, v)" by (cases "ListXMLTVSources ctx w")
  have v: "R (wdb w) (wdb v)" using R_ListXMLTVSources [of w ctx] l by simp
  show ?thesis
  proof (cases a)
    case (Inr srcs)
    have "R (wdb w) (wdb (snd (refresh_each (XMLTV_RefreshOne gunzip uni ord ctx) srcs v)))"
      by (rule R_trans [OF v R_refresh_each]) (rule R_XMLTV_RefreshOne)
    with l Inr show ?thesis by (auto simp: XMLTV_RefreshAll_def split: prod.split)
  qed (use l v in \<open>simp add: XMLTV_RefreshAll_def\<close>)
qed

end


section \<open>What a refresh makes of the guide\<close>

text \<open>A programme without its identifier, as the columns store it.\<close>

definition stored :: "program_row \<Rightarrow> program_row" where
  "stored r = r\<lparr>pr_ID := []\<rparr>"

definition as_stored :: "string \<Rightarrow> Program \<Rightarrow> program_row" where
  "as_stored xid p = program_row.truncate (p\<lparr>pr_ID := [],
     pr_XMLTVChannelID := (if pr_XMLTVChannelID p = [] then xid else pr_XMLTVChannelID p),
     pr_Start := pg_ts (pr_Start p), pr_Stop := pg_ts (pr_Stop p),
     pr_OriginalAirDate := map_option pg_date (pr_OriginalAirDate p)\<rparr>)"

lemma stored_copy_row: "stored (fst (copy_row xid p w)) = as_stored xid p"
  by (auto simp: copy_row_def stored_def as_stored_def Let_def program_row.defs split: prod.split)

lemma copy_rows_spec:
  "copy_rows xid ps w = (rs, w') \<Longrightarrow>
   map stored rs = map (as_stored xid) ps \<and> script w' = script w \<and> wnow w' = wnow w \<and> wdb w' = wdb w"
proof (induction ps arbitrary: w rs)
  case (Cons p ps)
  obtain r v where r: "copy_row xid p w = (r, v)" by (cases "copy_row xid p w")
  obtain rs' where rs: "copy_rows xid ps v = (rs', w')" "rs = r # rs'"
    using Cons.prems r by (auto simp: Let_def split: prod.splits)
  have "script v = script w" "wnow v = wnow w" "wdb v = wdb w"
    using r by (auto simp: copy_row_def newULID_def split: if_splits)
  with Cons.IH [OF rs(1)] stored_copy_row [of xid p w] r rs(2) show ?case by simp
qed simp

lemma copy_programs_rows: "copy_programs rs s = Inr s2 \<Longrightarrow> programs s2 = programs s @ rs"
  by (auto simp: copy_programs_def split: if_splits)

text \<open>
  Property C35: what replacing the future of a guide channel does. The programmes of this
  channel that start at or after the moment of the transaction are gone, everything else
  stays, and the whole batch is appended. So a programme of the batch that has already started
  is stored once more by every refresh.
\<close>

theorem replace_future_effect:
  assumes "ReplaceFutureForChannel live xid ps w = (Inr (), w')" "script w = []"
  shows "map stored (programs (wdb w')) =
    map stored (filter (\<lambda>r. \<not> future_of xid (pg_ts (wnow w)) r) (programs (wdb w))) @ map (as_stored xid) ps"
proof -
  let ?now = "pg_ts (wnow w)"
  let ?s = "delete_programs (future_of xid ?now) (wdb w)"
  have del: "programs ?s = filter (\<lambda>r. \<not> future_of xid ?now r) (programs (wdb w))"
    by (simp add: delete_programs_def Let_def sql_delete_def)
  obtain rs v where c: "copy_rows xid ps w = (rs, v)" by (cases "copy_rows xid ps w")
  note v = copy_rows_spec [OF c]
  show ?thesis
  proof (cases "ps = []")
    case True
    then show ?thesis using assms del by (auto simp: ReplaceFutureForChannel_def db_call_quiet)
  next
    case False
    then obtain s2 where s2: "copy_programs rs ?s = Inr s2" "wdb w' = s2"
      using assms c v by (auto simp: ReplaceFutureForChannel_def db_call_quiet split: sum.splits)
    with copy_programs_rows have "programs (wdb w') = programs ?s @ rs" by blast
    with del v show ?thesis by simp
  qed
qed

text \<open>A programme that started an hour ago, refreshed twice.\<close>

definition demo_program :: Program where
  "demo_program = toStoreProgram \<lparr>xp_Channel = ''x'', xp_Start = - hour, xp_Stop = hour, xp_Title = ''T'',
     xp_SubTitle = [], xp_Description = [], xp_Categories = [], xp_EpisodeNum = [], xp_SeasonNum = None,
     xp_Episode = None, xp_Rating = [], xp_IconURL = [], xp_OriginalAirDate = None, xp_Credits = []\<rparr>"

lemma demo_replace:
  "fst (ReplaceFutureForChannel live ''x'' [demo_program] demo_world) = Inr ()"
  "fst (ReplaceFutureForChannel live ''x'' [demo_program] (snd (ReplaceFutureForChannel live ''x'' [demo_program] demo_world))) = Inr ()"
  "script (snd (ReplaceFutureForChannel live ''x'' [demo_program] demo_world)) = []"
  "wnow (snd (ReplaceFutureForChannel live ''x'' [demo_program] demo_world)) = 0"
  by code_simp+

lemma stored_simps [simp]:
  "pr_Title (stored r) = pr_Title r" "pr_Start (stored r) = pr_Start r" "pr_XMLTVChannelID (stored r) = pr_XMLTVChannelID r"
  by (simp_all add: stored_def)

theorem replace_future_effect_witness:
  "map pr_Title (programs (wdb (snd (ReplaceFutureForChannel live ''x'' [demo_program]
     (snd (ReplaceFutureForChannel live ''x'' [demo_program] demo_world)))))) = [''T'', ''T'']"
proof -
  let ?f = "ReplaceFutureForChannel live ''x'' [demo_program]"
  let ?w = "snd (?f demo_world)"
  have d: "as_stored ''x'' demo_program = program_row.truncate demo_program" "pr_Start demo_program = - hour"
    "pr_Title demo_program = ''T''"
    by (code_simp, simp_all add: demo_program_def toStoreProgram_def)
  have h1: "?f demo_world = (Inr (), ?w)" and h2: "?f ?w = (Inr (), snd (?f ?w))"
    using demo_replace(1,2) by (simp_all add: prod_eq_iff)
  have "script demo_world = []" "programs (wdb demo_world) = []" by (simp_all add: demo_world_def demo_db_def)
  with replace_future_effect [OF h1] have "map stored (programs (wdb ?w)) = [as_stored ''x'' demo_program]" by simp
  then obtain r where r: "programs (wdb ?w) = [r]" "stored r = as_stored ''x'' demo_program" by auto
  have fields: "pr_Title (stored r) = ''T''" "pr_Start (stored r) = - hour"
    unfolding r(2) d by (simp_all add: program_row.defs d)
  then have "\<not> future_of ''x'' (pg_ts 0) r" by (simp add: future_of_def pg_ts_def hour_def)
  with replace_future_effect [OF h2 demo_replace(3)] demo_replace(4) r
  have "map stored (programs (wdb (snd (?f ?w)))) = [stored r, stored r]" by simp
  then have "map pr_Title (programs (wdb (snd (?f ?w)))) = map pr_Title [stored r, stored r]"
    by (metis (no_types, lifting) list.map_comp list.map_cong0 comp_apply stored_simps(1))
  with fields show ?thesis by simp
qed

end
