(* ===== verification/Settings.thy ===== *)
theory Settings
  imports StoreSources
begin

text \<open>
  \<open>src/internal/settings/snapshot.go\<close>: the settings row in memory. Each access is one step under
  the lock of the snapshot. The getters of the interface \<open>streamproxy.Settings\<close> are the fields of
  the values; a snapshot without a store reloads nothing.
\<close>

record SettingsValues =
  vs_DefaultM3URefresh :: duration
  vs_DefaultXMLTVRefresh :: duration
  vs_GuideWindowCap :: duration
  vs_PerUserStreamCap :: int
  vs_PerChannelDefaultCap :: int
  vs_SessionIdleTimeout :: duration

record Snapshot =
  sp_store :: bool
  sp_values :: SettingsValues

definition Apply :: "SettingsValues \<Rightarrow> Snapshot \<Rightarrow> Snapshot" where
  "Apply v s = s\<lparr>sp_values := v\<rparr>"

definition values_of :: "SettingsRow \<Rightarrow> SettingsValues" where
  "values_of row =
     \<lparr>vs_DefaultM3URefresh = sg_DefaultM3URefresh row, vs_DefaultXMLTVRefresh = sg_DefaultXMLTVRefresh row,
      vs_GuideWindowCap = sg_GuideWindowCap row, vs_PerUserStreamCap = sg_PerUserStreamCap row,
      vs_PerChannelDefaultCap = sg_PerChannelDefaultCap row,
      vs_SessionIdleTimeout = sg_SessionIdleTimeout row\<rparr>"

definition Reload :: "ctx \<Rightarrow> Snapshot \<Rightarrow> world \<Rightarrow> (err + unit) \<times> Snapshot \<times> world" where
  "Reload ctx s w =
     (if \<not> sp_store s then (Inr (), s, w)
      else case GetSettings ctx w of
        (Inl e, w) \<Rightarrow> (Inl (wrapf ''snapshot reload'' e), s, w)
      | (Inr row, w) \<Rightarrow> (Inr (), Apply (values_of row) s, w))"

definition zero_values :: SettingsValues where
  "zero_values =
     \<lparr>vs_DefaultM3URefresh = 0, vs_DefaultXMLTVRefresh = 0, vs_GuideWindowCap = 0,
      vs_PerUserStreamCap = 0, vs_PerChannelDefaultCap = 0, vs_SessionIdleTimeout = 0\<rparr>"

definition Load :: "ctx \<Rightarrow> world \<Rightarrow> (err + Snapshot) \<times> world" where
  "Load ctx w =
     (case Reload ctx \<lparr>sp_store = True, sp_values = zero_values\<rparr> w of
        (Inl e, _, w) \<Rightarrow> (Inl e, w)
      | (Inr _, s, w) \<Rightarrow> (Inr s, w))"

definition FromValues :: "SettingsValues \<Rightarrow> Snapshot" where
  "FromValues v = \<lparr>sp_store = False, sp_values = v\<rparr>"

definition snap_DefaultM3URefresh :: "Snapshot \<Rightarrow> duration" where
  "snap_DefaultM3URefresh s = vs_DefaultM3URefresh (sp_values s)"

definition snap_DefaultXMLTVRefresh :: "Snapshot \<Rightarrow> duration" where
  "snap_DefaultXMLTVRefresh s = vs_DefaultXMLTVRefresh (sp_values s)"

definition snap_GuideWindowCap :: "Snapshot \<Rightarrow> duration" where
  "snap_GuideWindowCap s = vs_GuideWindowCap (sp_values s)"

definition snap_PerUserStreamCap :: "Snapshot \<Rightarrow> int" where
  "snap_PerUserStreamCap s = vs_PerUserStreamCap (sp_values s)"

definition snap_PerChannelDefaultCap :: "Snapshot \<Rightarrow> int" where
  "snap_PerChannelDefaultCap s = vs_PerChannelDefaultCap (sp_values s)"

definition snap_SessionIdleTimeout :: "Snapshot \<Rightarrow> duration" where
  "snap_SessionIdleTimeout s = vs_SessionIdleTimeout (sp_values s)"

lemmas snap_defs = snap_DefaultM3URefresh_def snap_DefaultXMLTVRefresh_def snap_GuideWindowCap_def
  snap_PerUserStreamCap_def snap_PerChannelDefaultCap_def snap_SessionIdleTimeout_def

end
