(* ===== verification/Wire.thy ===== *)
theory Wire
  imports StoreChannels StorePrograms StoreFavorites StoreSessions StoreSources Dates Settings
begin

text \<open>
  What the HTTP API puts on the wire: the answer helpers of \<open>src/internal/server/server.go\<close>, the
  value types of \<open>dto.go\<close> and of the admin files, and how they are encoded. A DTO is a record
  with the fields of the struct, and \<open>..._json\<close> its encoding under the struct tags; encoding fails
  where an instant has no JSON form. Request bodies are decoded as \<open>json.Decoder\<close> does it: the first
  value of the body counts.
\<close>

section \<open>Encoding\<close>

fun collect :: "(err + 'a) list \<Rightarrow> err + 'a list" where
  "collect [] = Inr []"
| "collect (Inl e # xs) = Inl e"
| "collect (Inr a # xs) = map_sum id (Cons a) (collect xs)"

type_synonym jfield = "string \<times> (err + json)"

definition jobj :: "jfield list \<Rightarrow> err + json" where
  "jobj fs = map_sum id JObj (collect (map (\<lambda>(k, v). map_sum id (Pair k) v) fs))"

definition jarr :: "(err + json) list \<Rightarrow> err + json" where
  "jarr vs = map_sum id JArr (collect vs)"

definition jstr :: "string \<Rightarrow> err + json" where "jstr s = Inr (JStr s)"
definition jint :: "int \<Rightarrow> err + json" where "jint i = Inr (JNum (itoa i))"
definition jbool :: "bool \<Rightarrow> err + json" where "jbool b = Inr (JBool b)"

definition jtime :: "time \<Rightarrow> err + json" where
  "jtime t = map_sum id JStr (marshal_time 0 t)"

text \<open>\<open>omitempty\<close>, for strings and for pointers.\<close>

definition omit :: "string \<Rightarrow> string \<Rightarrow> jfield list" where
  "omit k s = (if s = [] then [] else [(k, jstr s)])"

definition omit_nil :: "string \<Rightarrow> ('a \<Rightarrow> err + json) \<Rightarrow> 'a option \<Rightarrow> jfield list" where
  "omit_nil k f x = (case x of None \<Rightarrow> [] | Some v \<Rightarrow> [(k, f v)])"

text \<open>A map is written with its keys sorted.\<close>

definition jmap :: "('a \<Rightarrow> err + json) \<Rightarrow> (string \<times> 'a) list \<Rightarrow> err + json" where
  "jmap f m = jobj (map (\<lambda>(k, v). (k, f v)) (sort_key fst m))"

lemmas json_field_defs = jobj_def jarr_def jstr_def jint_def jbool_def jtime_def omit_def omit_nil_def

section \<open>Answers\<close>

text \<open>\<open>writeJSON\<close>: the status is sent before the encoding can fail, so the body is then empty.\<close>

definition writeJSON :: "int \<Rightarrow> err + json \<Rightarrow> response" where
  "writeJSON status v =
     response0\<lparr>rs_Status := status, rs_Header := [(''Content-Type'', ''application/json'')],
       rs_Body := (case v of Inl _ \<Rightarrow> [] | Inr j \<Rightarrow> json_enc j @ [LF])\<rparr>"

definition StatusText :: "int \<Rightarrow> string" where
  "StatusText c =
     (case map_of [(400, ''Bad Request''), (401, ''Unauthorized''), (403, ''Forbidden''),
         (404, ''Not Found''), (500, ''Internal Server Error''), (503, ''Service Unavailable'')] c of
        Some t \<Rightarrow> t | None \<Rightarrow> [])"

record errorEnvelope =
  ee_Error :: string
  ee_Details :: string

definition errorEnvelope_json :: "errorEnvelope \<Rightarrow> err + json" where
  "errorEnvelope_json e = jobj ((''error'', jstr (ee_Error e)) # omit ''details'' (ee_Details e))"

definition writeError :: "int \<Rightarrow> err option \<Rightarrow> response" where
  "writeError status e =
     writeJSON status (errorEnvelope_json \<lparr>ee_Error = StatusText status,
       ee_Details = (case e of None \<Rightarrow> [] | Some e \<Rightarrow> emsg e)\<rparr>)"

definition writeErrorMsg :: "int \<Rightarrow> string \<Rightarrow> response" where
  "writeErrorMsg status msg = writeJSON status (errorEnvelope_json \<lparr>ee_Error = msg, ee_Details = []\<rparr>)"

definition noContent :: response where
  "noContent = response0\<lparr>rs_Status := 204\<rparr>"

text \<open>\<open>listEnvelope\<close>.\<close>

definition listEnvelope :: "(err + json) list \<Rightarrow> string \<Rightarrow> err + json" where
  "listEnvelope vs next = jobj ((''data'', jarr vs) # omit ''next_cursor'' next)"

definition clampLimit :: "string \<Rightarrow> int \<Rightarrow> int \<Rightarrow> int" where
  "clampLimit raw df mx =
     (if raw = [] then df
      else case atoi raw of
        None \<Rightarrow> df
      | Some n \<Rightarrow> if n \<le> 0 then df else if mx < n then mx else n)"

definition statusForStoreErr :: "err \<Rightarrow> int" where
  "statusForStoreErr e = (if is_not_found e then 404 else 500)"

section \<open>Channels\<close>

text \<open>The struct \<open>programRef\<close> has the fields of \<^typ>\<open>ProgramRef\<close>.\<close>

definition programRef_json :: "ProgramRef \<Rightarrow> err + json" where
  "programRef_json p =
     jobj [(''id'', jstr (pf_ID p)), (''title'', jstr (pf_Title p)), (''start'', jtime (pf_Start p)),
       (''stop'', jtime (pf_Stop p))]"

record channelDTO =
  cd_ID :: string
  cd_DisplayName :: string
  cd_ChannelNumber :: string
  cd_GroupTitle :: string
  cd_LogoURL :: string
  cd_UpstreamKind :: string
  cd_IsFavorite :: bool
  cd_CurrentProgram :: "ProgramRef option"
  cd_NextProgram :: "ProgramRef option"

definition channelDTO_json :: "channelDTO \<Rightarrow> err + json" where
  "channelDTO_json c =
     jobj ([(''id'', jstr (cd_ID c)), (''display_name'', jstr (cd_DisplayName c))] @
       omit ''channel_number'' (cd_ChannelNumber c) @ omit ''group_title'' (cd_GroupTitle c) @
       omit ''logo_url'' (cd_LogoURL c) @ omit ''upstream_kind'' (cd_UpstreamKind c) @
       [(''is_favorite'', jbool (cd_IsFavorite c))] @
       omit_nil ''current_program'' programRef_json (cd_CurrentProgram c) @
       omit_nil ''next_program'' programRef_json (cd_NextProgram c))"

definition toChannelDTO :: "Channel \<Rightarrow> channelDTO" where
  "toChannelDTO c =
     \<lparr>cd_ID = ch_ID c, cd_DisplayName = ch_DisplayName c, cd_ChannelNumber = EffectiveChannelNum c,
      cd_GroupTitle = EffectiveGroupTitle c, cd_LogoURL = ch_LogoURL c,
      cd_UpstreamKind = ch_UpstreamKind c, cd_IsFavorite = HasFavorite c,
      cd_CurrentProgram = CurrentProgram c,
      cd_NextProgram = NextProgram c\<rparr>"

section \<open>Programmes\<close>

record programDTO =
  pd_ID :: string
  pd_ChannelID :: string
  pd_XMLTVChannelID :: string
  pd_Title :: string
  pd_SubTitle :: string
  pd_Description :: string
  pd_EpisodeNum :: string
  pd_SeasonNum :: "int option"
  pd_Episode :: "int option"
  pd_Categories :: "string list"
  pd_Rating :: string
  pd_IconURL :: string
  pd_Start :: time
  pd_Stop :: time
  pd_OriginalAirDate :: "time option"
  pd_Credits :: "Credit list"

text \<open>The struct \<open>creditDTO\<close> has the fields of \<^typ>\<open>Credit\<close>.\<close>

definition creditDTO_json :: "Credit \<Rightarrow> err + json" where
  "creditDTO_json c =
     jobj [(''kind'', jstr (cr_Kind c)), (''name'', jstr (cr_Name c)), (''position'', jint (cr_Position c))]"

definition programDTO_json :: "programDTO \<Rightarrow> err + json" where
  "programDTO_json p =
     jobj ([(''id'', jstr (pd_ID p))] @ omit ''channel_id'' (pd_ChannelID p) @
       omit ''xmltv_channel_id'' (pd_XMLTVChannelID p) @ [(''title'', jstr (pd_Title p))] @
       omit ''sub_title'' (pd_SubTitle p) @ omit ''description'' (pd_Description p) @
       omit ''episode_num'' (pd_EpisodeNum p) @ omit_nil ''season_num'' jint (pd_SeasonNum p) @
       omit_nil ''episode'' jint (pd_Episode p) @
       (if pd_Categories p = [] then [] else [(''categories'', jarr (map jstr (pd_Categories p)))]) @
       omit ''rating'' (pd_Rating p) @ omit ''icon_url'' (pd_IconURL p) @
       [(''start'', jtime (pd_Start p)), (''stop'', jtime (pd_Stop p))] @
       omit_nil ''original_air_date'' jtime (pd_OriginalAirDate p) @
       (if pd_Credits p = [] then [] else [(''credits'', jarr (map creditDTO_json (pd_Credits p)))]))"

definition toProgramDTO :: "Program \<Rightarrow> string \<Rightarrow> programDTO" where
  "toProgramDTO p cid =
     \<lparr>pd_ID = pr_ID p, pd_ChannelID = cid, pd_XMLTVChannelID = pr_XMLTVChannelID p,
      pd_Title = pr_Title p, pd_SubTitle = pr_SubTitle p, pd_Description = pr_Description p,
      pd_EpisodeNum = pr_EpisodeNum p, pd_SeasonNum = pr_SeasonNum p, pd_Episode = pr_Episode p,
      pd_Categories = pr_Categories p, pd_Rating = pr_Rating p, pd_IconURL = pr_IconURL p,
      pd_Start = pr_Start p, pd_Stop = pr_Stop p, pd_OriginalAirDate = pr_OriginalAirDate p,
      pd_Credits = pr_Credits p\<rparr>"

section \<open>Favourites and recents\<close>

text \<open>\<open>favoriteDTO\<close> and \<open>recentDTO\<close> have the fields of the store's values.\<close>

definition favoriteDTO_json :: "Favorite \<Rightarrow> err + json" where
  "favoriteDTO_json f =
     jobj [(''channel_id'', jstr (fav_ChannelID f)), (''position'', jint (fav_Position f))]"

definition recentDTO_json :: "Recent \<Rightarrow> err + json" where
  "recentDTO_json r =
     jobj [(''channel_id'', jstr (rec_ChannelID r)), (''last_tuned_at'', jtime (rec_LastTunedAt r))]"

section \<open>Administration\<close>

record adminSessionDTO =
  as_ID :: string
  as_UserID :: string
  as_ChannelID :: string
  as_StartedAt :: time
  as_LastByteAt :: time
  as_BytesStreamed :: int
  as_ClientIP :: string
  as_UserAgent :: string

definition adminSessionDTO_json :: "adminSessionDTO \<Rightarrow> err + json" where
  "adminSessionDTO_json s =
     jobj ([(''id'', jstr (as_ID s)), (''user_id'', jstr (as_UserID s)), (''channel_id'', jstr (as_ChannelID s)),
       (''started_at'', jtime (as_StartedAt s)), (''last_byte_at'', jtime (as_LastByteAt s)),
       (''bytes_streamed'', jint (as_BytesStreamed s))] @
       omit ''client_ip'' (as_ClientIP s) @ omit ''user_agent'' (as_UserAgent s))"

definition toAdminSessionDTO :: "Session \<Rightarrow> adminSessionDTO" where
  "toAdminSessionDTO s =
     \<lparr>as_ID = sn_ID s, as_UserID = sn_UserID s, as_ChannelID = sn_ChannelID s,
      as_StartedAt = sn_StartedAt s, as_LastByteAt = sn_LastByteAt s,
      as_BytesStreamed = sn_BytesStreamed s, as_ClientIP = sn_ClientIP s, as_UserAgent = sn_UserAgent s\<rparr>"

record adminSettingsDTO =
  ad_DefaultM3URefresh :: string
  ad_DefaultXMLTVRefresh :: string
  ad_GuideWindowCap :: string
  ad_PerUserStreamCap :: int
  ad_PerChannelDefaultCap :: int
  ad_SessionIdleTimeout :: string

definition adminSettingsDTO_json :: "adminSettingsDTO \<Rightarrow> err + json" where
  "adminSettingsDTO_json d =
     jobj [(''default_m3u_refresh'', jstr (ad_DefaultM3URefresh d)),
       (''default_xmltv_refresh'', jstr (ad_DefaultXMLTVRefresh d)),
       (''guide_window_cap'', jstr (ad_GuideWindowCap d)),
       (''per_user_stream_cap'', jint (ad_PerUserStreamCap d)),
       (''per_channel_default_cap'', jint (ad_PerChannelDefaultCap d)),
       (''session_idle_timeout'', jstr (ad_SessionIdleTimeout d))]"

definition toAdminSettingsDTO :: "SettingsRow \<Rightarrow> adminSettingsDTO" where
  "toAdminSettingsDTO r =
     \<lparr>ad_DefaultM3URefresh = duration_String (sg_DefaultM3URefresh r),
      ad_DefaultXMLTVRefresh = duration_String (sg_DefaultXMLTVRefresh r),
      ad_GuideWindowCap = duration_String (sg_GuideWindowCap r),
      ad_PerUserStreamCap = sg_PerUserStreamCap r,
      ad_PerChannelDefaultCap = sg_PerChannelDefaultCap r,
      ad_SessionIdleTimeout = duration_String (sg_SessionIdleTimeout r)\<rparr>"

record adminChannelDTO =
  ac_ID :: string
  ac_SourceM3UID :: string
  ac_SourceChannelID :: string
  ac_DisplayName :: string
  ac_ChannelNumberSrc :: string
  ac_ChannelNumberAdmin :: "string option"
  ac_ChannelNumberEff :: string
  ac_LogoURL :: string
  ac_GroupTitleSrc :: string
  ac_GroupTitleAdmin :: "string option"
  ac_GroupTitleEff :: string
  ac_UpstreamURL :: string
  ac_UpstreamKind :: string
  ac_EnabledSrc :: bool
  ac_EnabledAdmin :: "bool option"
  ac_EnabledEff :: bool
  ac_Position :: int

definition adminChannelDTO_json :: "adminChannelDTO \<Rightarrow> err + json" where
  "adminChannelDTO_json c =
     jobj ([(''id'', jstr (ac_ID c)), (''source_m3u_id'', jstr (ac_SourceM3UID c)),
       (''source_channel_id'', jstr (ac_SourceChannelID c)), (''display_name'', jstr (ac_DisplayName c)),
       (''channel_number_src'', jstr (ac_ChannelNumberSrc c))] @
       omit_nil ''channel_number_admin'' jstr (ac_ChannelNumberAdmin c) @
       [(''channel_number_effective'', jstr (ac_ChannelNumberEff c)), (''logo_url'', jstr (ac_LogoURL c)),
       (''group_title_src'', jstr (ac_GroupTitleSrc c))] @
       omit_nil ''group_title_admin'' jstr (ac_GroupTitleAdmin c) @
       [(''group_title_effective'', jstr (ac_GroupTitleEff c)), (''upstream_url'', jstr (ac_UpstreamURL c)),
       (''upstream_kind'', jstr (ac_UpstreamKind c)), (''enabled_src'', jbool (ac_EnabledSrc c))] @
       omit_nil ''enabled_admin'' jbool (ac_EnabledAdmin c) @
       [(''enabled_effective'', jbool (ac_EnabledEff c)), (''position'', jint (ac_Position c))])"

definition toAdminChannelDTO :: "Channel \<Rightarrow> adminChannelDTO" where
  "toAdminChannelDTO c =
     \<lparr>ac_ID = ch_ID c, ac_SourceM3UID = ch_SourceM3UID c, ac_SourceChannelID = ch_SourceChannelID c,
      ac_DisplayName = ch_DisplayName c, ac_ChannelNumberSrc = ch_ChannelNumberSrc c,
      ac_ChannelNumberAdmin = ch_ChannelNumberAdmin c, ac_ChannelNumberEff = EffectiveChannelNum c,
      ac_LogoURL = ch_LogoURL c, ac_GroupTitleSrc = ch_GroupTitleSrc c,
      ac_GroupTitleAdmin = ch_GroupTitleAdmin c, ac_GroupTitleEff = EffectiveGroupTitle c,
      ac_UpstreamURL = ch_UpstreamURL c, ac_UpstreamKind = ch_UpstreamKind c,
      ac_EnabledSrc = ch_EnabledSrc c, ac_EnabledAdmin = ch_EnabledAdmin c,
      ac_EnabledEff = EffectiveEnabled c, ac_Position = ch_Position c\<rparr>"

section \<open>Decoding\<close>

text \<open>\<open>json.NewDecoder(r.Body).Decode\<close>: what follows the first value is not looked at.\<close>

definition decode_body :: "string \<Rightarrow> json option" where
  "decode_body s = map_option fst (json_value (2 * length s + 1) s)"

text \<open>The members of a struct; \<open>null\<close> sets nothing.\<close>

definition struct_of :: "json \<Rightarrow> (string \<times> json) list option" where
  "struct_of v = (case v of JObj kvs \<Rightarrow> Some kvs | JNull \<Rightarrow> Some [] | _ \<Rightarrow> None)"

definition get_bool :: "string \<Rightarrow> (string \<times> json) list \<Rightarrow> bool option" where
  "get_bool name kvs = foldl set_bool (Some False) (jfields name kvs)"

text \<open>
  A slice of strings: its length and its backing array. A \<open>null\<close> element keeps what the array held,
  \<open>null\<close> for the whole and an empty array drop it.
\<close>

definition set_strs :: "(nat \<times> string list) option \<Rightarrow> json \<Rightarrow> (nat \<times> string list) option" where
  "set_strs old v =
     Option.bind old (\<lambda>(n, back). case v of
       JNull \<Rightarrow> Some (0, [])
     | JArr vs \<Rightarrow>
         if vs = [] then Some (0, [])
         else map_option (\<lambda>xs. (length vs, xs @ drop (length vs) back))
           (those (map (\<lambda>(i, v). set_str (Some (if i < length back then back ! i else [])) v)
             (enumerate 0 vs)))
     | _ \<Rightarrow> None)"

definition get_strs :: "string \<Rightarrow> (string \<times> json) list \<Rightarrow> string list option" where
  "get_strs name kvs =
     map_option (\<lambda>(n, back). take n back) (foldl set_strs (Some (0, [])) (jfields name kvs))"

text \<open>A map from strings to strings; a second object for the same field is merged.\<close>

definition set_smap :: "smap option \<Rightarrow> json \<Rightarrow> smap option" where
  "set_smap old v =
     Option.bind old (\<lambda>m. case v of
       JNull \<Rightarrow> Some []
     | JObj kvs \<Rightarrow>
         foldl (\<lambda>m (k, x). Option.bind m (\<lambda>m. map_option (\<lambda>s. AList.update k s m) (set_str (Some []) x)))
           (Some m) kvs
     | _ \<Rightarrow> None)"

definition get_smap :: "string \<Rightarrow> (string \<times> json) list \<Rightarrow> smap option" where
  "get_smap name kvs = foldl set_smap (Some []) (jfields name kvs)"

text \<open>A pointer: \<open>null\<close> clears it, any other value goes through.\<close>

definition set_ptr :: "(json \<Rightarrow> 'a option) \<Rightarrow> 'a option option \<Rightarrow> json \<Rightarrow> 'a option option" where
  "set_ptr dec old v =
     Option.bind old (\<lambda>_. if v = JNull then Some None else map_option Some (dec v))"

end
