(* ===== verification/Masking.thy ===== *)
theory Masking
  imports NetUrl Tables
begin

text \<open>
  Keeping upstream credentials out of admin answers, audit lines and logs: \<open>maskHeaders\<close> and
  \<open>maskURL\<close> of \<open>src/internal/server/admin_sources.go\<close> and \<open>RedactURL\<close> of
  \<open>src/internal/httpclient/redact.go\<close>. \<open>uni\<close> is the case folding of text that is not ASCII.
\<close>

section \<open>Headers\<close>

definition maskedValue :: string where
  "maskedValue = ''REDACTED''"

definition sensitiveHeaderNames :: "string list" where
  "sensitiveHeaderNames =
     [''authorization'', ''proxy-authorization'', ''cookie'', ''x-api-key'', ''api-key'', ''x-auth-token'']"

definition sensitiveQueryKeys :: "string list" where
  "sensitiveQueryKeys = [''username'', ''password'', ''token'', ''auth'', ''api_key'', ''apikey'']"

definition sensitive :: "(string \<Rightarrow> string) \<Rightarrow> string list \<Rightarrow> string \<Rightarrow> bool" where
  "sensitive uni names k \<longleftrightarrow> List.member names (go_ToLower uni k)"

text \<open>A value is hidden when its name is sensitive and it is not empty.\<close>

definition mask_pair :: "(string \<Rightarrow> string) \<Rightarrow> string list \<Rightarrow> string \<times> string \<Rightarrow> string \<times> string" where
  "mask_pair uni names kv =
     (fst kv, if sensitive uni names (fst kv) \<and> snd kv \<noteq> [] then maskedValue else snd kv)"

definition maskHeaders :: "(string \<Rightarrow> string) \<Rightarrow> smap \<Rightarrow> smap" where
  "maskHeaders uni h = map (mask_pair uni sensitiveHeaderNames) h"

section \<open>URLs\<close>

text \<open>\<open>url.Values.Encode\<close>: sorted by key, the values of a key in order.\<close>

fun join_amp :: "string list \<Rightarrow> string" where
  "join_amp [] = []"
| "join_amp [x] = x"
| "join_amp (x # xs) = x @ CHR ''&'' # join_amp xs"

definition values_Encode :: "(string \<times> string) list \<Rightarrow> string" where
  "values_Encode ps =
     join_amp (map (\<lambda>(k, v). QueryEscape k @ CHR ''='' # QueryEscape v) (sort_key fst ps))"

definition mask_user :: "userinfo \<Rightarrow> userinfo" where
  "mask_user ui =
     (if ui_passwordSet ui then ui\<lparr>ui_password := maskedValue\<rparr>
      else if ui_username ui \<noteq> [] then
        \<lparr>ui_username = maskedValue, ui_password = [], ui_passwordSet = False\<rparr>
      else ui)"

definition mask_query :: "(string \<Rightarrow> string) \<Rightarrow> string \<Rightarrow> string" where
  "mask_query uni raw =
     (let q = ParseQuery raw in
      if list_ex (\<lambda>(k, v). sensitive uni sensitiveQueryKeys k \<and> v \<noteq> []) q
      then values_Encode (map (mask_pair uni sensitiveQueryKeys) q) else raw)"

definition maskURL :: "(string \<Rightarrow> string) \<Rightarrow> string \<Rightarrow> string" where
  "maskURL uni raw =
     (case url_Parse raw of
        Inl _ \<Rightarrow> raw
      | Inr u \<Rightarrow>
          url_String (u\<lparr>url_User := map_option mask_user (url_User u),
            url_RawQuery := mask_query uni (url_RawQuery u)\<rparr>))"

definition RedactURL :: "string \<Rightarrow> string" where
  "RedactURL raw =
     (case url_Parse raw of
        Inl _ \<Rightarrow> ''<unparseable-url>''
      | Inr u \<Rightarrow> url_String (u\<lparr>url_User := None, url_RawQuery := [], url_Fragment := []\<rparr>))"

section \<open>What masking hides\<close>

text \<open>
  Two header maps, two queries, two URLs that differ in credentials only. A query must show at least
  one credential: otherwise masking returns it as it is.
\<close>

definition same_masked :: "(string \<Rightarrow> string) \<Rightarrow> string list \<Rightarrow> (string \<times> string) list \<Rightarrow>
    (string \<times> string) list \<Rightarrow> bool" where
  "same_masked uni names = list_all2 (\<lambda>(k, v) (k', v'). k = k' \<and>
     (v = v' \<or> sensitive uni names k \<and> v \<noteq> [] \<and> v' \<noteq> []))"

definition same_query :: "(string \<Rightarrow> string) \<Rightarrow> string \<Rightarrow> string \<Rightarrow> bool" where
  "same_query uni q q' \<longleftrightarrow>
     q = q' \<or> same_masked uni sensitiveQueryKeys (ParseQuery q) (ParseQuery q') \<and>
       list_ex (\<lambda>(k, v). sensitive uni sensitiveQueryKeys k \<and> v \<noteq> []) (ParseQuery q)"

definition same_user :: "userinfo option \<Rightarrow> userinfo option \<Rightarrow> bool" where
  "same_user a b =
     (case (a, b) of
        (None, None) \<Rightarrow> True
      | (Some x, Some y) \<Rightarrow>
          x = y \<or>
          (ui_passwordSet x \<and> ui_passwordSet y \<and> ui_username x = ui_username y) \<or>
          (\<not> ui_passwordSet x \<and> \<not> ui_passwordSet y \<and> ui_username x \<noteq> [] \<and> ui_username y \<noteq> [])
      | _ \<Rightarrow> False)"

definition same_url :: "(string \<Rightarrow> string) \<Rightarrow> string \<Rightarrow> string \<Rightarrow> bool" where
  "same_url uni raw raw' \<longleftrightarrow>
     raw = raw' \<or>
     (case (url_Parse raw, url_Parse raw') of
        (Inr u, Inr u') \<Rightarrow>
          u\<lparr>url_User := None, url_RawQuery := []\<rparr> = u'\<lparr>url_User := None, url_RawQuery := []\<rparr> \<and>
          same_user (url_User u) (url_User u') \<and> same_query uni (url_RawQuery u) (url_RawQuery u')
      | _ \<Rightarrow> False)"

lemma mask_pairs:
  "same_masked uni names h h' \<Longrightarrow> map (mask_pair uni names) h = map (mask_pair uni names) h'"
  unfolding same_masked_def by (induction rule: list_all2_induct) (auto simp: mask_pair_def)

lemma shown_credential:
  "same_masked uni names h h' \<Longrightarrow>
   list_ex (\<lambda>(k, v). sensitive uni names k \<and> v \<noteq> []) h = list_ex (\<lambda>(k, v). sensitive uni names k \<and> v \<noteq> []) h'"
  unfolding same_masked_def by (induction rule: list_all2_induct) auto

lemma maskHeaders_hides: "same_masked uni sensitiveHeaderNames h h' \<Longrightarrow> maskHeaders uni h = maskHeaders uni h'"
  unfolding maskHeaders_def by (rule mask_pairs)

lemma mask_query_hides: "same_query uni q q' \<Longrightarrow> mask_query uni q = mask_query uni q'"
  using mask_pairs [of uni sensitiveQueryKeys "ParseQuery q" "ParseQuery q'"]
    shown_credential [of uni sensitiveQueryKeys "ParseQuery q" "ParseQuery q'"]
  by (auto simp: same_query_def mask_query_def Let_def)

lemma mask_user_hides: "same_user a b \<Longrightarrow> map_option mask_user a = map_option mask_user b"
  by (auto simp: same_user_def mask_user_def split: option.splits)

lemma maskURL_hides: "same_url uni raw raw' \<Longrightarrow> maskURL uni raw = maskURL uni raw'"
proof (cases "raw = raw'")
  case False
  assume "same_url uni raw raw'"
  with False obtain u u' where u: "url_Parse raw = Inr u" "url_Parse raw' = Inr u'"
    "u\<lparr>url_User := None, url_RawQuery := []\<rparr> = u'\<lparr>url_User := None, url_RawQuery := []\<rparr>"
    "same_user (url_User u) (url_User u')" "same_query uni (url_RawQuery u) (url_RawQuery u')"
    by (auto simp: same_url_def split: sum.splits)
  have "u\<lparr>url_User := a, url_RawQuery := q\<rparr> =
      u\<lparr>url_User := None, url_RawQuery := []\<rparr>\<lparr>url_User := a, url_RawQuery := q\<rparr>" for u :: url and a q
    by simp
  with u(3) have "u\<lparr>url_User := a, url_RawQuery := q\<rparr> = u'\<lparr>url_User := a, url_RawQuery := q\<rparr>" for a q
    by metis
  with u show ?thesis
    by (simp add: maskURL_def mask_user_hides [OF u(4)] mask_query_hides [OF u(5)])
qed simp

end
