(* ===== verification/Server.thy ===== *)
theory Server
  imports Wire Masking StreamProxy
begin

text \<open>
  The user routes of the HTTP API: \<open>channels.go\<close>, \<open>favorites.go\<close>, \<open>guide.go\<close>, \<open>programs.go\<close> and
  \<open>recent.go\<close> under \<open>src/internal/server\<close>. A handler maps a request and the state of the server to an
  answer and the state after it. The state is the stream proxy (with the world the store works
  on), the settings snapshot, the lazily built guide cache, the audit lines written and the
  background refreshes started; which collaborators are wired is the configuration. In the
  binary the settings of the server and of the proxy are the same snapshot. Log output is
  left out.
\<close>

section \<open>State\<close>

record audit_event =
  au_action :: string
  au_kind :: string
  au_id :: string
  au_actor :: string
  au_url :: "string option"
  au_headers :: "smap option"

text \<open>A refresh that \<open>go func\<close> has started.\<close>

datatype job = JobM3U string | JobXMLTV string

record server_conf =
  sc_BasePath :: string
  sc_Stream :: bool
  sc_StreamBasePath :: string
  sc_Settings :: bool
  sc_Snapshot :: bool
  sc_M3UWorker :: bool
  sc_XMLTVWorker :: bool
  sc_GuideCacheTTL :: duration

record server =
  sv_proxy :: proxy
  sv_snap :: Snapshot
  sv_guide :: "guideCache option"
  sv_audit :: "audit_event list"
  sv_jobs :: "job list"

type_synonym server_handler = "request \<Rightarrow> server \<Rightarrow> response \<times> server"

definition sv_world :: "server \<Rightarrow> world" where
  "sv_world s = px_world (sv_proxy s)"

definition on_proxy :: "(proxy \<Rightarrow> 'a \<times> proxy) \<Rightarrow> server \<Rightarrow> 'a \<times> server" where
  "on_proxy f s = (let (a, p) = f (sv_proxy s) in (a, s\<lparr>sv_proxy := p\<rparr>))"

definition on_store :: "(world \<Rightarrow> 'a \<times> world) \<Rightarrow> server \<Rightarrow> 'a \<times> server" where
  "on_store f = on_proxy (on_world f)"

definition server_basePath :: "server_conf \<Rightarrow> string" where
  "server_basePath c = (if sc_BasePath c = [] then ''/api/v1/livetv'' else sc_BasePath c)"

text \<open>The answer to a failed store call, and to one that succeeds with a value.\<close>

definition failed :: "err \<Rightarrow> response" where
  "failed e = writeError 500 (Some e)"

definition answer :: "(err + 'a) \<times> server \<Rightarrow> ('a \<Rightarrow> response) \<Rightarrow> response \<times> server" where
  "answer x f = (case x of (Inl e, s) \<Rightarrow> (failed e, s) | (Inr a, s) \<Rightarrow> (f a, s))"

text \<open>A lookup by id: a missing row has its own message.\<close>

definition lookup_failed :: "string \<Rightarrow> err \<Rightarrow> response" where
  "lookup_failed msg e = (if is_not_found e then writeErrorMsg 404 msg else failed e)"

section \<open>Channels\<close>

definition listChannels :: server_handler where
  "listChannels r s =
     answer (on_store (ListChannelsForUser (rq_ctx r) (rq_UserID r) (Query r ''group'') (Query r ''q'')
         (clampLimit (Query r ''limit'') 100 500) (Query r ''cursor'')) s)
       (\<lambda>(chs, next). writeJSON 200 (listEnvelope (map (channelDTO_json \<circ> toChannelDTO) chs) next))"

definition getChannel :: server_handler where
  "getChannel r s =
     (case on_store (GetChannelView (rq_ctx r) (rq_UserID r) (URLParam r ''id'')) s of
        (Inl e, s) \<Rightarrow> (lookup_failed ''channel not found'' e, s)
      | (Inr ch, s) \<Rightarrow> (writeJSON 200 (channelDTO_json (toChannelDTO ch)), s))"

definition listGroups :: server_handler where
  "listGroups r s =
     answer (on_store (ListGroups (rq_ctx r)) s)
       (\<lambda>gs. writeJSON 200 (listEnvelope (map jstr gs) []))"

section \<open>Favourites and recents\<close>

definition listFavorites :: server_handler where
  "listFavorites r s =
     answer (on_store (ListFavorites (rq_ctx r) (rq_UserID r)) s)
       (\<lambda>fs. writeJSON 200 (listEnvelope (map favoriteDTO_json fs) []))"

definition addFavorite :: server_handler where
  "addFavorite r s =
     (let cid = URLParam r ''channel_id'' in
      if cid = [] then (writeErrorMsg 400 ''channel_id required'', s)
      else answer (on_store (AddFavorite (rq_ctx r) (rq_UserID r) cid) s) (\<lambda>_. noContent))"

definition removeFavorite :: server_handler where
  "removeFavorite r s =
     (let cid = URLParam r ''channel_id'' in
      if cid = [] then (writeErrorMsg 400 ''channel_id required'', s)
      else answer (on_store (RemoveFavorite (rq_ctx r) (rq_UserID r) cid) s) (\<lambda>_. noContent))"

text \<open>The body \<open>reorderRequest\<close>.\<close>

definition reorderRequest :: "string \<Rightarrow> string list option" where
  "reorderRequest body =
     Option.bind (decode_body body) (\<lambda>v. Option.bind (struct_of v) (get_strs ''channel_ids''))"

definition reorderFavorites :: server_handler where
  "reorderFavorites r s =
     (case reorderRequest (rq_Body r) of
        None \<Rightarrow> (writeErrorMsg 400 ''invalid json body'', s)
      | Some ids \<Rightarrow>
          if ids = [] then (noContent, s)
          else case on_store (ListFavorites (rq_ctx r) (rq_UserID r)) s of
            (Inl e, s) \<Rightarrow> (failed e, s)
          | (Inr favs, s) \<Rightarrow>
              (case find (\<lambda>i. i \<notin> fav_ChannelID ` set favs) ids of
                 Some i \<Rightarrow> (writeErrorMsg 400 (''channel '' @ i @ '' is not a favorite''), s)
               | None \<Rightarrow>
                   answer (on_store (ReorderFavorites (rq_ctx r) (rq_UserID r) ids) s) (\<lambda>_. noContent)))"

definition listRecent :: server_handler where
  "listRecent r s =
     answer (on_store (ListRecent (rq_ctx r) (rq_UserID r) (clampLimit (Query r ''limit'') 20 100)) s)
       (\<lambda>rs. writeJSON 200 (listEnvelope (map recentDTO_json rs) []))"

section \<open>Programmes\<close>

definition getProgram :: server_handler where
  "getProgram r s =
     (case on_store (GetProgram (rq_ctx r) (URLParam r ''id'')) s of
        (Inl e, s) \<Rightarrow> (lookup_failed ''program not found'' e, s)
      | (Inr p, s) \<Rightarrow> (writeJSON 200 (programDTO_json (toProgramDTO p [])), s))"

text \<open>\<open>start, _ := time.Parse(time.RFC3339, ...)\<close>: the instant and its zone offset.\<close>

definition query_time :: "request \<Rightarrow> string \<Rightarrow> time \<times> int" where
  "query_time r k = (case parse_rfc3339 (Query r k) of None \<Rightarrow> (zero_time, 0) | Some x \<Rightarrow> x)"

text \<open>The window a request asks for: from now, and of the given length, unless it says otherwise.\<close>

definition query_window :: "request \<Rightarrow> string \<Rightarrow> string \<Rightarrow> duration \<Rightarrow> time \<Rightarrow> (time \<times> int) \<times> (time \<times> int)" where
  "query_window r a b d now =
     (let start = query_time r a; till = query_time r b;
          start = (if is_zero (fst start) then (now, 0) else start);
          till = (if is_zero (fst till) then (fst start + d, snd start) else till)
      in (start, till))"

definition searchPrograms :: server_handler where
  "searchPrograms r s =
     (let needle = Query r ''q'' in
      if needle = [] then (writeJSON 200 (listEnvelope [] []), s)
      else
        let (start, till) = query_window r ''from'' ''to'' (48 * hour) (wnow (sv_world s)) in
        if fst till < fst start then (writeErrorMsg 400 ''to must be after from'', s)
        else
          answer (on_store (SearchPrograms (rq_ctx r) needle (fst start) (fst till)
              (clampLimit (Query r ''limit'') 100 500)) s)
            (\<lambda>ps. writeJSON 200 (listEnvelope (map (\<lambda>p. programDTO_json (toProgramDTO p [])) ps) [])))"

section \<open>The guide\<close>

definition guideCap :: "duration option \<Rightarrow> duration" where
  "guideCap m = (case m of None \<Rightarrow> 24 * hour | Some v \<Rightarrow> if 0 < v then v else 24 * hour)"

fun join_with :: "string \<Rightarrow> string list \<Rightarrow> string" where
  "join_with sep [] = []"
| "join_with sep [x] = x"
| "join_with sep (x # xs) = x @ sep @ join_with sep xs"

definition guideCacheKey :: "string \<Rightarrow> time \<Rightarrow> time \<Rightarrow> string \<Rightarrow> string list \<Rightarrow> string" where
  "guideCacheKey uid start till grp chans =
     uid @ ''|'' @ format_rfc3339 (truncate_sec start) @ ''|'' @ format_rfc3339 (truncate_sec till) @
     ''|'' @ grp @ ''|'' @ join_with '','' (sort chans)"

definition guideResponseCache :: "server_conf \<Rightarrow> server \<Rightarrow> guideCache" where
  "guideResponseCache c s =
     (case sv_guide s of None \<Rightarrow> newGuideCache (sc_GuideCacheTTL c) | Some g \<Rightarrow> g)"

definition json_body :: "string \<Rightarrow> response" where
  "json_body b = response0\<lparr>rs_Header := [(''Content-Type'', ''application/json'')], rs_Body := b\<rparr>"

text \<open>\<open>guideWindowOut\<close> with \<open>guideRange\<close>.\<close>

definition jtime_in :: "time \<times> int \<Rightarrow> err + json" where
  "jtime_in t = map_sum id JStr (marshal_time (snd t) (fst t))"

definition guideWindowOut :: "(string \<times> Program list) list \<Rightarrow> time \<times> int \<Rightarrow> time \<times> int \<Rightarrow> err + json" where
  "guideWindowOut rows start till =
     jobj [(''data'', jobj (map (\<lambda>(cid, ps). (cid, jarr (map (\<lambda>p. programDTO_json (toProgramDTO p cid)) ps)))
         (sort_key fst rows))),
       (''window'', jobj [(''start'', jtime_in start), (''end'', jtime_in till)])]"

text \<open>The difference of two instants saturates.\<close>

definition go_Sub :: "time \<Rightarrow> time \<Rightarrow> duration" where
  "go_Sub a b = max (- (2 ^ 63)) (min (2 ^ 63 - 1) (a - b))"

definition capped :: "server_conf \<Rightarrow> server \<Rightarrow> time \<times> int \<Rightarrow> time \<times> int \<Rightarrow> time \<times> int" where
  "capped c s start till =
     (let cap = guideCap (if sc_Settings c then Some (snap_GuideWindowCap (sv_snap s)) else None)
      in if 0 < cap \<and> cap < go_Sub (fst till) (fst start) then (fst start + cap, snd start) else till)"

text \<open>What a cache miss reads; the channels of the request, or every visible one.\<close>

definition guide_channels :: "request \<Rightarrow> server \<Rightarrow> (err + string list) \<times> server" where
  "guide_channels r s =
     (let chans = QueryAll r ''channels'' in
      if chans \<noteq> [] then (Inr chans, s)
      else on_store (VisibleChannelIDsForUser (rq_ctx r) (rq_UserID r) (Query r ''group'')) s)"

definition guide_fetch :: "request \<Rightarrow> time \<times> int \<Rightarrow> time \<times> int \<Rightarrow> server \<Rightarrow> (err + string) \<times> server" where
  "guide_fetch r start till s =
     (case guide_channels r s of
        (Inl e, s) \<Rightarrow> (Inl e, s)
      | (Inr chans, s) \<Rightarrow>
          (case on_store (GuideWindow (rq_ctx r) chans (fst start) (fst till)) s of
             (Inl e, s) \<Rightarrow> (Inl e, s)
           | (Inr rows, s) \<Rightarrow> (map_sum id json_enc (guideWindowOut rows start till), s)))"

definition guideWindow :: "server_conf \<Rightarrow> server_handler" where
  "guideWindow c r s =
     (let (start, till) = query_window r ''start'' ''end'' (4 * hour) (wnow (sv_world s)) in
      if fst till < fst start then (writeErrorMsg 400 ''end must be after start'', s)
      else
        let till = capped c s start till;
            key = guideCacheKey (rq_UserID r) (fst start) (fst till) (Query r ''group'') (QueryAll r ''channels'')
        in case guideCache_Get (wnow (sv_world s)) key (Some (guideResponseCache c s)) of
             (Some body, g) \<Rightarrow> (json_body body, s\<lparr>sv_guide := g\<rparr>)
           | (None, g) \<Rightarrow>
               (case guide_fetch r start till (s\<lparr>sv_guide := g\<rparr>) of
                  (Inl e, s) \<Rightarrow> (failed e, s)
                | (Inr body, s) \<Rightarrow>
                    (json_body body,
                     s\<lparr>sv_guide := guideCache_Set (wnow (sv_world s)) key body (sv_guide s)\<rparr>)))"

section \<open>Streams\<close>

text \<open>The proxy reads its settings from the snapshot.\<close>

definition stream_conf :: "server_conf \<Rightarrow> server \<Rightarrow> proxy_conf" where
  "stream_conf c s =
     \<lparr>PerUserStreamCap = snap_PerUserStreamCap (sv_snap s),
      PerChannelDefaultCap = snap_PerChannelDefaultCap (sv_snap s),
      SessionIdleTimeout = snap_SessionIdleTimeout (sv_snap s),
      GuideWindowCap = snap_GuideWindowCap (sv_snap s), BasePath = sc_StreamBasePath c\<rparr>"

definition mintStream :: "server_conf \<Rightarrow> server_handler" where
  "mintStream c r s = on_proxy (CreateSession (stream_conf c s) r) s"

definition byteRoute :: "client \<Rightarrow> stream_route \<Rightarrow> server_handler" where
  "byteRoute cl k r = on_proxy (serve cl k r)"

end
