(* ===== verification/Admin.thy ===== *)
theory Admin
  imports Server
begin

text \<open>
  The admin handlers of \<open>src/internal/server\<close>: sources (\<open>admin_sources.go\<close>), channels
  (\<open>admin_channels.go\<close>), sessions (\<open>admin_sessions.go\<close>) and settings (\<open>admin_settings.go\<close>). M3U and
  XMLTV sources have parallel handlers that differ in the store calls and in the \<open>gzip\<close> column.
  A manual refresh only notes the job: \<open>run_job\<close> of the theory \<open>Router\<close> is the goroutine.
\<close>

section \<open>Request bodies\<close>

definition invalid_body :: response where
  "invalid_body = writeErrorMsg 400 ''invalid json body''"

definition decode_struct :: "string \<Rightarrow> ((string \<times> json) list \<Rightarrow> 'a option) \<Rightarrow> 'a option" where
  "decode_struct body dec = Option.bind (decode_body body) (\<lambda>v. Option.bind (struct_of v) dec)"

text \<open>The two source requests; \<open>gzip\<close> is a field of the second.\<close>

record source_req =
  sq_Name :: string
  sq_URL :: string
  sq_HTTPHeaders :: smap
  sq_Enabled :: bool
  sq_RefreshInterval :: string
  sq_Gzip :: bool

definition adminM3USourceRequest :: "string \<Rightarrow> source_req option" where
  "adminM3USourceRequest body = decode_struct body (\<lambda>kvs.
     case (get_str ''name'' kvs, get_str ''url'' kvs, get_smap ''http_headers'' kvs,
         get_bool ''enabled'' kvs, get_str ''refresh_interval'' kvs) of
       (Some n, Some u, Some h, Some e, Some d) \<Rightarrow>
         Some \<lparr>sq_Name = n, sq_URL = u, sq_HTTPHeaders = h, sq_Enabled = e, sq_RefreshInterval = d, sq_Gzip = False\<rparr>
     | _ \<Rightarrow> None)"

definition adminXMLTVSourceRequest :: "string \<Rightarrow> source_req option" where
  "adminXMLTVSourceRequest body = decode_struct body (\<lambda>kvs.
     case (get_str ''name'' kvs, get_str ''url'' kvs, get_smap ''http_headers'' kvs,
         get_bool ''enabled'' kvs, get_str ''refresh_interval'' kvs, get_bool ''gzip'' kvs) of
       (Some n, Some u, Some h, Some e, Some d, Some g) \<Rightarrow>
         Some \<lparr>sq_Name = n, sq_URL = u, sq_HTTPHeaders = h, sq_Enabled = e, sq_RefreshInterval = d, sq_Gzip = g\<rparr>
     | _ \<Rightarrow> None)"

definition parseRefreshInterval :: "string \<Rightarrow> err + duration" where
  "parseRefreshInterval s =
     (if s = [] then Inl (Err OtherErr ''refresh_interval is required'')
      else case ParseDuration s of
        Inl e \<Rightarrow> Inl e
      | Inr d \<Rightarrow> if d \<le> 0 then Inl (Err OtherErr ''refresh_interval must be positive'') else Inr d)"

text \<open>Decode, then the checks both handlers of a kind make: an answer, or the request and its interval.\<close>

definition check_source :: "source_req option \<Rightarrow> response + (source_req \<times> duration)" where
  "check_source req =
     (case req of
        None \<Rightarrow> Inl invalid_body
      | Some q \<Rightarrow>
          if sq_Name q = [] \<or> sq_URL q = [] then Inl (writeErrorMsg 400 ''name and url required'')
          else case parseRefreshInterval (sq_RefreshInterval q) of
            Inl e \<Rightarrow> Inl (writeErrorMsg 400 (''invalid refresh_interval: '' @ emsg e))
          | Inr d \<Rightarrow> Inr (q, d))"

text \<open>The store value of a request.\<close>

definition m3u_of :: "string \<Rightarrow> source_req \<Rightarrow> duration \<Rightarrow> M3USource" where
  "m3u_of sid q d =
     \<lparr>src_ID = sid, src_Name = sq_Name q, src_URL = sq_URL q, src_HTTPHeaders = sq_HTTPHeaders q,
      src_Enabled = sq_Enabled q, src_RefreshInterval = d, src_LastRefreshedAt = None,
      src_LastStatus = [], src_ETag = [], src_LastModified = []\<rparr>"

definition xmltv_of :: "string \<Rightarrow> source_req \<Rightarrow> duration \<Rightarrow> XMLTVSource" where
  "xmltv_of sid q d = M3USource.extend (m3u_of sid q d) \<lparr>src_Gzip = sq_Gzip q\<rparr>"

section \<open>Source answers\<close>

text \<open>\<open>adminM3USourceDTO\<close> with its encoding; URL and headers are masked.\<close>

record adminM3USourceDTO =
  am_ID :: string
  am_Name :: string
  am_URL :: string
  am_HTTPHeaders :: smap
  am_Enabled :: bool
  am_RefreshInterval :: string
  am_LastRefreshedAt :: "time option"
  am_LastStatus :: string
  am_ETag :: string
  am_LastModified :: string

record adminXMLTVSourceDTO = adminM3USourceDTO +
  am_Gzip :: bool

definition toAdminM3UDTO :: "(string \<Rightarrow> string) \<Rightarrow> 'a M3USource_scheme \<Rightarrow> adminM3USourceDTO" where
  "toAdminM3UDTO uni x =
     \<lparr>am_ID = src_ID x, am_Name = src_Name x, am_URL = maskURL uni (src_URL x),
      am_HTTPHeaders = maskHeaders uni (src_HTTPHeaders x), am_Enabled = src_Enabled x,
      am_RefreshInterval = duration_String (src_RefreshInterval x),
      am_LastRefreshedAt = src_LastRefreshedAt x, am_LastStatus = src_LastStatus x,
      am_ETag = src_ETag x, am_LastModified = src_LastModified x\<rparr>"

definition toAdminXMLTVDTO :: "(string \<Rightarrow> string) \<Rightarrow> XMLTVSource \<Rightarrow> adminXMLTVSourceDTO" where
  "toAdminXMLTVDTO uni x = adminM3USourceDTO.extend (toAdminM3UDTO uni x) \<lparr>am_Gzip = src_Gzip x\<rparr>"

definition source_fields :: "'a adminM3USourceDTO_scheme \<Rightarrow> jfield list \<Rightarrow> jfield list" where
  "source_fields d gz =
     [(''id'', jstr (am_ID d)), (''name'', jstr (am_Name d)), (''url'', jstr (am_URL d)),
      (''http_headers'', jmap jstr (am_HTTPHeaders d)), (''enabled'', jbool (am_Enabled d)),
      (''refresh_interval'', jstr (am_RefreshInterval d))] @ gz @
      omit_nil ''last_refreshed_at'' jtime (am_LastRefreshedAt d) @
      omit ''last_status'' (am_LastStatus d) @ omit ''etag'' (am_ETag d) @
      omit ''last_modified'' (am_LastModified d)"

definition m3u_json :: "(string \<Rightarrow> string) \<Rightarrow> M3USource \<Rightarrow> err + json" where
  "m3u_json uni x = jobj (source_fields (toAdminM3UDTO uni x) [])"

definition xmltv_json :: "(string \<Rightarrow> string) \<Rightarrow> XMLTVSource \<Rightarrow> err + json" where
  "xmltv_json uni x =
     (let d = toAdminXMLTVDTO uni x in jobj (source_fields d [(''gzip'', jbool (am_Gzip d))]))"

definition sv_uni :: "server \<Rightarrow> string \<Rightarrow> string" where
  "sv_uni s = uni_lower (sv_world s)"

section \<open>Audit lines\<close>

definition auditSourceMutation :: "request \<Rightarrow> string \<Rightarrow> string \<Rightarrow> string \<Rightarrow> string \<Rightarrow> smap \<Rightarrow> server \<Rightarrow> server" where
  "auditSourceMutation r action kind sid rawURL headers s =
     s\<lparr>sv_audit := sv_audit s @
       [\<lparr>au_action = action, au_kind = kind, au_id = sid, au_actor = rq_UserID r,
         au_url = (if rawURL = [] then None else Some (maskURL (sv_uni s) rawURL)),
         au_headers = (if headers = [] then None else Some (maskHeaders (sv_uni s) headers))\<rparr>]\<rparr>"

section \<open>M3U sources\<close>

definition adminListM3USources :: server_handler where
  "adminListM3USources r s =
     answer (on_store (ListM3USources (rq_ctx r)) s)
       (\<lambda>xs. writeJSON 200 (listEnvelope (map (m3u_json (sv_uni s)) xs) []))"

definition adminCreateM3USource :: server_handler where
  "adminCreateM3USource r s =
     (case check_source (adminM3USourceRequest (rq_Body r)) of
        Inl resp \<Rightarrow> (resp, s)
      | Inr (q, d) \<Rightarrow>
          (case on_store (CreateM3USource (rq_ctx r) (m3u_of [] q d)) s of
             (Inl e, s) \<Rightarrow> (failed e, s)
           | (Inr x, s) \<Rightarrow>
               (writeJSON 201 (m3u_json (sv_uni s) x),
                auditSourceMutation r ''create'' ''m3u'' (src_ID x) (sq_URL q) (sq_HTTPHeaders q) s)))"

definition adminGetM3USource :: server_handler where
  "adminGetM3USource r s =
     (case on_store (GetM3USource (rq_ctx r) (URLParam r ''id'')) s of
        (Inl e, s) \<Rightarrow> (lookup_failed ''source not found'' e, s)
      | (Inr x, s) \<Rightarrow> (writeJSON 200 (m3u_json (sv_uni s) x), s))"

definition adminUpdateM3USource :: server_handler where
  "adminUpdateM3USource r s =
     (let sid = URLParam r ''id'' in
      case check_source (adminM3USourceRequest (rq_Body r)) of
        Inl resp \<Rightarrow> (resp, s)
      | Inr (q, d) \<Rightarrow>
          (case on_store (UpdateM3USource (rq_ctx r) (m3u_of sid q d)) s of
             (Inl e, s) \<Rightarrow> (lookup_failed ''source not found'' e, s)
           | (Inr _, s) \<Rightarrow>
               let s = auditSourceMutation r ''update'' ''m3u'' sid (sq_URL q) (sq_HTTPHeaders q) s in
               answer (on_store (GetM3USource (rq_ctx r) sid) s) (\<lambda>x. writeJSON 200 (m3u_json (sv_uni s) x))))"

definition adminDeleteM3USource :: server_handler where
  "adminDeleteM3USource r s =
     (let sid = URLParam r ''id'' in
      case on_store (DeleteM3USource (rq_ctx r) sid) s of
        (Inl e, s) \<Rightarrow> (lookup_failed ''source not found'' e, s)
      | (Inr _, s) \<Rightarrow> (noContent, auditSourceMutation r ''delete'' ''m3u'' sid [] [] s))"

definition started :: response where
  "started = writeJSON 202 (jobj [(''started'', jbool True)])"

definition adminRefreshM3USource :: "server_conf \<Rightarrow> server_handler" where
  "adminRefreshM3USource c r s =
     (let sid = URLParam r ''id'' in
      case on_store (GetM3USource (rq_ctx r) sid) s of
        (Inl e, s) \<Rightarrow> (lookup_failed ''source not found'' e, s)
      | (Inr _, s) \<Rightarrow>
          if \<not> sc_M3UWorker c then (writeErrorMsg 503 ''m3u worker not wired'', s)
          else (started, s\<lparr>sv_jobs := sv_jobs s @ [JobM3U sid]\<rparr>))"

section \<open>XMLTV sources\<close>

definition adminListXMLTVSources :: server_handler where
  "adminListXMLTVSources r s =
     answer (on_store (ListXMLTVSources (rq_ctx r)) s)
       (\<lambda>xs. writeJSON 200 (listEnvelope (map (xmltv_json (sv_uni s)) xs) []))"

definition adminCreateXMLTVSource :: server_handler where
  "adminCreateXMLTVSource r s =
     (case check_source (adminXMLTVSourceRequest (rq_Body r)) of
        Inl resp \<Rightarrow> (resp, s)
      | Inr (q, d) \<Rightarrow>
          (case on_store (CreateXMLTVSource (rq_ctx r) (xmltv_of [] q d)) s of
             (Inl e, s) \<Rightarrow> (failed e, s)
           | (Inr x, s) \<Rightarrow>
               (writeJSON 201 (xmltv_json (sv_uni s) x),
                auditSourceMutation r ''create'' ''xmltv'' (src_ID x) (sq_URL q) (sq_HTTPHeaders q) s)))"

definition adminGetXMLTVSource :: server_handler where
  "adminGetXMLTVSource r s =
     (case on_store (GetXMLTVSource (rq_ctx r) (URLParam r ''id'')) s of
        (Inl e, s) \<Rightarrow> (lookup_failed ''source not found'' e, s)
      | (Inr x, s) \<Rightarrow> (writeJSON 200 (xmltv_json (sv_uni s) x), s))"

definition adminUpdateXMLTVSource :: server_handler where
  "adminUpdateXMLTVSource r s =
     (let sid = URLParam r ''id'' in
      case check_source (adminXMLTVSourceRequest (rq_Body r)) of
        Inl resp \<Rightarrow> (resp, s)
      | Inr (q, d) \<Rightarrow>
          (case on_store (UpdateXMLTVSource (rq_ctx r) (xmltv_of sid q d)) s of
             (Inl e, s) \<Rightarrow> (lookup_failed ''source not found'' e, s)
           | (Inr _, s) \<Rightarrow>
               let s = auditSourceMutation r ''update'' ''xmltv'' sid (sq_URL q) (sq_HTTPHeaders q) s in
               answer (on_store (GetXMLTVSource (rq_ctx r) sid) s) (\<lambda>x. writeJSON 200 (xmltv_json (sv_uni s) x))))"

definition adminDeleteXMLTVSource :: server_handler where
  "adminDeleteXMLTVSource r s =
     (let sid = URLParam r ''id'' in
      case on_store (DeleteXMLTVSource (rq_ctx r) sid) s of
        (Inl e, s) \<Rightarrow> (lookup_failed ''source not found'' e, s)
      | (Inr _, s) \<Rightarrow> (noContent, auditSourceMutation r ''delete'' ''xmltv'' sid [] [] s))"

definition adminRefreshXMLTVSource :: "server_conf \<Rightarrow> server_handler" where
  "adminRefreshXMLTVSource c r s =
     (let sid = URLParam r ''id'' in
      case on_store (GetXMLTVSource (rq_ctx r) sid) s of
        (Inl e, s) \<Rightarrow> (lookup_failed ''source not found'' e, s)
      | (Inr _, s) \<Rightarrow>
          if \<not> sc_XMLTVWorker c then (writeErrorMsg 503 ''xmltv worker not wired'', s)
          else (started, s\<lparr>sv_jobs := sv_jobs s @ [JobXMLTV sid]\<rparr>))"

section \<open>Channels\<close>

definition adminListChannels :: server_handler where
  "adminListChannels r s =
     answer (on_store (AdminListChannels (rq_ctx r) (Query r ''source_m3u_id'')) s)
       (\<lambda>cs. writeJSON 200 (listEnvelope (map (adminChannelDTO_json \<circ> toAdminChannelDTO) cs) []))"

text \<open>\<open>patchField\<close>: whether it is set, and the pointer.\<close>

record 'a patchField =
  pa_Set :: bool
  pa_Value :: "'a option"

definition set_patch :: "(json \<Rightarrow> 'a option) \<Rightarrow> 'a patchField option \<Rightarrow> json \<Rightarrow> 'a patchField option" where
  "set_patch dec old v =
     Option.bind old (\<lambda>p. Option.bind (struct_of v) (\<lambda>kvs.
       case (foldl set_bool (Some (pa_Set p)) (jfields ''set'' kvs),
           foldl (set_ptr dec) (Some (pa_Value p)) (jfields ''value'' kvs)) of
         (Some b, Some x) \<Rightarrow> Some \<lparr>pa_Set = b, pa_Value = x\<rparr>
       | _ \<Rightarrow> None))"

definition get_patch :: "(json \<Rightarrow> 'a option) \<Rightarrow> string \<Rightarrow> (string \<times> json) list \<Rightarrow> 'a patchField option" where
  "get_patch dec name kvs =
     foldl (set_patch dec) (Some \<lparr>pa_Set = False, pa_Value = None\<rparr>) (jfields name kvs)"

record adminChannelPatch =
  pt_ChannelNumberAdmin :: "string patchField"
  pt_GroupTitleAdmin :: "string patchField"
  pt_EnabledAdmin :: "bool patchField"
  pt_Position :: "int patchField"

definition decode_patch :: "string \<Rightarrow> adminChannelPatch option" where
  "decode_patch body = decode_struct body (\<lambda>kvs.
     case (get_patch (set_str (Some [])) ''channel_number_admin'' kvs,
         get_patch (set_str (Some [])) ''group_title_admin'' kvs,
         get_patch (set_bool (Some False)) ''enabled_admin'' kvs,
         get_patch (set_int (Some 0)) ''position'' kvs) of
       (Some a, Some b, Some c, Some d) \<Rightarrow>
         Some \<lparr>pt_ChannelNumberAdmin = a, pt_GroupTitleAdmin = b, pt_EnabledAdmin = c, pt_Position = d\<rparr>
     | _ \<Rightarrow> None)"

definition patch_value :: "'a patchField \<Rightarrow> 'a option patchValue" where
  "patch_value f = (if pa_Set f then Some (pa_Value f) else None)"

definition toStorePatch :: "adminChannelPatch \<Rightarrow> ChannelPatch" where
  "toStorePatch p =
     \<lparr>cp_ChannelNumberAdmin = patch_value (pt_ChannelNumberAdmin p),
      cp_GroupTitleAdmin = patch_value (pt_GroupTitleAdmin p),
      cp_EnabledAdmin = patch_value (pt_EnabledAdmin p), cp_Position = patch_value (pt_Position p)\<rparr>"

definition adminPatchChannel :: server_handler where
  "adminPatchChannel r s =
     (let cid = URLParam r ''id'' in
      if cid = [] then (writeErrorMsg 400 ''id required'', s)
      else case decode_patch (rq_Body r) of
        None \<Rightarrow> (invalid_body, s)
      | Some p \<Rightarrow>
          (case on_store (AdminPatchChannel (rq_ctx r) cid (toStorePatch p)) s of
             (Inl e, s) \<Rightarrow> (lookup_failed ''channel not found'' e, s)
           | (Inr _, s) \<Rightarrow>
               (case on_store (GetChannel (rq_ctx r) cid) s of
                  (Inl e, s) \<Rightarrow> (lookup_failed ''channel not found'' e, s)
                | (Inr ch, s) \<Rightarrow> (writeJSON 200 (adminChannelDTO_json (toAdminChannelDTO ch)), s))))"

definition adminListEPGKeys :: server_handler where
  "adminListEPGKeys r s =
     answer (on_store (ListEPGKeys (rq_ctx r) (URLParam r ''id'')) s)
       (\<lambda>ks. writeJSON 200 (jobj [(''xmltv_channel_ids'', jarr (map jstr ks))]))"

definition addEPGKeyRequest :: "string \<Rightarrow> string option" where
  "addEPGKeyRequest body = decode_struct body (get_str ''xmltv_channel_id'')"

definition adminAddEPGKey :: server_handler where
  "adminAddEPGKey r s =
     (case addEPGKeyRequest (rq_Body r) of
        None \<Rightarrow> (invalid_body, s)
      | Some xid \<Rightarrow>
          if xid = [] then (writeErrorMsg 400 ''xmltv_channel_id required'', s)
          else answer (on_store (AddEPGKey (rq_ctx r) (URLParam r ''id'') xid False) s) (\<lambda>_. noContent))"

definition adminRemoveEPGKey :: server_handler where
  "adminRemoveEPGKey r s =
     answer (on_store (RemoveEPGKey (rq_ctx r) (URLParam r ''id'') (URLParam r ''xmltv_channel_id'')) s)
       (\<lambda>_. noContent)"

section \<open>Sessions\<close>

definition adminListSessions :: server_handler where
  "adminListSessions r s =
     answer (on_store (ListActiveSessions (rq_ctx r)) s)
       (\<lambda>xs. writeJSON 200 (listEnvelope (map (adminSessionDTO_json \<circ> toAdminSessionDTO) xs) []))"

definition adminKillSession :: server_handler where
  "adminKillSession r s =
     answer (on_store (EndSession (rq_ctx r) (URLParam r ''id'') ''admin_kill'') s) (\<lambda>_. noContent)"

section \<open>Settings\<close>

definition adminGetSettings :: server_handler where
  "adminGetSettings r s =
     answer (on_store (GetSettings (rq_ctx r)) s)
       (\<lambda>row. writeJSON 200 (adminSettingsDTO_json (toAdminSettingsDTO row)))"

definition parseSettingsDuration :: "string \<Rightarrow> string \<Rightarrow> err + duration" where
  "parseSettingsDuration field s =
     (if s = [] then Inl (Err OtherErr (field @ '' is required''))
      else case ParseDuration s of
        Inl e \<Rightarrow> Inl (Err OtherErr (''invalid '' @ field @ '': '' @ emsg e))
      | Inr d \<Rightarrow> if d \<le> 0 then Inl (Err OtherErr (field @ '' must be positive'')) else Inr d)"

definition decode_settings :: "string \<Rightarrow> adminSettingsDTO option" where
  "decode_settings body = decode_struct body (\<lambda>kvs.
     case (get_str ''default_m3u_refresh'' kvs, get_str ''default_xmltv_refresh'' kvs,
         get_str ''guide_window_cap'' kvs, get_int ''per_user_stream_cap'' kvs,
         get_int ''per_channel_default_cap'' kvs, get_str ''session_idle_timeout'' kvs) of
       (Some a, Some b, Some c, Some d, Some e, Some f) \<Rightarrow>
         Some \<lparr>ad_DefaultM3URefresh = a, ad_DefaultXMLTVRefresh = b, ad_GuideWindowCap = c,
           ad_PerUserStreamCap = d, ad_PerChannelDefaultCap = e, ad_SessionIdleTimeout = f\<rparr>
     | _ \<Rightarrow> None)"

text \<open>The checks, in the order of the code: the first that fails names the problem.\<close>

definition check_settings :: "adminSettingsDTO \<Rightarrow> err + SettingsRow" where
  "check_settings q =
     (case parseSettingsDuration ''default_m3u_refresh'' (ad_DefaultM3URefresh q) of
        Inl e \<Rightarrow> Inl e
      | Inr a \<Rightarrow>
     (case parseSettingsDuration ''default_xmltv_refresh'' (ad_DefaultXMLTVRefresh q) of
        Inl e \<Rightarrow> Inl e
      | Inr b \<Rightarrow>
     (case parseSettingsDuration ''guide_window_cap'' (ad_GuideWindowCap q) of
        Inl e \<Rightarrow> Inl e
      | Inr g \<Rightarrow>
     (case parseSettingsDuration ''session_idle_timeout'' (ad_SessionIdleTimeout q) of
        Inl e \<Rightarrow> Inl e
      | Inr i \<Rightarrow>
          if ad_PerUserStreamCap q \<le> 0 then Inl (Err OtherErr ''per_user_stream_cap must be > 0'')
          else if ad_PerChannelDefaultCap q \<le> 0 then Inl (Err OtherErr ''per_channel_default_cap must be > 0'')
          else Inr \<lparr>sg_DefaultM3URefresh = a, sg_DefaultXMLTVRefresh = b, sg_GuideWindowCap = g,
              sg_PerUserStreamCap = ad_PerUserStreamCap q,
              sg_PerChannelDefaultCap = ad_PerChannelDefaultCap q, sg_SessionIdleTimeout = i\<rparr>))))"

definition reload_snapshot :: "server_conf \<Rightarrow> ctx \<Rightarrow> server \<Rightarrow> (err + unit) \<times> server" where
  "reload_snapshot c ctx s =
     (if \<not> sc_Snapshot c then (Inr (), s)
      else
        let (x, snap, w) = Reload ctx (sv_snap s) (sv_world s)
        in (x, s\<lparr>sv_snap := snap, sv_proxy := (sv_proxy s)\<lparr>px_world := w\<rparr>\<rparr>))"

definition adminUpdateSettings :: "server_conf \<Rightarrow> server_handler" where
  "adminUpdateSettings c r s =
     (case decode_settings (rq_Body r) of
        None \<Rightarrow> (invalid_body, s)
      | Some q \<Rightarrow>
          (case check_settings q of
             Inl e \<Rightarrow> (writeErrorMsg 400 (emsg e), s)
           | Inr row \<Rightarrow>
               (case on_store (UpdateSettings (rq_ctx r) row) s of
                  (Inl e, s) \<Rightarrow> (failed e, s)
                | (Inr _, s) \<Rightarrow>
                    (case reload_snapshot c (rq_ctx r) s of
                       (Inl e, s) \<Rightarrow> (failed e, s)
                     | (Inr _, s) \<Rightarrow> adminGetSettings r s))))"

end
