(* ===== verification/Router.thy ===== *)
theory Router
  imports Admin RefreshXMLTV
begin

text \<open>
  The URL map and the middleware: \<open>router.go\<close> and \<open>middleware.go\<close> of \<open>src/internal/server\<close>, the static
  pages of \<open>src/web/embed.go\<close>, and the bridge \<open>src/internal/httproutes/server.go\<close> through which the
  host's requests come in. The router library is not part of the repository: \<open>chi\<close> is any function that
  picks an entry of the route table for a method and a path, or answers itself. So is the content
  of the built pages, \<open>static\<close>.
\<close>

section \<open>Endpoints\<close>

datatype user_route =
  UListChannels | UGetChannel | UListGroups | UGuide | USearch | UGetProgram | UListFavorites |
  UReorder | UAddFavorite | URemoveFavorite | UListRecent | UStream

datatype admin_route =
  AListM3U | ACreateM3U | AGetM3U | AUpdateM3U | ADeleteM3U | ARefreshM3U |
  AListXMLTV | ACreateXMLTV | AGetXMLTV | AUpdateXMLTV | ADeleteXMLTV | ARefreshXMLTV |
  AListChannels | APatchChannel | AListEPG | AAddEPG | ARemoveEPG |
  AListSessions | AKillSession | AGetSettings | AUpdateSettings

datatype endpoint = Healthz | UserApi user_route | Bytes stream_route | AdminApi admin_route | AdminPages | Pages

text \<open>The tables of \<open>Routes\<close> and of the \<open>mountAdmin\<close> methods; chi's \<open>/\<close> under a prefix is its root.\<close>

definition user_routes :: "(string \<times> string \<times> user_route) list" where
  "user_routes =
     [(''GET'', ''/channels'', UListChannels), (''GET'', ''/channels/{id}'', UGetChannel),
      (''GET'', ''/groups'', UListGroups), (''GET'', ''/guide'', UGuide),
      (''GET'', ''/programs/search'', USearch), (''GET'', ''/programs/{id}'', UGetProgram),
      (''GET'', ''/favorites'', UListFavorites), (''POST'', ''/favorites/reorder'', UReorder),
      (''POST'', ''/favorites/{channel_id}'', UAddFavorite),
      (''DELETE'', ''/favorites/{channel_id}'', URemoveFavorite), (''GET'', ''/recent'', UListRecent)]"

definition stream_routes :: "(string \<times> string \<times> endpoint) list" where
  "stream_routes =
     [(''POST'', ''/channels/{id}/stream'', UserApi UStream),
      (''GET'', ''/stream/{session_id}.ts'', Bytes routeTS),
      (''GET'', ''/stream/{session_id}.m3u8'', Bytes routeM3U8),
      (''GET'', ''/stream/{session_id}/segment'', Bytes routeSegment)]"

definition mountAdminSources :: "(string \<times> string \<times> admin_route) list" where
  "mountAdminSources =
     [(''GET'', ''/sources/m3u/'', AListM3U), (''POST'', ''/sources/m3u/'', ACreateM3U),
      (''GET'', ''/sources/m3u/{id}'', AGetM3U), (''PUT'', ''/sources/m3u/{id}'', AUpdateM3U),
      (''DELETE'', ''/sources/m3u/{id}'', ADeleteM3U), (''POST'', ''/sources/m3u/{id}/refresh'', ARefreshM3U),
      (''GET'', ''/sources/xmltv/'', AListXMLTV), (''POST'', ''/sources/xmltv/'', ACreateXMLTV),
      (''GET'', ''/sources/xmltv/{id}'', AGetXMLTV), (''PUT'', ''/sources/xmltv/{id}'', AUpdateXMLTV),
      (''DELETE'', ''/sources/xmltv/{id}'', ADeleteXMLTV),
      (''POST'', ''/sources/xmltv/{id}/refresh'', ARefreshXMLTV)]"

definition mountAdminChannels :: "(string \<times> string \<times> admin_route) list" where
  "mountAdminChannels =
     [(''GET'', ''/channels'', AListChannels), (''PATCH'', ''/channels/{id}'', APatchChannel),
      (''GET'', ''/channels/{id}/epg-keys'', AListEPG), (''POST'', ''/channels/{id}/epg-keys'', AAddEPG),
      (''DELETE'', ''/channels/{id}/epg-keys/{xmltv_channel_id}'', ARemoveEPG)]"

definition mountAdminSessions :: "(string \<times> string \<times> admin_route) list" where
  "mountAdminSessions =
     [(''GET'', ''/sessions'', AListSessions), (''POST'', ''/sessions/{id}/kill'', AKillSession)]"

definition mountAdminSettings :: "(string \<times> string \<times> admin_route) list" where
  "mountAdminSettings = [(''GET'', ''/settings'', AGetSettings), (''PUT'', ''/settings'', AUpdateSettings)]"

text \<open>\<open>*\<close> as a method stands for all of them.\<close>

definition route_table :: "server_conf \<Rightarrow> (string \<times> string \<times> endpoint) list" where
  "route_table c =
     (let base = server_basePath c; under = (\<lambda>p. map (\<lambda>(m, q, e). (m, base @ p @ q, e))) in
      [(''GET'', ''/healthz'', Healthz)] @
      under [] (map (\<lambda>(m, q, u). (m, q, UserApi u)) user_routes) @
      (if sc_Stream c then under [] stream_routes else []) @
      under ''/admin'' (map (\<lambda>(m, q, a). (m, q, AdminApi a))
        (mountAdminSources @ mountAdminChannels @ mountAdminSessions @ mountAdminSettings)) @
      [(''*'', base @ ''/admin/*'', AdminPages), (''*'', base @ ''/*'', Pages)])"

section \<open>Handlers\<close>

fun user_handler :: "server_conf \<Rightarrow> user_route \<Rightarrow> server_handler" where
  "user_handler c UListChannels = listChannels"
| "user_handler c UGetChannel = getChannel"
| "user_handler c UListGroups = listGroups"
| "user_handler c UGuide = guideWindow c"
| "user_handler c USearch = searchPrograms"
| "user_handler c UGetProgram = getProgram"
| "user_handler c UListFavorites = listFavorites"
| "user_handler c UReorder = reorderFavorites"
| "user_handler c UAddFavorite = addFavorite"
| "user_handler c URemoveFavorite = removeFavorite"
| "user_handler c UListRecent = listRecent"
| "user_handler c UStream = mintStream c"

fun admin_handler :: "server_conf \<Rightarrow> admin_route \<Rightarrow> server_handler" where
  "admin_handler c AListM3U = adminListM3USources"
| "admin_handler c ACreateM3U = adminCreateM3USource"
| "admin_handler c AGetM3U = adminGetM3USource"
| "admin_handler c AUpdateM3U = adminUpdateM3USource"
| "admin_handler c ADeleteM3U = adminDeleteM3USource"
| "admin_handler c ARefreshM3U = adminRefreshM3USource c"
| "admin_handler c AListXMLTV = adminListXMLTVSources"
| "admin_handler c ACreateXMLTV = adminCreateXMLTVSource"
| "admin_handler c AGetXMLTV = adminGetXMLTVSource"
| "admin_handler c AUpdateXMLTV = adminUpdateXMLTVSource"
| "admin_handler c ADeleteXMLTV = adminDeleteXMLTVSource"
| "admin_handler c ARefreshXMLTV = adminRefreshXMLTVSource c"
| "admin_handler c AListChannels = adminListChannels"
| "admin_handler c APatchChannel = adminPatchChannel"
| "admin_handler c AListEPG = adminListEPGKeys"
| "admin_handler c AAddEPG = adminAddEPGKey"
| "admin_handler c ARemoveEPG = adminRemoveEPGKey"
| "admin_handler c AListSessions = adminListSessions"
| "admin_handler c AKillSession = adminKillSession"
| "admin_handler c AGetSettings = adminGetSettings"
| "admin_handler c AUpdateSettings = adminUpdateSettings c"

section \<open>Middleware\<close>

definition headerUserID :: string where "headerUserID = ''X-Silo-User-Id''"
definition headerRole :: string where "headerRole = ''X-Silo-User-Role''"
definition roleAdmin :: string where "roleAdmin = ''admin''"

definition RequireSession :: "server_handler \<Rightarrow> server_handler" where
  "RequireSession next r s =
     (let uid = hdr_Get headerUserID (rq_Header r) in
      if uid = [] then (writeErrorMsg 401 ''unauthorized'', s) else next (r\<lparr>rq_UserID := uid\<rparr>) s)"

definition RequireAdmin :: "server_handler \<Rightarrow> server_handler" where
  "RequireAdmin next r s =
     (let uid = hdr_Get headerUserID (rq_Header r) in
      if uid = [] then (writeErrorMsg 401 ''unauthorized'', s)
      else if hdr_Get headerRole (rq_Header r) \<noteq> roleAdmin then (writeErrorMsg 403 ''admin only'', s)
      else next (r\<lparr>rq_UserID := uid\<rparr>) s)"

section \<open>Static pages\<close>

definition isSPARequest :: "string \<Rightarrow> bool" where
  "isSPARequest path =
     (let pos = (\<lambda>c. case last_index_byte path c of None \<Rightarrow> -1 | Some i \<Rightarrow> int i) in
      if path = ''/'' then True
      else if has_prefix path ''/assets/'' then False
      else \<not> pos (CHR ''/'') < pos (CHR ''.''))"

text \<open>The embedded files: \<open>index.html\<close> if it is there, which paths open, and the file server.\<close>

record static_files =
  sf_index :: "string option"
  sf_opens :: "string \<Rightarrow> bool"
  sf_server :: "string \<Rightarrow> response"

definition serveIndex :: "static_files \<Rightarrow> response" where
  "serveIndex f =
     (case sf_index f of
        None \<Rightarrow> http_Error ''spa not available'' 503
      | Some d \<Rightarrow> response0\<lparr>rs_Header := [(''Content-Type'', ''text/html; charset=utf-8''),
          (''Cache-Control'', ''no-store'')], rs_Body := d\<rparr>)"

definition SPAHandler :: "static_files \<Rightarrow> string \<Rightarrow> response" where
  "SPAHandler f path =
     (if isSPARequest path then serveIndex f
      else sf_server f (if sf_opens f path then path else ''/''))"

definition StripPrefix :: "string \<Rightarrow> (string \<Rightarrow> response) \<Rightarrow> string \<Rightarrow> response" where
  "StripPrefix p h path =
     (if has_prefix path p \<and> p \<noteq> [] then h (trim_prefix path p) else http_Error ''404 page not found'' 404)"

section \<open>Redirects\<close>

text \<open>\<open>path.Clean\<close>.\<close>

fun clean_segments :: "bool \<Rightarrow> string list \<Rightarrow> string list \<Rightarrow> string list" where
  "clean_segments rooted out [] = rev out"
| "clean_segments rooted out (e # es) =
     (if e = [] \<or> e = ''.'' then clean_segments rooted out es
      else if e = ''..'' then
        (case out of
           [] \<Rightarrow> clean_segments rooted (if rooted then [] else [e]) es
         | x # xs \<Rightarrow> if x = ''..'' then clean_segments rooted (e # out) es else clean_segments rooted xs es)
      else clean_segments rooted (e # out) es)"

definition path_Clean :: "string \<Rightarrow> string" where
  "path_Clean p =
     (let rooted = has_prefix p ''/'';
          q = (if rooted then ''/'' else []) @ join_with ''/'' (clean_segments rooted [] (split_all p (CHR ''/'')))
      in if q = [] then ''.'' else q)"

text \<open>\<open>http.Redirect\<close> to a target relative to the path of the request.\<close>

definition redirect_target :: "string \<Rightarrow> string \<Rightarrow> string" where
  "redirect_target path target =
     (case url_Parse target of
        Inl _ \<Rightarrow> target
      | Inr u \<Rightarrow>
          if url_Scheme u \<noteq> [] then target
          else
            let full = (if target \<noteq> [] \<and> hd target = CHR ''/'' then target
                  else (case last_index_byte path (CHR ''/'') of None \<Rightarrow> [] | Some i \<Rightarrow> take (Suc i) path) @ target);
                (p, q) = split2 full (CHR ''?'');
                c = path_Clean p
            in c @ (if has_suffix p ''/'' \<and> \<not> has_suffix c ''/'' then ''/'' else []) @
               (case q of None \<Rightarrow> [] | Some q \<Rightarrow> CHR ''?'' # q))"

definition hexEscapeNonASCII :: "string \<Rightarrow> string" where
  "hexEscapeNonASCII s =
     concat (map (\<lambda>c. if is_ascii c then [c] else CHR ''%'' # hex_EncodeToString [c]) s)"

definition htmlEscape :: "string \<Rightarrow> string" where
  "htmlEscape s =
     concat (map (\<lambda>c. case map_of [(CHR ''&'', ''&amp;''), (CHR ''<'', ''&lt;''), (CHR ''>'', ''&gt;''),
       (QUOTE, ''&#34;''), (CHR 0x27, ''&#39;'')] c of Some t \<Rightarrow> t | None \<Rightarrow> [c]) s)"

definition moved :: "string \<Rightarrow> string \<Rightarrow> string \<Rightarrow> response" where
  "moved meth path target =
     (let url = redirect_target path target in
      response0\<lparr>rs_Status := 301,
        rs_Header := (''Location'', hexEscapeNonASCII url) #
          (if meth = ''GET'' \<or> meth = ''HEAD'' then [(''Content-Type'', ''text/html; charset=utf-8'')] else []),
        rs_Body := (if meth = ''GET'' then
          ''<a href='' @ [QUOTE] @ htmlEscape url @ [QUOTE] @ ''>Moved Permanently</a>.'' @ [LF, LF] else [])\<rparr>)"

section \<open>Routes\<close>

text \<open>What the router finds: an entry of the table with the path parameters, or its own answer.\<close>

datatype chi_match = Matched nat smap | Unmatched response

type_synonym chi_router = "(string \<times> string) list \<Rightarrow> string \<Rightarrow> string \<Rightarrow> chi_match"

definition endpoint_handler :: "static_files \<Rightarrow> server_conf \<Rightarrow> client \<Rightarrow> endpoint \<Rightarrow> server_handler" where
  "endpoint_handler static c cl e =
     (case e of
        Healthz \<Rightarrow> (\<lambda>r s. (noContent, s))
      | UserApi u \<Rightarrow> RequireSession (user_handler c u)
      | Bytes k \<Rightarrow> byteRoute cl k
      | AdminApi a \<Rightarrow> RequireAdmin (admin_handler c a)
      | AdminPages \<Rightarrow> RequireAdmin (\<lambda>r s.
          (StripPrefix (server_basePath c @ ''/admin'') (SPAHandler static) (rq_Path r), s))
      | Pages \<Rightarrow> (\<lambda>r s. (StripPrefix (server_basePath c) (SPAHandler static) (rq_Path r), s)))"

definition Routes :: "chi_router \<Rightarrow> static_files \<Rightarrow> server_conf \<Rightarrow> client \<Rightarrow> string \<Rightarrow> server_handler" where
  "Routes chi static c cl meth r s =
     (if has_suffix (rq_Path r) ''/livetv'' then
        (moved meth (rq_Path r)
           (''livetv/'' @ (if rq_RawQuery r = [] then [] else CHR ''?'' # rq_RawQuery r)), s)
      else case chi (map (\<lambda>(m, p, e). (m, p)) (route_table c)) meth (rq_Path r) of
        Unmatched resp \<Rightarrow> (resp, s)
      | Matched i ps \<Rightarrow>
          if i < length (route_table c) then
            endpoint_handler static c cl (snd (snd (route_table c ! i))) (r\<lparr>rq_params := ps\<rparr>) s
          else (http_Error ''404 page not found'' 404, s))"

section \<open>The bridge from the host\<close>

text \<open>A field of the query struct: \<open>PNumber\<close> carries the decimal form \<open>strconv.FormatFloat\<close> prints.\<close>

datatype pvalue = PString string | PBool bool | PNumber string | POther

definition query_field :: "string \<times> pvalue \<Rightarrow> (string \<times> string) list" where
  "query_field kv =
     (case snd kv of
        PString v \<Rightarrow> [(fst kv, v)]
      | PBool b \<Rightarrow> [(fst kv, if b then ''true'' else ''false'')]
      | PNumber n \<Rightarrow> [(fst kv, n)]
      | POther \<Rightarrow> [])"

record HandleHTTPRequest =
  hr_Method :: string
  hr_Path :: string
  hr_Query :: "(string \<times> pvalue) list"
  hr_Headers :: smap
  hr_Body :: string

text \<open>Cookies, as \<open>net/http\<close> reads them from the header.\<close>

definition header_space :: "char set" where
  "header_space = {CHR '' '', TAB, CR, LF}"

definition cookie_value :: "string \<Rightarrow> string option" where
  "cookie_value raw =
     (let v = (if 1 < length raw \<and> hd raw = QUOTE \<and> last raw = QUOTE then butlast (tl raw) else raw) in
      if list_all (\<lambda>c. 32 \<le> code c \<and> code c < 127 \<and> c \<noteq> QUOTE \<and> c \<noteq> CHR '';'' \<and> c \<noteq> CHR 0x5C) v
      then Some v else None)"

definition cookie_part :: "string \<Rightarrow> (string \<times> string) option" where
  "cookie_part p =
     (let (n, v) = cut (trim_both header_space p) (CHR ''=''); n = trim_both header_space n in
      if n = [] \<or> \<not> list_all tchar n then None else map_option (Pair n) (cookie_value v))"

definition readCookies :: "string \<Rightarrow> smap" where
  "readCookies line = List.map_filter cookie_part (split_all line (CHR '';''))"

text \<open>
  \<open>httptest.NewRequest\<close>: it panics on a method or a target that is no request line. The peer is
  always \<open>192.0.2.1:1234\<close>.
\<close>

definition test_NewRequest :: "string \<Rightarrow> string \<Rightarrow> smap \<Rightarrow> string \<Rightarrow> request option" where
  "test_NewRequest meth target headers body =
     (let (p, q) = cut target (CHR ''?'');
          req = (\<lambda>path. \<lparr>rq_ctx = False, rq_UserID = [], rq_params = [], rq_Header = hdr_SetAll headers [],
            rq_Cookies = readCookies (hdr_Get ''Cookie'' (hdr_SetAll headers [])), rq_Path = path,
            rq_RawQuery = q, rq_Body = body, rq_RemoteAddr = ''192.0.2.1:1234''\<rparr>)
      in if meth = [] \<or> \<not> list_all tchar meth then None
         else if target = ''*'' then Some (req ''*'')
         else if \<not> has_prefix p ''/'' then None
         else case unescape p encPath of Inl _ \<Rightarrow> None | Inr path \<Rightarrow> Some (req path))"

definition not_ready :: response where
  "not_ready =
     response0\<lparr>rs_Status := 503, rs_Header := [(''Content-Type'', ''application/json'')],
       rs_Body := json_enc (JObj [(''error'', JObj [(''code'', JStr ''not_ready''),
         (''message'', JStr ''plugin not configured'')])])\<rparr>"

definition bridge_request :: "HandleHTTPRequest \<Rightarrow> request option" where
  "bridge_request q =
     test_NewRequest (if hr_Method q = [] then ''GET'' else hr_Method q)
       (url_String (empty_url\<lparr>url_Path := hr_Path q,
          url_RawQuery := values_Encode (concat (map query_field (hr_Query q)))\<rparr>))
       (hr_Headers q) (hr_Body q)"

text \<open>\<open>Handle\<close>; \<^const>\<open>None\<close> is a panic. Of the response headers the first value of each is kept.\<close>

definition Handle :: "(string \<Rightarrow> server_handler) option \<Rightarrow> HandleHTTPRequest \<Rightarrow> server \<Rightarrow>
    (response \<times> server) option" where
  "Handle h q s =
     (case h of
        None \<Rightarrow> Some (not_ready, s)
      | Some f \<Rightarrow>
          map_option (\<lambda>r. f (if hr_Method q = [] then ''GET'' else hr_Method q) r s) (bridge_request q))"

section \<open>Background refreshes\<close>

text \<open>The goroutine of a manual refresh, under its own context, which the timeout may have cancelled.\<close>

definition run_job :: "(http_body \<Rightarrow> err + http_body) \<Rightarrow> (string \<Rightarrow> bool) \<Rightarrow>
    ((string \<times> Program list) list \<Rightarrow> (string \<times> Program list) list) \<Rightarrow> ctx \<Rightarrow> server \<Rightarrow> server" where
  "run_job gunzip uni ord ctx s =
     (case sv_jobs s of
        [] \<Rightarrow> s
      | j # js \<Rightarrow>
          (let (_, s) = on_store (case j of
               JobM3U sid \<Rightarrow> M3U_RefreshOne ctx sid
             | JobXMLTV sid \<Rightarrow> XMLTV_RefreshOne gunzip uni ord ctx sid) s
           in s\<lparr>sv_jobs := js\<rparr>))"

end
