(* ===== verification/Scheduler.thy ===== *)
theory Scheduler
  imports Settings StoreSessions RefreshXMLTV
begin

text \<open>
  \<open>src/internal/scheduler/scheduler.go\<close>: the host fires a task key, \<open>Run\<close> takes the capability id
  from it and calls the worker. A worker is the effect it has on the world; one that is not
  wired is \<^const>\<open>None\<close>. \<open>scheduled\<close> is the wiring of \<open>src/cmd/silo-plugin-livetv/main.go\<close>.
\<close>

section \<open>Task keys\<close>

definition taskID :: "string \<Rightarrow> string" where
  "taskID key = (case last_index_byte key (CHR '':'') of Some i \<Rightarrow> drop (Suc i) key | None \<Rightarrow> key)"

section \<open>Dispatch\<close>

type_synonym worker = "ctx \<Rightarrow> world \<Rightarrow> (err + unit) \<times> world"

record sched_deps =
  sd_M3U :: "worker option"
  sd_XMLTV :: "worker option"
  sd_Reaper :: "worker option"

definition run_worker :: "string \<Rightarrow> worker option \<Rightarrow> ctx \<Rightarrow> world \<Rightarrow> (err + unit) \<times> world" where
  "run_worker missing wk ctx w =
     (case wk of None \<Rightarrow> (Inl (Err OtherErr missing), w) | Some f \<Rightarrow> f ctx w)"

definition Run :: "sched_deps option \<Rightarrow> ctx \<Rightarrow> string \<Rightarrow> world \<Rightarrow> (err + unit) \<times> world" where
  "Run deps ctx key w =
     (case deps of
        None \<Rightarrow> (Inl (Err OtherErr ''plugin not configured yet''), w)
      | Some d \<Rightarrow>
          let tid = taskID key in
          if tid = ''refresh_m3u_sources'' then run_worker ''m3u worker not wired'' (sd_M3U d) ctx w
          else if tid = ''refresh_xmltv_sources'' then run_worker ''xmltv worker not wired'' (sd_XMLTV d) ctx w
          else if tid = ''reap_idle_sessions'' then run_worker ''reaper not wired'' (sd_Reaper d) ctx w
          else (Inl (Err Unimplemented (''unknown task key '' @ go_quote key)), w))"

section \<open>Reapers\<close>

text \<open>The column is \<open>NOT NULL\<close>, so the test for a null interval never fires.\<close>

definition readIdleTimeout :: "ctx \<Rightarrow> world \<Rightarrow> (err + duration) \<times> world" where
  "readIdleTimeout ctx w =
     (case wrap_err ''read settings.session_idle_timeout'' (db_call ctx (sql_row (\<lambda>now s.
         map_option st_session_idle_timeout (settings s))) w) of
        (Inl e, w) \<Rightarrow> (Inl e, w)
      | (Inr iv, w) \<Rightarrow>
          (Inr (wrap64 (wrap64 (iv_Microseconds iv * 1000) + wrap64 (iv_Days iv * (24 * hour)) +
             wrap64 (iv_Months iv * (30 * 24 * hour)))), w))"

definition SettingsReaper :: worker where
  "SettingsReaper ctx w =
     (case readIdleTimeout ctx w of
        (Inl e, w) \<Rightarrow> (Inl e, w)
      | (Inr d, w) \<Rightarrow> ReapIdle ctx d w)"

definition SnapshotReaper :: "Snapshot option \<Rightarrow> worker" where
  "SnapshotReaper snap ctx w =
     (case snap of
        None \<Rightarrow> (Inl (Err OtherErr ''snapshot reaper: settings not wired''), w)
      | Some s \<Rightarrow> ReapIdle ctx (snap_SessionIdleTimeout s) w)"

definition scheduled :: "(http_body \<Rightarrow> err + http_body) \<Rightarrow> (string \<Rightarrow> bool) \<Rightarrow>
    ((string \<times> Program list) list \<Rightarrow> (string \<times> Program list) list) \<Rightarrow> Snapshot \<Rightarrow> sched_deps" where
  "scheduled gunzip uni ord snap =
     \<lparr>sd_M3U = Some M3U_RefreshAll, sd_XMLTV = Some (XMLTV_RefreshAll gunzip uni ord),
      sd_Reaper = Some (SnapshotReaper (Some snap))\<rparr>"

end
