(* ===== verification/ServerSafety.thy ===== *)
theory ServerSafety
  imports StreamDelivery Router Scheduler
begin

text \<open>
  What requests do to the database, end to end. In the locales of \<open>StoreInvariant\<close> every handler of
  the server, and with them the whole route table, the background refreshes and the scheduled
  tasks, is shown to stay within the relation. So a guide request changes no table, a request
  for bytes none but that of the sessions, and whatever the plugin is asked to do, the tables keep
  their integrity. What a request may change that does not come from an administrator is the
  subject of \<open>Confinement\<close>.
\<close>

section \<open>Store calls of the server\<close>

lemma sv_on_store [frame]:
  "sv_world (snd (on_store f s)) = snd (f (sv_world s))"
  "fst (on_store f s) = fst (f (sv_world s))"
  by (simp_all add: on_store_def on_proxy_def on_world_def sv_world_def split: prod.split)

lemma sv_on_proxy [frame]: "sv_world (snd (on_proxy f s)) = px_world (snd (f (sv_proxy s)))"
  by (simp add: on_proxy_def sv_world_def split: prod.split)

lemma snd_answer [frame]: "snd (answer x f) = snd x"
  by (auto simp: answer_def split: prod.split sum.split)

lemma fst_answer: "fst (answer x g) = (case fst x of Inl e \<Rightarrow> failed e | Inr a \<Rightarrow> g a)"
  by (simp add: answer_def split: prod.split sum.split)

lemma sv_world_update [simp]:
  "sv_world (s\<lparr>sv_guide := g\<rparr>) = sv_world s" "sv_world (s\<lparr>sv_audit := a\<rparr>) = sv_world s"
  "sv_world (s\<lparr>sv_jobs := j\<rparr>) = sv_world s" "sv_world (s\<lparr>sv_snap := x\<rparr>) = sv_world s"
  "sv_world (auditSourceMutation r action kind sid url hs s) = sv_world s"
  by (simp_all add: sv_world_def auditSourceMutation_def)

context world_relation
begin

text \<open>The relation between two states of the server.\<close>

abbreviation RS :: "server \<Rightarrow> server \<Rightarrow> bool" where
  "RS s t \<equiv> R (wdb (sv_world s)) (wdb (sv_world t))"

lemma RS_refl: "RS s s"
  by (rule R_refl)

lemma RS_store: "(\<And>w. R (wdb w) (wdb (snd (f w)))) \<Longrightarrow> on_store f s = (a, t) \<Longrightarrow> RS s t"
  using sv_on_store(1) [of f s] by simp

lemma RS_answer: "(\<And>w. R (wdb w) (wdb (snd (f w)))) \<Longrightarrow> RS s (snd (answer (on_store f s) g))"
  by (simp add: frame)

text \<open>A call, then what follows on its result.\<close>

lemma RS_seq:
  assumes "\<And>w. R (wdb w) (wdb (snd (f w)))" "\<And>a t. RS t (snd (g a t))"
  shows "RS s (snd (case on_store f s of (Inl e, t) \<Rightarrow> (h e, t) | (Inr a, t) \<Rightarrow> g a t))"
proof (cases "on_store f s")
  case (Pair x t)
  have "RS s t" by (rule RS_store [OF assms(1) Pair])
  with Pair R_trans [OF this assms(2)] show ?thesis by (cases x) simp_all
qed

lemma RS_lookup:
  assumes "\<And>w. R (wdb w) (wdb (snd (f w)))"
  shows "RS s (snd (case on_store f s of (Inl e, t) \<Rightarrow> (h e, t) | (Inr a, t) \<Rightarrow> (k a t, t)))"
  by (rule RS_seq [OF assms]) (simp add: R_refl)

text \<open>The handlers that only read.\<close>

lemma RS_guide_fetch: "RS s (snd (guide_fetch r start till s))"
proof -
  have chans: "RS s (snd (guide_channels r s))"
    by (simp add: guide_channels_def Let_def R_refl frame R_VisibleChannelIDs)
  show ?thesis
  proof (cases "guide_channels r s")
    case (Pair x t)
    have "RS s t" using chans Pair by simp
    moreover have "RS t (snd (case on_store (GuideWindow c ids a b) t of
        (Inl e, u) \<Rightarrow> (Inl e, u) | (Inr rows, u) \<Rightarrow> (k rows, u)))" for c ids a b and k :: "_ \<Rightarrow> err + string"
      by (cases "on_store (GuideWindow c ids a b) t")
        (auto dest: RS_store [OF R_GuideWindow] split: sum.split)
    ultimately show ?thesis
      using Pair R_trans by (cases x) (auto simp: guide_fetch_def)
  qed
qed

lemma RS_guideWindow: "RS s (snd (guideWindow c r s))"
proof -
  obtain a b where w: "query_window r ''start'' ''end'' (4 * hour) (wnow (sv_world s)) = (a, b)"
    by (rule prod.exhaust)
  let ?key = "guideCacheKey (rq_UserID r) (fst a) (fst (capped c s a b)) (Query r ''group'') (QueryAll r ''channels'')"
  obtain hit g where g: "guideCache_Get (wnow (sv_world s)) ?key (Some (guideResponseCache c s)) = (hit, g)"
    by (rule prod.exhaust)
  obtain x t where x: "guide_fetch r a (capped c s a b) (s\<lparr>sv_guide := g\<rparr>) = (x, t)" by (rule prod.exhaust)
  have "RS s t" using RS_guide_fetch [of "s\<lparr>sv_guide := g\<rparr>" r a "capped c s a b"] x by simp
  then show ?thesis
    by (cases hit; cases x) (simp_all add: guideWindow_def w g x Let_def R_refl del: guideCache_Get.simps)
qed

lemmas RS_reads = R_ListChannelsForUser R_GetChannelView R_ListGroups R_ListFavorites R_ListRecent
  R_GetProgram R_SearchPrograms R_ListM3USources R_GetM3USource R_ListXMLTVSources R_GetXMLTVSource
  R_AdminListChannels R_ListEPGKeys R_ListActiveSessions R_GetSettings R_GetChannel

end

section \<open>Viewers\<close>

context user_relation
begin

lemma RP_check_cap:
  assumes "\<And>w. R (wdb w) (wdb (snd (f w)))"
  shows "RP p (snd (check_cap n f kd msg p))"
proof (cases "on_world f p")
  case (Pair x q)
  have "RP p q" by (rule RP_on_world [OF assms Pair])
  with Pair show ?thesis by (cases x) (auto simp: check_cap_def R_refl)
qed

lemma RP_mint:
  assumes "\<And>row. ss_user_id row = rq_UserID r \<Longrightarrow> mint row" "user (rq_UserID r)"
  shows "RP p (snd (mint_session c r cid kind p))"
proof -
  have rand: "R (wdb w) (wdb (snd (rand_Read w)))" for w
    by (simp add: rand_Read_def R_refl)
  have row: "R (wdb w) (wdb (snd (CreateSession_row (rq_ctx r) (new_session r cid sid secret) w)))" for sid secret w
    by (rule R_CreateSession, rule assms(1)) (simp add: session_to_row_def new_session_def)
  have tuned: "RP p (snd (let (_, q) = on_world (MarkTuned (rq_ctx r) (rq_UserID r) cid) p in (k q, q)))"
    for p and k :: "proxy \<Rightarrow> response"
    by (cases "on_world (MarkTuned (rq_ctx r) (rq_UserID r) cid) p")
      (auto dest: RP_on_world [OF R_MarkTuned [OF assms(2)]])
  have created: "RP p (snd (case on_world (CreateSession_row (rq_ctx r) (new_session r cid sid secret)) p of
      (Inl _, q) \<Rightarrow> (bad, q)
    | (Inr _, q) \<Rightarrow> let (_, q) = on_world (MarkTuned (rq_ctx r) (rq_UserID r) cid) q in (k q, q)))"
    for p bad sid secret and k :: "proxy \<Rightarrow> response"
  proof (cases "on_world (CreateSession_row (rq_ctx r) (new_session r cid sid secret)) p")
    case (Pair x q)
    have "RP p q" by (rule RP_on_world [OF row Pair])
    with Pair R_trans [OF this tuned] show ?thesis by (cases x) simp_all
  qed
  show ?thesis
  proof (cases "on_world rand_Read p")
    case (Pair x q)
    have q: "RP p q" by (rule RP_on_world [OF rand Pair])
    show ?thesis
    proof (cases x)
      case (Inl e)
      with Pair q show ?thesis by (simp add: mint_session_def)
    next
      case (Inr secret)
      obtain sid q' where u: "on_world newULID q = (sid, q')" by (cases "on_world newULID q")
      have "RP p q'" using q RP_on_world [OF R_ulid u] by (rule R_trans)
      from R_trans [OF this created] Pair Inr u show ?thesis by (simp add: mint_session_def)
    qed
  qed
qed

lemma RP_CreateSession:
  assumes "\<And>row. ss_user_id row = rq_UserID r \<Longrightarrow> mint row" "user (rq_UserID r)"
  shows "RP p (snd (CreateSession c r p))"
proof -
  let ?ctx = "rq_ctx r" and ?cid = "URLParam r ''id''" and ?uid = "rq_UserID r"
  have resolved: "RP p (snd (let (kind, q) = on_world (resolve_kind ?ctx ?cid ch) p in mint_session c r ?cid kind q))"
    for ch p
    by (cases "on_world (resolve_kind ?ctx ?cid ch) p")
      (use R_trans [OF RP_on_world [OF R_resolve_kind] RP_mint [OF assms]] in auto)
  have capped: "RP p (snd (case check_cap n f kd msg p of (Some resp, q) \<Rightarrow> (resp, q) | (None, q) \<Rightarrow> g q))"
    if "\<And>w. R (wdb w) (wdb (snd (f w)))" "\<And>q. RP q (snd (g q))" for n f kd msg g p
    using RP_check_cap [of f, OF that(1), of p n kd msg] R_trans [OF _ that(2)]
    by (cases "check_cap n f kd msg p") (auto split: option.split)
  have looked: "RP p (snd (case on_world (GetChannel ?ctx ?cid) p of
      (Inl e, q) \<Rightarrow> (bad e, q)
    | (Inr ch, q) \<Rightarrow> if \<not> EffectiveEnabled ch then (bad2, q)
        else case check_cap (PerUserStreamCap c) (CountActiveByUser ?ctx ?uid) kd1 msg1 q of
          (Some resp, q) \<Rightarrow> (resp, q)
        | (None, q) \<Rightarrow>
            (case check_cap (PerChannelDefaultCap c) (CountActiveByChannel ?ctx ?cid) kd2 msg2 q of
               (Some resp, q) \<Rightarrow> (resp, q)
             | (None, q) \<Rightarrow>
                 let (kind, q) = on_world (resolve_kind ?ctx ?cid ch) q in mint_session c r ?cid kind q)))"
    for p bad bad2 kd1 msg1 kd2 msg2
  proof (cases "on_world (GetChannel ?ctx ?cid) p")
    case (Pair x q)
    have q: "RP p q" by (rule RP_on_world [OF R_GetChannel Pair])
    note R_trans [OF q capped [OF R_CountActiveByUser capped [OF R_CountActiveByChannel resolved]]]
    with Pair q show ?thesis by (cases x) auto
  qed
  obtain ok q where a: "allow_user ?uid p = (ok, q)" by (cases "allow_user ?uid p")
  have q: "wdb (px_world q) = wdb (px_world p)" using allow_user_world [OF a] by simp
  show ?thesis
    using a q looked [of q] by (auto simp: CreateSession_def Let_def R_refl split: bool.split)
qed

text \<open>The handlers of a viewer.\<close>

lemma RS_user_handler:
  assumes "\<And>row. ss_user_id row = rq_UserID r \<Longrightarrow> mint row" "user (rq_UserID r)"
  shows "RS s (snd (user_handler c u r s))"
proof (cases u)
  case UReorder
  have "RS s (snd (case on_store (ListFavorites (rq_ctx r) (rq_UserID r)) s of
      (Inl e, s) \<Rightarrow> (failed e, s)
    | (Inr favs, s) \<Rightarrow> (case find (\<lambda>i. i \<notin> fav_ChannelID ` set favs) ids of
         Some i \<Rightarrow> (k i, s)
       | None \<Rightarrow> answer (on_store (ReorderFavorites (rq_ctx r) (rq_UserID r) ids) s) (\<lambda>_. noContent))))" for ids k
    by (rule RS_seq [OF R_ListFavorites])
      (auto simp: RS_answer [OF R_ReorderFavorites [OF assms(2)]] R_refl split: option.split)
  with UReorder show ?thesis by (auto simp: reorderFavorites_def R_refl split: option.split)
next
  case UGetChannel
  then show ?thesis by (simp add: getChannel_def RS_lookup [OF R_GetChannelView])
next
  case UGetProgram
  then show ?thesis by (simp add: getProgram_def RS_lookup [OF R_GetProgram])
next
  case UStream
  then show ?thesis by (simp add: mintStream_def frame RP_CreateSession [OF assms] sv_world_def [symmetric])
      (metis RP_CreateSession [OF assms] sv_world_def)
qed (auto simp: listChannels_def listGroups_def listFavorites_def addFavorite_def removeFavorite_def
    listRecent_def searchPrograms_def Let_def RS_answer RS_reads R_AddFavorite R_RemoveFavorite assms
    RS_guideWindow R_refl split: prod.split)

lemma RS_byteRoute:
  assumes "\<And>row. row \<in> set (stream_sessions (wdb (sv_world s))) \<Longrightarrow> carries r row \<Longrightarrow> own (ss_id row)"
  shows "RS s (snd (byteRoute cl k r s))"
  using RP_serve [of "sv_proxy s" r cl k] assms by (simp add: byteRoute_def sv_on_proxy) (simp add: sv_world_def)

end

section \<open>Administrators, jobs and scheduled tasks\<close>

context db_relation
begin

lemma RS_reload_snapshot: "reload_snapshot c ctx s = (x, t) \<Longrightarrow> RS s t"
proof -
  have "R (wdb w) (wdb (snd (snd (Reload ctx snap w))))" for w snap
    using R_GetSettings [of w ctx]
    by (cases "GetSettings ctx w") (auto simp: Reload_def R_refl split: sum.split)
  from this [of "sv_world s" "sv_snap s"]
  show "reload_snapshot c ctx s = (x, t) \<Longrightarrow> RS s t"
    by (auto simp: reload_snapshot_def R_refl sv_world_def split: if_splits prod.splits)
qed

lemma RS_adminUpdateSettings: "RS s (snd (adminUpdateSettings c r s))"
proof -
  have "RS t (snd (case reload_snapshot c (rq_ctx r) t of
      (Inl e, u) \<Rightarrow> (failed e, u) | (Inr _, u) \<Rightarrow> adminGetSettings r u))" for t
  proof (cases "reload_snapshot c (rq_ctx r) t")
    case (Pair x u)
    have "RS t u" by (rule RS_reload_snapshot [OF Pair])
    moreover have "RS u (snd (adminGetSettings r u))"
      unfolding adminGetSettings_def by (rule RS_answer) (rule R_GetSettings)
    ultimately show ?thesis using Pair R_trans by (cases x) auto
  qed
  then have "RS s (snd (case on_store (UpdateSettings (rq_ctx r) row) s of
      (Inl e, s) \<Rightarrow> (failed e, s)
    | (Inr _, s) \<Rightarrow> (case reload_snapshot c (rq_ctx r) s of
         (Inl e, s) \<Rightarrow> (failed e, s) | (Inr _, s) \<Rightarrow> adminGetSettings r s)))" for row
    by (intro RS_seq [OF R_UpdateSettings])
  then show ?thesis
    by (auto simp: adminUpdateSettings_def R_refl split: option.split sum.split)
qed

text \<open>A change of a source, its audit line, then the answer.\<close>

lemma RS_audited:
  assumes "\<And>w. R (wdb w) (wdb (snd (f w)))" "\<And>w. R (wdb w) (wdb (snd (g w)))"
  shows "RS s (snd (case on_store f s of
      (Inl e, t) \<Rightarrow> (h e, t)
    | (Inr _, t) \<Rightarrow>
        let t = auditSourceMutation r action kind sid url hs t in answer (on_store g t) (k t)))"
  by (rule RS_seq [OF assms(1)]) (simp add: Let_def frame assms(2))

lemma RS_audited_last:
  assumes "\<And>w. R (wdb w) (wdb (snd (f w)))"
  shows "RS s (snd (case on_store f s of
      (Inl e, t) \<Rightarrow> (h e, t) | (Inr a, t) \<Rightarrow> (k a t, auditSourceMutation r action kind (sid a) url hs t)))"
  by (rule RS_seq [OF assms]) (simp add: R_refl)

lemma RS_found:
  assumes "\<And>w. R (wdb w) (wdb (snd (f w)))"
  shows "RS s (snd (case on_store f s of
      (Inl e, t) \<Rightarrow> (h e, t) | (Inr a, t) \<Rightarrow> if b then (x, t) else (y, t\<lparr>sv_jobs := js t\<rparr>)))"
  by (rule RS_seq [OF assms]) (simp add: R_refl)

lemmas RS_writes = R_CreateM3USource R_UpdateM3USource R_DeleteM3USource R_CreateXMLTVSource
  R_UpdateXMLTVSource R_DeleteXMLTVSource R_AddEPGKey R_RemoveEPGKey R_EndSession [OF TrueI]

lemma RS_adminPatchChannel: "RS s (snd (adminPatchChannel r s))"
proof -
  have "RS s (snd (case on_store (AdminPatchChannel (rq_ctx r) cid p) s of
      (Inl e, s) \<Rightarrow> (h e, s)
    | (Inr _, s) \<Rightarrow> (case on_store (GetChannel (rq_ctx r) cid) s of
         (Inl e, s) \<Rightarrow> (h e, s) | (Inr ch, s) \<Rightarrow> (k ch, s))))" for cid p h k
    by (rule RS_seq [OF R_AdminPatchChannel]) (rule RS_lookup [OF R_GetChannel])
  then show ?thesis by (auto simp: adminPatchChannel_def Let_def R_refl split: option.split)
qed

lemmas RS_shapes = RS_answer RS_lookup RS_audited RS_audited_last RS_found

lemma RS_admin_handler: "RS s (snd (admin_handler c a r s))"
proof (cases a)
  case APatchChannel then show ?thesis by (simp add: RS_adminPatchChannel)
next
  case AUpdateSettings then show ?thesis by (simp add: RS_adminUpdateSettings)
next
  case ACreateM3U then show ?thesis
    by (auto simp: adminCreateM3USource_def R_refl RS_shapes RS_writes split: sum.split)
next
  case ACreateXMLTV then show ?thesis
    by (auto simp: adminCreateXMLTVSource_def R_refl RS_shapes RS_writes split: sum.split)
next
  case AUpdateM3U then show ?thesis
    by (auto simp: adminUpdateM3USource_def Let_def [of "URLParam r ''id''"] R_refl RS_audited RS_reads RS_writes split: sum.split)
next
  case AUpdateXMLTV then show ?thesis
    by (auto simp: adminUpdateXMLTVSource_def Let_def [of "URLParam r ''id''"] R_refl RS_audited RS_reads RS_writes split: sum.split)
next
  case ADeleteM3U then show ?thesis
    by (simp add: adminDeleteM3USource_def Let_def RS_shapes RS_writes)
next
  case ADeleteXMLTV then show ?thesis
    by (simp add: adminDeleteXMLTVSource_def Let_def RS_shapes RS_writes)
next
  case ARefreshM3U then show ?thesis
    by (simp only: adminRefreshM3USource_def Let_def admin_handler.simps) (rule RS_found [OF R_GetM3USource])
next
  case ARefreshXMLTV then show ?thesis
    by (simp only: adminRefreshXMLTVSource_def Let_def admin_handler.simps) (rule RS_found [OF R_GetXMLTVSource])
qed (auto simp: adminListM3USources_def adminGetM3USource_def adminListXMLTVSources_def
    adminGetXMLTVSource_def adminListChannels_def adminListEPGKeys_def adminAddEPGKey_def
    adminRemoveEPGKey_def adminListSessions_def adminKillSession_def adminGetSettings_def
    RS_answer RS_lookup RS_reads RS_writes R_refl split: option.split)

lemma RS_Routes:
  assumes "\<And>i. mintable i"
  shows "RS s (snd (Routes chi static c cl meth r s))"
proof -
  have "RS s (snd (endpoint_handler static c cl e r s))" for e r
  proof (cases e)
    case (UserApi u) then show ?thesis
      by (simp add: endpoint_handler_def RequireSession_def Let_def R_refl RS_user_handler assms)
  next
    case (Bytes k) then show ?thesis by (simp add: endpoint_handler_def RS_byteRoute)
  next
    case (AdminApi a) then show ?thesis
      by (simp add: endpoint_handler_def RequireAdmin_def Let_def R_refl RS_admin_handler)
  qed (simp_all add: endpoint_handler_def RequireAdmin_def Let_def R_refl)
  then show ?thesis by (auto simp: Routes_def R_refl split: chi_match.split)
qed

lemma R_scheduled: "R (wdb w) (wdb (snd (Run (Some (scheduled gunzip uni ord snap)) ctx key w)))"
  by (simp add: Run_def scheduled_def run_worker_def SnapshotReaper_def Let_def R_refl
      R_M3U_RefreshAll R_XMLTV_RefreshAll R_ReapIdle)

lemma RS_run_job: "RS s (run_job gunzip uni ord ctx s)"
proof (cases "sv_jobs s")
  case (Cons j js)
  let ?f = "case j of JobM3U sid \<Rightarrow> M3U_RefreshOne ctx sid | JobXMLTV sid \<Rightarrow> XMLTV_RefreshOne gunzip uni ord ctx sid"
  obtain x t where x: "on_store ?f s = (x, t)" by (rule prod.exhaust)
  have "RS s t"
    by (rule RS_store [OF _ x]) (simp add: R_M3U_RefreshOne R_XMLTV_RefreshOne split: job.split)
  with Cons x show ?thesis by (simp add: run_job_def Let_def)
qed (simp add: run_job_def R_refl)

end

section \<open>The plugin as a whole\<close>

text \<open>
  What the host does to the plugin: it hands over a request (with the client at the other end of
  the response), lets a background refresh run, or runs a scheduled task; the last two under a
  context that may be cancelled. A panic of the bridge is recovered by the host's RPC server.
\<close>

record plugin =
  pg_chi :: chi_router
  pg_static :: static_files
  pg_conf :: server_conf
  pg_gunzip :: "http_body \<Rightarrow> err + http_body"
  pg_uni :: "string \<Rightarrow> bool"
  pg_ord :: "(string \<times> Program list) list \<Rightarrow> (string \<times> Program list) list"

datatype host_event = HostRequest client HandleHTTPRequest | HostJob ctx | HostTask ctx string

fun host_step :: "plugin \<Rightarrow> host_event \<Rightarrow> server \<Rightarrow> server" where
  "host_step g (HostRequest cl q) s =
     (case Handle (Some (Routes (pg_chi g) (pg_static g) (pg_conf g) cl)) q s of None \<Rightarrow> s | Some x \<Rightarrow> snd x)"
| "host_step g (HostJob ctx) s = run_job (pg_gunzip g) (pg_uni g) (pg_ord g) ctx s"
| "host_step g (HostTask ctx key) s =
     snd (on_store (Run (Some (scheduled (pg_gunzip g) (pg_uni g) (pg_ord g) (sv_snap s))) ctx key) s)"

definition host_run :: "plugin \<Rightarrow> host_event list \<Rightarrow> server \<Rightarrow> server" where
  "host_run g evs s = foldl (\<lambda>s e. host_step g e s) s evs"

context db_relation
begin

lemma RS_host_step: "(\<And>i. mintable i) \<Longrightarrow> RS s (host_step g e s)"
  by (cases e) (auto simp: Handle_def R_refl frame RS_Routes RS_run_job R_scheduled split: option.split)

lemma RS_host_run: "(\<And>i. mintable i) \<Longrightarrow> RS s (host_run g evs s)"
proof (induction evs arbitrary: s)
  case (Cons e evs)
  from R_trans [OF RS_host_step [OF Cons.prems] Cons.IH [OF Cons.prems]]
  show ?case by (simp add: host_run_def)
qed (simp add: host_run_def R_refl)

end

text \<open>The relations a guide request and a request for bytes stay within.\<close>

interpretation reads: world_relation "\<lambda>s s'. s' = s"
  by unfold_locales simp_all

interpretation bytes: byte_relation "\<lambda>s s'. s' = s\<lparr>stream_sessions := stream_sessions s'\<rparr>" "\<lambda>_. True"
proof unfold_locales
  fix s1 s2 s3 :: db
  assume "s2 = s1\<lparr>stream_sessions := stream_sessions s2\<rparr>" "s3 = s2\<lparr>stream_sessions := stream_sessions s3\<rparr>"
  then show "s3 = s1\<lparr>stream_sessions := stream_sessions s3\<rparr>" by (cases s1; cases s2; cases s3) simp
qed (auto simp: touch_session_def end_session_def Let_def split: if_splits)

lemma guideWindow_changes_nothing: "wdb (sv_world (snd (guideWindow c r s))) = wdb (sv_world s)"
  by (rule reads.RS_guideWindow)

lemma serve_changes_sessions:
  "wdb (px_world (snd (serve cl k r p))) =
   (wdb (px_world p))\<lparr>stream_sessions := stream_sessions (wdb (px_world (snd (serve cl k r p))))\<rparr>"
  by (rule bytes.RP_serve) simp


definition demo_server :: server where
  "demo_server = \<lparr>sv_proxy = demo_proxy [], sv_snap = FromValues zero_values, sv_guide = None,
     sv_audit = [], sv_jobs = []\<rparr>"

definition demo_server_conf :: server_conf where
  "demo_server_conf = \<lparr>sc_BasePath = [], sc_Stream = True, sc_StreamBasePath = [], sc_Settings = True,
     sc_Snapshot = True, sc_M3UWorker = True, sc_XMLTVWorker = True, sc_GuideCacheTTL = 0\<rparr>"

text \<open>A router that sends every request to the route that adds a favourite.\<close>

definition demo_chi :: chi_router where
  "demo_chi = (\<lambda>table meth path. Matched 9 [(''channel_id'', ''a'')])"

definition demo_plugin :: plugin where
  "demo_plugin = \<lparr>pg_chi = demo_chi, pg_static = \<lparr>sf_index = None, sf_opens = (\<lambda>p. False), sf_server = (\<lambda>p. response0)\<rparr>,
     pg_conf = demo_server_conf, pg_gunzip = Inr, pg_uni = (\<lambda>s. False), pg_ord = (\<lambda>x. x)\<rparr>"

definition demo_host_request :: HandleHTTPRequest where
  "demo_host_request = \<lparr>hr_Method = ''POST'', hr_Path = ''/api/v1/livetv/favorites/a'', hr_Query = [],
     hr_Headers = [(''X-Silo-User-Id'', ''u'')], hr_Body = []\<rparr>"

lemma demo_server_world: "sv_world demo_server = px_world (demo_proxy [])"
  by (simp add: sv_world_def demo_server_def)


end
