(* ===== verification/Confinement.thy ===== *)
theory Confinement
  imports ServerSafety
begin

text \<open>
  What a request can change that does not come from an administrator: the favourites and recents
  of its user, new sessions of its user, the sessions whose tokens it carries, and the probed kind
  of a channel. The relation \<open>viewer_kept\<close> says so of two states of the database; it is a
  \<open>user_relation\<close>, so every handler a viewer reaches stays within it.
\<close>

section \<open>The relation\<close>

text \<open>A session before and after its own stream has written to it.\<close>

definition same_session :: "session_row \<Rightarrow> session_row \<Rightarrow> bool" where
  "same_session r r' \<longleftrightarrow>
     r'\<lparr>ss_last_byte_at := 0, ss_bytes_streamed := 0, ss_ended_at := None, ss_end_reason := []\<rparr> =
     r\<lparr>ss_last_byte_at := 0, ss_bytes_streamed := 0, ss_ended_at := None, ss_end_reason := []\<rparr> \<and>
     (active r' \<longrightarrow> active r)"

text \<open>The old rows stay where they are; behind them come new ones of the user.\<close>

fun sessions_kept :: "string \<Rightarrow> (string \<Rightarrow> bool) \<Rightarrow> session_row list \<Rightarrow> session_row list \<Rightarrow> bool" where
  "sessions_kept uid own [] new = list_all (\<lambda>r. ss_user_id r = uid) new"
| "sessions_kept uid own (r # rs) [] = False"
| "sessions_kept uid own (r # rs) (r' # rs') =
     ((r' = r \<or> own (ss_id r) \<and> same_session r r') \<and> sessions_kept uid own rs rs')"

definition viewer_kept :: "string \<Rightarrow> (string \<Rightarrow> bool) \<Rightarrow> db \<Rightarrow> db \<Rightarrow> bool" where
  "viewer_kept uid own s s' \<longleftrightarrow>
     m3u_sources s' = m3u_sources s \<and> xmltv_sources s' = xmltv_sources s \<and> settings s' = settings s \<and>
     channel_epg_keys s' = channel_epg_keys s \<and> programs s' = programs s \<and>
     program_credits s' = program_credits s \<and>
     map (ch_UpstreamKind_update (\<lambda>_. [])) (channels s') = map (ch_UpstreamKind_update (\<lambda>_. [])) (channels s) \<and>
     filter (\<lambda>f. fv_user_id f \<noteq> uid) (user_favorites s') = filter (\<lambda>f. fv_user_id f \<noteq> uid) (user_favorites s) \<and>
     filter (\<lambda>f. rc_user_id f \<noteq> uid) (user_recent s') = filter (\<lambda>f. rc_user_id f \<noteq> uid) (user_recent s) \<and>
     sessions_kept uid own (stream_sessions s) (stream_sessions s')"

lemma same_session_refl: "same_session r r"
  by (simp add: same_session_def)

lemma same_session_user: "same_session r r' \<Longrightarrow> ss_user_id r' = ss_user_id r \<and> ss_id r' = ss_id r"
  by (cases r; cases r') (simp add: same_session_def)

lemma same_session_trans: "same_session r r' \<Longrightarrow> same_session r' r'' \<Longrightarrow> same_session r r''"
  by (simp add: same_session_def)

lemma sessions_kept_refl: "sessions_kept uid own rs rs"
  by (induction rs) simp_all

lemma sessions_kept_append: "list_all (\<lambda>r. ss_user_id r = uid) new \<Longrightarrow> sessions_kept uid own rs (rs @ new)"
  by (induction rs) simp_all

lemma sessions_kept_update:
  assumes "\<And>r. P r \<Longrightarrow> own (ss_id r) \<and> same_session r (f r)"
  shows "sessions_kept uid own rs (sql_update P f rs)"
  by (induction rs) (use assms in \<open>auto simp: sql_update_def\<close>)

lemma sessions_kept_users:
  "sessions_kept uid own rs rs' \<Longrightarrow> list_all (\<lambda>r. ss_user_id r = uid) rs \<Longrightarrow> list_all (\<lambda>r. ss_user_id r = uid) rs'"
  by (induction uid own rs rs' rule: sessions_kept.induct) (auto dest: same_session_user)

lemma sessions_kept_trans:
  "sessions_kept uid own rs rs' \<Longrightarrow> sessions_kept uid own rs' rs'' \<Longrightarrow> sessions_kept uid own rs rs''"
proof (induction uid own rs rs' arbitrary: rs'' rule: sessions_kept.induct)
  case (1 uid own new)
  then show ?case using sessions_kept_users by simp
next
  case (3 uid own r rs r' rs')
  then show ?case
    by (cases rs'') (auto dest: same_session_user same_session_trans)
qed simp

lemma filter_other_update:
  "(\<And>f. P f \<Longrightarrow> u f = uid) \<Longrightarrow> (\<And>f. u (g f) = u f) \<Longrightarrow>
   filter (\<lambda>f. u f \<noteq> uid) (sql_update P g rs) = filter (\<lambda>f. u f \<noteq> uid) rs"
  by (induction rs) (auto simp: sql_update_def)

lemma filter_other_delete:
  "(\<And>f. P f \<Longrightarrow> u f = uid) \<Longrightarrow> filter (\<lambda>f. u f \<noteq> uid) (sql_delete P rs) = filter (\<lambda>f. u f \<noteq> uid) rs"
  by (induction rs) (auto simp: sql_delete_def)

interpretation viewer: user_relation "viewer_kept uid own" own "\<lambda>r. ss_user_id r = uid" "\<lambda>u. u = uid" for uid own
proof (unfold_locales, goal_cases)
  case (1 s) show ?case by (simp add: viewer_kept_def sessions_kept_refl)
next
  case (2 s1 s2 s3) then show ?case by (auto simp: viewer_kept_def intro: sessions_kept_trans)
next
  case (3 sid t n now s b s') then show ?case
    by (auto simp: touch_session_def Let_def viewer_kept_def same_session_def active_def split: if_splits
        intro!: sessions_kept_update)
next
  case (4 sid reason now s a s') then show ?case
    by (auto simp: end_session_def viewer_kept_def same_session_def active_def intro!: sessions_kept_update)
next
  case (5 cid kind now s b s') then show ?case
    by (auto simp: set_kind_def update_channel_def viewer_kept_def sessions_kept_refl sql_update_map
        split: if_splits)
next
  case (6 r now s a s') then show ?case
    by (auto simp: insert_session_def viewer_kept_def intro!: sessions_kept_append split: if_splits)
next
  case (7 u cid now s a s') then show ?case
    by (auto simp: add_favorite_def viewer_kept_def sessions_kept_refl split: if_splits)
next
  case (8 u cid now s a s') then show ?case
    by (auto simp: remove_favorite_def viewer_kept_def sessions_kept_refl intro!: filter_other_delete)
next
  case (9 u ids now s a s') then show ?case
    by (auto simp: reorder_favorites_def viewer_kept_def sessions_kept_refl intro!: filter_other_update)
next
  case (10 u cid now s a s') then show ?case
    by (auto simp: mark_tuned_def Let_def viewer_kept_def sessions_kept_refl intro!: filter_other_update
        split: if_splits)
qed

section \<open>The rest of the server\<close>

text \<open>Settings, audit trail and background refreshes as they were.\<close>

definition same_admin :: "server \<Rightarrow> server \<Rightarrow> bool" where
  "same_admin s t \<longleftrightarrow> sv_snap t = sv_snap s \<and> sv_audit t = sv_audit s \<and> sv_jobs t = sv_jobs s"

lemma same_admin_proxy: "on_proxy f s = (a, t) \<Longrightarrow> same_admin s t"
  by (auto simp: on_proxy_def same_admin_def split: prod.splits)

lemma same_admin_store: "on_store f s = (a, t) \<Longrightarrow> same_admin s t"
  unfolding on_store_def by (rule same_admin_proxy)

lemma same_admin_on [simp]: "same_admin s (snd (on_store f s))" "same_admin s (snd (on_proxy h s))"
  by (metis same_admin_store prod.collapse) (metis same_admin_proxy prod.collapse)

lemma same_admin_refl [simp]: "same_admin s s"
  by (simp add: same_admin_def)

lemma same_admin_trans: "same_admin s t \<Longrightarrow> same_admin t u \<Longrightarrow> same_admin s u"
  by (simp add: same_admin_def)

lemma same_admin_guide [simp]:
  "same_admin s (t\<lparr>sv_guide := g\<rparr>) = same_admin s t" "same_admin (s\<lparr>sv_guide := g\<rparr>) t = same_admin s t"
  by (simp_all add: same_admin_def)

lemma same_admin_seq:
  assumes "\<And>a t. same_admin t (snd (g a t))"
  shows "same_admin s (snd (case on_store f s of (Inl e, t) \<Rightarrow> (h e, t) | (Inr a, t) \<Rightarrow> g a t))"
proof (cases "on_store f s")
  case (Pair x t)
  with same_admin_trans [OF same_admin_store [OF Pair] assms] same_admin_store [OF Pair]
  show ?thesis by (cases x) simp_all
qed

lemma guide_fetch_admin: "guide_fetch r a b s = (x, t) \<Longrightarrow> same_admin s t"
proof -
  have c: "same_admin s (snd (guide_channels r s))"
    by (simp add: guide_channels_def Let_def)
  have "same_admin s (snd (guide_fetch r a b s))"
  proof (cases "guide_channels r s")
    case (Pair y u)
    have "same_admin u (snd (case on_store f u of (Inl e, v) \<Rightarrow> (Inl e, v) | (Inr rows, v) \<Rightarrow> (k rows, v)))"
      for f :: "world \<Rightarrow> (err + (string \<times> Program list) list) \<times> world" and k :: "_ \<Rightarrow> err + string"
      by (rule same_admin_seq) simp
    with Pair c same_admin_trans show ?thesis by (cases y) (auto simp: guide_fetch_def)
  qed
  then show "guide_fetch r a b s = (x, t) \<Longrightarrow> same_admin s t" by simp
qed

lemma guideWindow_admin: "same_admin s (snd (guideWindow c r s))"
  by (auto simp: guideWindow_def Let_def simp del: guideCache_Get.simps dest: guide_fetch_admin
      split: prod.split option.split sum.split)

lemma user_handler_admin: "same_admin s (snd (user_handler c u r s))"
proof (cases u)
  case UReorder
  have "same_admin s (snd (case on_store f s of
      (Inl e, s) \<Rightarrow> (failed e, s)
    | (Inr favs, s) \<Rightarrow> (case find (p favs) ids of
         Some i \<Rightarrow> (k i, s)
       | None \<Rightarrow> answer (on_store g s) (\<lambda>_. noContent))))"
    for f :: "world \<Rightarrow> (err + Favorite list) \<times> world" and g :: "world \<Rightarrow> (err + unit) \<times> world" and p ids k
    by (rule same_admin_seq) (auto simp: snd_answer split: option.split)
  with UReorder show ?thesis by (auto simp: reorderFavorites_def split: option.split)
next
  case UGetChannel then show ?thesis by (simp add: getChannel_def same_admin_seq)
next
  case UGetProgram then show ?thesis by (simp add: getProgram_def same_admin_seq)
qed (auto simp: listChannels_def listGroups_def listFavorites_def addFavorite_def removeFavorite_def
    listRecent_def searchPrograms_def mintStream_def Let_def snd_answer guideWindow_admin split: prod.split)

text \<open>The sessions whose tokens a request carries.\<close>

definition carried :: "request \<Rightarrow> db \<Rightarrow> string \<Rightarrow> bool" where
  "carried r s i \<longleftrightarrow> list_ex (\<lambda>row. carries r row \<and> ss_id row = i) (stream_sessions s)"

lemma carries_params [simp]: "carries (r\<lparr>rq_params := ps\<rparr>) = carries r"
  by (rule ext) (simp add: carries_def extractToken_def Query_def)

text \<open>
  Property C2: viewers are confined. Whatever a request does that does not carry the role of an
  administrator, the sources, guide links, programmes, settings, the settings in force, the audit
  trail and the background refreshes stay as they are; channels change at most their probed kind;
  favourites and recents change only for the user the request names; no session is removed, none
  is added for another user, none comes back to life, and only those are written to whose token
  the request carries.
\<close>

theorem viewers_confined:
  assumes "hdr_Get headerRole (rq_Header r) \<noteq> roleAdmin" "Routes chi static c cl meth r s = (resp, t)"
  shows "viewer_kept (hdr_Get headerUserID (rq_Header r)) (carried r (wdb (sv_world s)))
      (wdb (sv_world s)) (wdb (sv_world t)) \<and> same_admin s t"
proof -
  let ?uid = "hdr_Get headerUserID (rq_Header r)" and ?own = "carried r (wdb (sv_world s))"
  let ?ok = "\<lambda>t. viewer_kept ?uid ?own (wdb (sv_world s)) (wdb (sv_world t)) \<and> same_admin s t"
  have own: "?own (ss_id row)" if "row \<in> set (stream_sessions (wdb (sv_world s)))" "carries r row" for row
    using that by (auto simp: carried_def list_ex_iff)
  have "?ok (snd (endpoint_handler static c cl e (r\<lparr>rq_params := ps\<rparr>) s))" for e ps
  proof (cases e)
    case (UserApi u)
    have "viewer_kept ?uid ?own (wdb (sv_world s))
        (wdb (sv_world (snd (user_handler c u (r\<lparr>rq_params := ps, rq_UserID := ?uid\<rparr>) s))))"
      by (rule viewer.RS_user_handler) simp_all
    with UserApi user_handler_admin viewer.R_refl show ?thesis
      by (simp add: endpoint_handler_def RequireSession_def Let_def)
  next
    case (Bytes k)
    have "viewer_kept ?uid ?own (wdb (sv_world s)) (wdb (sv_world (snd (byteRoute cl k (r\<lparr>rq_params := ps\<rparr>) s))))"
      by (rule viewer.RS_byteRoute) (simp add: own)
    with Bytes show ?thesis by (simp add: endpoint_handler_def byteRoute_def)
  qed (use assms(1) viewer.R_refl in \<open>simp_all add: endpoint_handler_def RequireAdmin_def Let_def\<close>)
  then have "?ok (snd (Routes chi static c cl meth r s))"
    using viewer.R_refl by (auto simp: Routes_def split: chi_match.split)
  with assms(2) show ?thesis by simp
qed

definition favorite_request :: request where
  "favorite_request = (demo_request [] [])\<lparr>rq_Header := [(''X-Silo-User-Id'', ''u'')]\<rparr>"

definition favorite_added :: server where
  "favorite_added = snd (Routes demo_chi (pg_static demo_plugin) demo_server_conf demo_client ''POST'' favorite_request demo_server)"

lemma favorite_route:
  "9 < length (route_table demo_server_conf) \<and> snd (snd (route_table demo_server_conf ! 9)) = UserApi UAddFavorite"
  by code_simp

lemma favorite_user: "hdr_Get headerUserID (rq_Header favorite_request) = ''u''"
  "hdr_Get headerRole (rq_Header favorite_request) = []"
  by code_simp+

lemma favorite_handled:
  "user_favorites (wdb (sv_world (snd (addFavorite (favorite_request\<lparr>rq_params := [(''channel_id'', ''a'')],
     rq_UserID := ''u''\<rparr>) demo_server)))) =
   [\<lparr>fv_user_id = ''u'', fv_channel_id = ''a'', fv_position = 0, fv_created_at = 0\<rparr>]"
  by (simp add: addFavorite_def favorite_request_def demo_request_def URLParam_def Let_def frame
      AddFavorite_def snd_wrap demo_server_world demo_proxy_def initGuards_def demo_world_def db_call_def
      add_favorite_def next_position_def in_int32_def demo_db_def demo_row_def pg_ts_def)

text \<open>The favourite of \<open>u\<close> is added, and nothing else.\<close>

theorem viewers_confined_witness:
  "viewer_kept ''u'' (carried favorite_request (wdb (sv_world demo_server)))
     (wdb (sv_world demo_server)) (wdb (sv_world favorite_added)) \<and>
   map fv_channel_id (user_favorites (wdb (sv_world favorite_added))) = [''a'']"
proof (intro conjI)
  have "hdr_Get headerRole (rq_Header favorite_request) \<noteq> roleAdmin"
    by (simp add: favorite_user roleAdmin_def)
  from viewers_confined [OF this prod.collapse [symmetric], unfolded favorite_user(1), THEN conjunct1]
  show "viewer_kept ''u'' (carried favorite_request (wdb (sv_world demo_server)))
     (wdb (sv_world demo_server)) (wdb (sv_world favorite_added))"
    unfolding favorite_added_def .
  show "map fv_channel_id (user_favorites (wdb (sv_world favorite_added))) = [''a'']"
    using favorite_route
    by (simp add: favorite_added_def Routes_def demo_chi_def endpoint_handler_def RequireSession_def Let_def
        favorite_user favorite_handled) (simp add: favorite_request_def demo_request_def has_suffix_def)
qed

end
