(* ===== verification/Secrets.thy ===== *)
theory Secrets
  imports ServerSafety
begin

text \<open>
  The credentials of a source stay on the server: its stored URL and headers reach an
  administrator's browser and the audit trail only masked. Stated as noninterference: two servers
  whose sources differ in nothing but credentials answer every read of the sources alike.
\<close>

section \<open>Rows that differ in credentials only\<close>

definition same_source :: "(string \<Rightarrow> string) \<Rightarrow> 'a source_row_scheme \<Rightarrow> 'a source_row_scheme \<Rightarrow> bool" where
  "same_source uni a b \<longleftrightarrow>
     a\<lparr>sr_url := [], sr_http_headers := []\<rparr> = b\<lparr>sr_url := [], sr_http_headers := []\<rparr> \<and>
     same_url uni (sr_url a) (sr_url b) \<and> same_masked uni sensitiveHeaderNames (sr_http_headers a) (sr_http_headers b)"

lemma same_source_fields:
  assumes "same_source uni a b"
  shows "sr_id a = sr_id b" "sr_name a = sr_name b" "sr_enabled a = sr_enabled b"
    "sr_refresh_interval a = sr_refresh_interval b" "sr_last_refreshed_at a = sr_last_refreshed_at b"
    "sr_last_status a = sr_last_status b" "sr_etag a = sr_etag b" "sr_last_modified a = sr_last_modified b"
    "source_row.more a = source_row.more b"
  using assms by (cases a; cases b; simp add: same_source_def)+

lemma same_source_shown:
  assumes "same_source uni a b"
  shows "toAdminM3UDTO uni (scanM3USource a) = toAdminM3UDTO uni (scanM3USource b)"
  using same_source_fields [OF assms] assms
  by (simp add: toAdminM3UDTO_def scanM3USource_def same_source_def maskURL_hides maskHeaders_hides)

lemma m3u_shown: "same_source uni a b \<Longrightarrow> m3u_json uni (scanM3USource a) = m3u_json uni (scanM3USource b)"
  by (simp only: m3u_json_def same_source_shown)

lemma toAdminM3UDTO_extend: "toAdminM3UDTO uni (M3USource.extend x y) = toAdminM3UDTO uni x"
  by (simp add: toAdminM3UDTO_def M3USource.defs)

lemma xmltv_shown:
  assumes "same_source uni a b"
  shows "xmltv_json uni (scanXMLTVSource a) = xmltv_json uni (scanXMLTVSource b)"
proof -
  have "sr_gzip a = sr_gzip b"
    using same_source_fields(9) [OF assms] by (metis xmltv_row.surjective xmltv_row.select_convs(1) source_row.select_convs(11))
  moreover have "src_Gzip (scanXMLTVSource r) = sr_gzip r" "toAdminM3UDTO uni (scanXMLTVSource r) = toAdminM3UDTO uni (scanM3USource r)"
    for r by (simp_all add: scanXMLTVSource_def toAdminM3UDTO_extend) (simp add: M3USource.defs)
  ultimately show ?thesis
    by (simp add: xmltv_json_def toAdminXMLTVDTO_def same_source_shown [OF assms])
qed

section \<open>Reading related rows\<close>

lemma insort_related:
  "list_all2 A xs ys \<Longrightarrow> A x y \<Longrightarrow> (\<And>a b. A a b \<Longrightarrow> k a = k b) \<Longrightarrow> list_all2 A (insort_key k x xs) (insort_key k y ys)"
  by (induction rule: list_all2_induct) auto

lemma sort_related:
  assumes "list_all2 A xs ys" "\<And>a b. A a b \<Longrightarrow> k a = k b"
  shows "list_all2 A (sort_key k xs) (sort_key k ys)"
  using assms(1) by (induction rule: list_all2_induct) (simp_all add: insort_related assms(2))

lemma find_related:
  assumes "list_all2 A xs ys" "\<And>a b. A a b \<Longrightarrow> P a = P b"
  shows "rel_option A (find P xs) (find P ys)"
  using assms(1) by (induction rule: list_all2_induct) (auto simp: assms(2))

lemma fst_db_call:
  "fst (db_call ctx f w) =
     (if ctx then Inl err_canceled
      else case script w of
        (d, Some e) # _ \<Rightarrow> Inl e
      | (d, None) # _ \<Rightarrow> fst (f (pg_ts (wnow w + int d)) (wdb w))
      | [] \<Rightarrow> fst (f (pg_ts (wnow w)) (wdb w)))"
  by (auto simp: db_call_def Let_def split: list.split prod.split option.split sum.split)

lemma call_related:
  assumes "\<And>now. rel_sum (=) A (fst (f now (wdb w))) (fst (f now d))"
  shows "rel_sum (=) A (fst (db_call ctx f w)) (fst (db_call ctx f (w\<lparr>wdb := d\<rparr>)))"
  using assms by (simp add: fst_db_call split: list.split prod.split option.split)

lemma read_related:
  "(\<And>now. A (q now (wdb w)) (q now d)) \<Longrightarrow>
   rel_sum (=) A (fst (db_call ctx (sql_read q) w)) (fst (db_call ctx (sql_read q) (w\<lparr>wdb := d\<rparr>)))"
  by (rule call_related) (simp add: sql_read_def)

lemma row_related:
  assumes "\<And>now. rel_option A (q now (wdb w)) (q now d)"
  shows "rel_sum (=) A (fst (db_call ctx (sql_row q) w)) (fst (db_call ctx (sql_row q) (w\<lparr>wdb := d\<rparr>)))"
proof (rule call_related)
  fix now
  show "rel_sum (=) A (fst (sql_row q now (wdb w))) (fst (sql_row q now d))"
    using assms [of now] by cases (simp_all add: sql_row_def)
qed

lemma wrap_related: "rel_sum (=) A (fst x) (fst y) \<Longrightarrow> rel_sum (=) A (fst (wrap_err p x)) (fst (wrap_err p y))"
  by (cases "(p, x)" rule: wrap_err.cases; cases "(p, y)" rule: wrap_err.cases) auto

lemma found_related: "rel_sum (=) A (fst x) (fst y) \<Longrightarrow> rel_sum (=) A (fst (not_found_of x)) (fst (not_found_of y))"
  by (cases x rule: not_found_of.cases; cases y rule: not_found_of.cases) auto

section \<open>The answers\<close>

definition with_sources :: "source_row list \<Rightarrow> xmltv_row list \<Rightarrow> server \<Rightarrow> server" where
  "with_sources ms xs s = s\<lparr>sv_proxy := (sv_proxy s)\<lparr>px_world := (sv_world s)\<lparr>wdb :=
     (wdb (sv_world s))\<lparr>m3u_sources := ms, xmltv_sources := xs\<rparr>\<rparr>\<rparr>\<rparr>"

lemma with_sources_simps [simp]:
  "sv_world (with_sources ms xs s) = (sv_world s)\<lparr>wdb := (wdb (sv_world s))\<lparr>m3u_sources := ms, xmltv_sources := xs\<rparr>\<rparr>"
  "sv_uni (with_sources ms xs s) = sv_uni s"
  by (simp_all add: with_sources_def sv_world_def sv_uni_def)

lemma answer_related:
  assumes "rel_sum (=) A (fst (f (sv_world s))) (fst (g (sv_world t)))" "\<And>a b. A a b \<Longrightarrow> k a = l b"
  shows "fst (answer (on_store f s) k) = fst (answer (on_store g t) l)"
  using assms(1) by cases (simp_all add: fst_answer frame assms(2))

lemma fst_lookup:
  "fst (case on_store f s of (Inl e, t) \<Rightarrow> (h e, t) | (Inr x, t) \<Rightarrow> (k x, t)) =
   (case fst (f (sv_world s)) of Inl e \<Rightarrow> h e | Inr x \<Rightarrow> k x)"
  by (subst sv_on_store(2) [symmetric]) (simp split: prod.split sum.split)

lemma found_answer:
  assumes "rel_sum (=) A (fst (f (sv_world s))) (fst (g (sv_world t)))" "\<And>a b. A a b \<Longrightarrow> k a = l b"
  shows "fst (case on_store f s of (Inl e, s) \<Rightarrow> (h e, s) | (Inr x, s) \<Rightarrow> (k x, s)) =
    fst (case on_store g t of (Inl e, s) \<Rightarrow> (h e, s) | (Inr x, s) \<Rightarrow> (l x, s))"
  using assms(1) by cases (simp_all add: fst_lookup assms(2))

lemma sv_uni_store:
  "on_store (GetM3USource ctx sid) s = (x, t) \<Longrightarrow> sv_uni t = sv_uni s"
  "on_store (GetXMLTVSource ctx sid) s = (y, t) \<Longrightarrow> sv_uni t = sv_uni s"
  using sv_on_store(1) [of "GetM3USource ctx sid" s] sv_on_store(1) [of "GetXMLTVSource ctx sid" s]
  by (simp_all add: sv_uni_def GetM3USource_def GetXMLTVSource_def snd_wrap frame)

lemma get_m3u_answer: "adminGetM3USource r s =
    (case on_store (GetM3USource (rq_ctx r) (URLParam r ''id'')) s of
       (Inl e, t) \<Rightarrow> (lookup_failed ''source not found'' e, t)
     | (Inr x, t) \<Rightarrow> (writeJSON 200 (m3u_json (sv_uni s) x), t))"
  by (auto simp: adminGetM3USource_def dest: sv_uni_store split: prod.split sum.split)

lemma get_xmltv_answer: "adminGetXMLTVSource r s =
    (case on_store (GetXMLTVSource (rq_ctx r) (URLParam r ''id'')) s of
       (Inl e, t) \<Rightarrow> (lookup_failed ''source not found'' e, t)
     | (Inr x, t) \<Rightarrow> (writeJSON 200 (xmltv_json (sv_uni s) x), t))"
  by (auto simp: adminGetXMLTVSource_def dest: sv_uni_store split: prod.split sum.split)

lemma m3u_listed:
  assumes "list_all2 (same_source uni) (m3u_sources (wdb w)) ms"
  shows "rel_sum (=) (list_all2 (\<lambda>a b. m3u_json uni a = m3u_json uni b)) (fst (ListM3USources ctx w))
    (fst (ListM3USources ctx (w\<lparr>wdb := (wdb w)\<lparr>m3u_sources := ms, xmltv_sources := xs\<rparr>\<rparr>)))"
  unfolding ListM3USources_def
  by (intro wrap_related read_related)
    (auto simp: list_all2_map1 list_all2_map2 same_source_fields intro!: list_all2_mono [OF sort_related [OF assms]] m3u_shown)

lemma xmltv_listed:
  assumes "list_all2 (same_source uni) (xmltv_sources (wdb w)) xs"
  shows "rel_sum (=) (list_all2 (\<lambda>a b. xmltv_json uni a = xmltv_json uni b)) (fst (ListXMLTVSources ctx w))
    (fst (ListXMLTVSources ctx (w\<lparr>wdb := (wdb w)\<lparr>m3u_sources := ms, xmltv_sources := xs\<rparr>\<rparr>)))"
  unfolding ListXMLTVSources_def
  by (intro wrap_related read_related)
    (auto simp: list_all2_map1 list_all2_map2 same_source_fields intro!: list_all2_mono [OF sort_related [OF assms]] xmltv_shown)

lemma m3u_got:
  assumes "list_all2 (same_source uni) (m3u_sources (wdb w)) ms"
  shows "rel_sum (=) (\<lambda>a b. m3u_json uni a = m3u_json uni b) (fst (GetM3USource ctx i w))
    (fst (GetM3USource ctx i (w\<lparr>wdb := (wdb w)\<lparr>m3u_sources := ms, xmltv_sources := xs\<rparr>\<rparr>)))"
  unfolding GetM3USource_def
  by (intro found_related wrap_related row_related)
    (auto simp: option.rel_map same_source_fields intro!: option.rel_mono_strong [OF find_related [OF assms]] m3u_shown)

lemma xmltv_got:
  assumes "list_all2 (same_source uni) (xmltv_sources (wdb w)) xs"
  shows "rel_sum (=) (\<lambda>a b. xmltv_json uni a = xmltv_json uni b) (fst (GetXMLTVSource ctx i w))
    (fst (GetXMLTVSource ctx i (w\<lparr>wdb := (wdb w)\<lparr>m3u_sources := ms, xmltv_sources := xs\<rparr>\<rparr>)))"
  unfolding GetXMLTVSource_def
  by (intro found_related wrap_related row_related)
    (auto simp: option.rel_map same_source_fields intro!: option.rel_mono_strong [OF find_related [OF assms]] xmltv_shown)

lemma same_json_map: "list_all2 (\<lambda>a b. j a = j b) as bs \<Longrightarrow> map j as = map j bs"
  by (induction rule: list_all2_induct) simp_all

definition source_reads :: "admin_route list" where
  "source_reads = [AListM3U, AGetM3U, AListXMLTV, AGetXMLTV]"

text \<open>
  Property C5: the credentials of the sources are not disclosed. If the sources of two servers differ
  only in credentials (the values of sensitive headers, the password or sole user name of the URL,
  the values of sensitive query parameters), every read of the sources is answered with the same
  response, byte for byte; and a change of a source leaves the same audit trail.
\<close>

theorem secrets_stay_hidden:
  assumes "list_all2 (same_source (sv_uni s)) (m3u_sources (wdb (sv_world s))) ms"
    "list_all2 (same_source (sv_uni s)) (xmltv_sources (wdb (sv_world s))) xs"
    "same_url (sv_uni s) url url'" "url \<noteq> []" "url' \<noteq> []" "same_masked (sv_uni s) sensitiveHeaderNames hs hs'"
  shows "list_all (\<lambda>a. fst (admin_handler c a r s) = fst (admin_handler c a r (with_sources ms xs s))) source_reads \<and>
    auditSourceMutation r action kind sid url hs s = auditSourceMutation r action kind sid url' hs' s"
proof -
  let ?uni = "sv_uni s"
  have hs: "(hs = []) = (hs' = [])" using assms(6) by (auto simp: same_masked_def)
  have "fst (adminListM3USources r s) = fst (adminListM3USources r (with_sources ms xs s))"
    unfolding adminListM3USources_def
    by (rule answer_related [where A = "list_all2 (\<lambda>a b. m3u_json ?uni a = m3u_json ?uni b)"]) (simp_all add: m3u_listed assms(1) same_json_map)
  moreover have "fst (adminListXMLTVSources r s) = fst (adminListXMLTVSources r (with_sources ms xs s))"
    unfolding adminListXMLTVSources_def
    by (rule answer_related [where A = "list_all2 (\<lambda>a b. xmltv_json ?uni a = xmltv_json ?uni b)"]) (simp_all add: xmltv_listed assms(2) same_json_map)
  moreover have "fst (adminGetM3USource r s) = fst (adminGetM3USource r (with_sources ms xs s))"
    unfolding get_m3u_answer
    by (rule found_answer [where A = "\<lambda>a b. m3u_json ?uni a = m3u_json ?uni b"]) (simp_all add: m3u_got assms(1))
  moreover have "fst (adminGetXMLTVSource r s) = fst (adminGetXMLTVSource r (with_sources ms xs s))"
    unfolding get_xmltv_answer
    by (rule found_answer [where A = "\<lambda>a b. xmltv_json ?uni a = xmltv_json ?uni b"]) (simp_all add: xmltv_got assms(2))
  ultimately show ?thesis
    using hs assms(4,5) maskURL_hides [OF assms(3)] maskHeaders_hides [OF assms(6)]
    by (simp add: source_reads_def auditSourceMutation_def)
qed

definition secret_source :: "string \<Rightarrow> source_row" where
  "secret_source p = demo_source\<lparr>sr_url := ''http://u:'' @ p @ ''@h/list?token='' @ p,
     sr_http_headers := [(''Authorization'', p), (''Accept'', ''audio/x-mpegurl'')]\<rparr>"

lemma secret_sources_same:
  "same_url to_lower ''http://u:one@h/list?token=one'' ''http://u:two@h/list?token=two''"
  "same_masked to_lower sensitiveHeaderNames [(''Authorization'', ''one''), (''Accept'', ''audio/x-mpegurl'')]
     [(''Authorization'', ''two''), (''Accept'', ''audio/x-mpegurl'')]"
  by code_simp+

text \<open>Two servers with one source each, under different passwords, tokens and headers.\<close>

theorem secrets_stay_hidden_witness:
  "list_all (\<lambda>a. fst (admin_handler demo_server_conf a (demo_request [(''id'', ''m'')] []) (with_sources [secret_source ''one''] [] demo_server)) =
     fst (admin_handler demo_server_conf a (demo_request [(''id'', ''m'')] []) (with_sources [secret_source ''two''] [] demo_server)))
     source_reads"
proof -
  let ?s = "with_sources [secret_source ''one''] [] demo_server"
  have uni: "sv_uni ?s = to_lower"
    by (simp add: sv_uni_def demo_server_world demo_proxy_def initGuards_def demo_world_def)
  have "same_source (sv_uni ?s) (secret_source ''one'') (secret_source ''two'')"
    unfolding uni using secret_sources_same by (simp add: same_source_def secret_source_def)
  then have rows: "list_all2 (same_source (sv_uni ?s)) (m3u_sources (wdb (sv_world ?s))) [secret_source ''two'']"
    "list_all2 (same_source (sv_uni ?s)) (xmltv_sources (wdb (sv_world ?s))) []"
    by simp_all
  have "with_sources [secret_source ''two''] [] ?s = with_sources [secret_source ''two''] [] demo_server"
    by (simp add: with_sources_def sv_world_def)
  with secrets_stay_hidden [OF rows secret_sources_same(1) [folded uni] _ _ secret_sources_same(2) [folded uni]]
  show ?thesis by simp
qed

end
