(* ===== verification/Durations.thy ===== *)
theory Durations
  imports Dates
begin

text \<open>
  \<open>ParseDuration\<close> reads what \<open>Duration.String\<close> prints: the form in which the settings and the
  refresh intervals travel between the administrator's page and the server.
\<close>

declare dur_loop.simps [simp del]

section \<open>Digits\<close>

lemma dec_val_snoc: "dec_val (s @ [c]) = 10 * dec_val s + (code c - 48)"
  by (simp add: dec_val_def)

lemma dec_val_append: "dec_val (s @ t) = dec_val s * 10 ^ length t + dec_val t"
proof (induction t rule: rev_induct)
  case (snoc c t)
  have "dec_val (s @ t @ [c]) = 10 * dec_val (s @ t) + (code c - 48)"
    using dec_val_snoc [of "s @ t" c] by simp
  with snoc.IH show ?case by (simp add: dec_val_snoc algebra_simps)
qed (simp add: dec_val_def)

lemma dec_val_zeros: "dec_val (replicate n (CHR ''0'')) = 0"
  by (induction n) (simp_all add: dec_val_def)

lemma dec_val_Cons: "dec_val (c # s) = (code c - 48) * 10 ^ length s + dec_val s"
  using dec_val_append [of "[c]" s] by (simp add: dec_val_def)

lemma length_dec_digits: "n < 10 ^ k \<Longrightarrow> 0 < k \<Longrightarrow> length (dec_digits n) \<le> k"
proof (induction k arbitrary: n)
  case (Suc k)
  show ?case
  proof (cases "n < 10")
    case True
    then show ?thesis by (subst dec_digits.simps) simp
  next
    case False
    then have "n div 10 < 10 ^ k" "0 < k" using Suc.prems by (cases k; auto)+
    from Suc.IH [OF this] False show ?thesis by (subst dec_digits.simps) simp
  qed
qed simp

lemma itoa_nat: "0 \<le> i \<Longrightarrow> itoa i = dec_digits (nat i)"
  by (simp add: itoa_def)

lemma pad_digits:
  assumes "0 \<le> f" "f < 10 ^ k" "0 < k"
  shows "length (pad k f) = k" "list_all is_digit (pad k f)" "dec_val (pad k f) = nat f"
proof -
  have "nat f < 10 ^ k" using assms(1,2) by (simp add: nat_less_iff)
  then have "length (dec_digits (nat f)) \<le> k" using assms(3) by (rule length_dec_digits)
  then show "length (pad k f) = k" by (simp add: pad_def Let_def itoa_nat assms(1))
  show "list_all is_digit (pad k f)"
    using dec_digits_digits [of "nat f"]
    by (auto simp: pad_def Let_def itoa_nat assms(1) list_all_iff is_digit_def)
  show "dec_val (pad k f) = nat f"
    by (simp add: pad_def Let_def itoa_nat assms(1) dec_val_append dec_val_zeros dec_val_digits)
qed

lemma trim_zeros:
  obtains j where "s = trim_right {CHR ''0''} s @ replicate j (CHR ''0'')"
proof -
  let ?z = "takeWhile (\<lambda>c. c \<in> {CHR ''0''}) (rev s)"
  have "rev s = ?z @ dropWhile (\<lambda>c. c \<in> {CHR ''0''}) (rev s)" by simp
  then have "s = trim_right {CHR ''0''} s @ rev ?z"
    unfolding trim_right_def by (metis rev_append rev_rev_ident)
  moreover have "rev ?z = replicate (length ?z) (CHR ''0'')"
    by (rule replicate_eqI) (auto dest: set_takeWhileD)
  ultimately show thesis using that by metis
qed

section \<open>Fractions\<close>

lemma frac_digits_value:
  assumes "list_all is_digit ds" "0 \<le> f" "f * 10 ^ length ds + 10 ^ length ds \<le> 10 ^ 18"
  shows "frac_digits ds (f, sc) = (f * 10 ^ length ds + int (dec_val ds), sc * 10 ^ length ds)"
  using assms
proof (induction ds arbitrary: f sc)
  case (Cons c ds)
  let ?v = "int (code c) - 48"
  have v: "0 \<le> ?v" "?v \<le> 9" using Cons.prems(1) by (auto simp: is_digit_def)
  have "(f * 10 + 10) * 1 \<le> (f * 10 + 10) * 10 ^ length ds"
    by (rule mult_left_mono) (use Cons.prems(2) in simp_all)
  also have "\<dots> \<le> 10 ^ 18" using Cons.prems(3) by (simp add: algebra_simps)
  finally have small: "f * 10 + 10 \<le> 10 ^ 18" by simp
  have "(f * 10 + ?v) * 10 ^ length ds + 10 ^ length ds \<le> (f * 10 + 10) * 10 ^ length ds"
  proof -
    have "(f * 10 + ?v + 1) * 10 ^ length ds \<le> (f * 10 + 10) * 10 ^ length ds"
      by (rule mult_right_mono) (use v in simp_all)
    then show ?thesis by (simp add: algebra_simps)
  qed
  also have "\<dots> \<le> 10 ^ 18" using Cons.prems(3) by (simp add: algebra_simps)
  finally have bound: "(f * 10 + ?v) * 10 ^ length ds + 10 ^ length ds \<le> 10 ^ 18" .
  have pos: "0 \<le> f * 10 + ?v" using Cons.prems(2) v by simp
  have "frac_digits (c # ds) (f, sc) = frac_digits ds (f * 10 + ?v, sc * 10)"
    using small v by simp
  also have "\<dots> = ((f * 10 + ?v) * 10 ^ length ds + int (dec_val ds), sc * 10 * 10 ^ length ds)"
    using Cons.IH [OF _ pos bound] Cons.prems(1) by simp
  finally have step: "frac_digits (c # ds) (f, sc) =
      ((f * 10 + ?v) * 10 ^ length ds + int (dec_val ds), sc * 10 * 10 ^ length ds)" .
  have "int (dec_val (c # ds)) = ?v * 10 ^ length ds + int (dec_val ds)"
    using v by (simp add: dec_val_Cons of_nat_diff)
  then have "((f * 10 + ?v) * 10 ^ length ds + int (dec_val ds), sc * 10 * 10 ^ length ds) =
      (f * 10 ^ length (c # ds) + int (dec_val (c # ds)), sc * 10 ^ length (c # ds))"
    by (simp add: algebra_simps)
  with step show ?case by simp
qed (simp add: dec_val_def)

lemma show_frac_cases:
  assumes "0 \<le> f" "f < 10 ^ k" "0 < k" "k \<le> 9"
  obtains "show_frac k f = []" "f = 0"
  | ds a sc where "show_frac k f = CHR ''.'' # ds" "list_all is_digit ds" "frac_digits ds (0, 1) = (a, sc)"
      "a * 10 ^ k div sc = f"
proof (cases "f = 0")
  case True
  then show thesis by (intro that(1)) (simp_all add: show_frac_def Let_def)
next
  case False
  let ?s = "pad k f"
  let ?ds = "trim_right {CHR ''0''} ?s"
  obtain j where j: "?s = ?ds @ replicate j (CHR ''0'')" by (rule trim_zeros)
  note p = pad_digits [OF assms(1-3)]
  have len: "k = length ?ds + j" using p(1) j by (metis length_append length_replicate)
  have "dec_val ?s = dec_val ?ds * 10 ^ j" by (subst j) (simp add: dec_val_append dec_val_zeros)
  with p(3) assms(1) have f: "f = int (dec_val ?ds) * 10 ^ j" by (metis int_nat_eq of_nat_mult of_nat_numeral of_nat_power)
  have d: "list_all is_digit ?ds" using p(2) j by (metis list_all_append)
  have "(10::int) ^ length ?ds \<le> 10 ^ 18" by (rule power_increasing) (use len assms(4) in simp_all)
  with frac_digits_value [OF d, of 0 1] have fr: "frac_digits ?ds (0, 1) = (int (dec_val ?ds), 10 ^ length ?ds)" by simp
  have "int (dec_val ?ds) * 10 ^ (length ?ds + j) div 10 ^ length ?ds = int (dec_val ?ds) * 10 ^ j"
    by (simp add: power_add ac_simps)
  then have "int (dec_val ?ds) * 10 ^ k div 10 ^ length ?ds = f" using f len by simp
  with fr d False show thesis by (intro that(2)) (simp_all add: show_frac_def Let_def)
qed

section \<open>One component of a duration\<close>

lemma take_digits:
  assumes "list_all is_digit ds" "x = [] \<or> \<not> is_digit (hd x)"
  shows "takeWhile is_digit (ds @ x) = ds" "dropWhile is_digit (ds @ x) = x"
proof -
  have "takeWhile is_digit x = []" "dropWhile is_digit x = x" using assms(2) by (cases x; simp)+
  moreover have "takeWhile is_digit (ds @ x) = ds @ takeWhile is_digit x" "dropWhile is_digit (ds @ x) = dropWhile is_digit x"
    using assms(1) by (simp_all add: list_all_iff takeWhile_append2 dropWhile_append2)
  ultimately show "takeWhile is_digit (ds @ x) = ds" "dropWhile is_digit (ds @ x) = x" by simp_all
qed

definition unit_chars :: "string \<Rightarrow> bool" where
  "unit_chars u \<longleftrightarrow> u \<noteq> [] \<and> list_all (\<lambda>c. c \<noteq> CHR ''.'' \<and> \<not> is_digit c) u"

lemma take_unit:
  assumes "unit_chars u" "rest = [] \<or> is_digit (hd rest)"
  shows "takeWhile (\<lambda>c. c \<noteq> CHR ''.'' \<and> \<not> is_digit c) (u @ rest) = u"
    "dropWhile (\<lambda>c. c \<noteq> CHR ''.'' \<and> \<not> is_digit c) (u @ rest) = rest"
proof -
  let ?P = "\<lambda>c. c \<noteq> CHR ''.'' \<and> \<not> is_digit c"
  have "takeWhile ?P rest = []" "dropWhile ?P rest = rest" using assms(2) by (cases rest; simp)+
  moreover have "takeWhile ?P (u @ rest) = u @ takeWhile ?P rest" "dropWhile ?P (u @ rest) = dropWhile ?P rest"
    using assms(1) by (simp_all add: unit_chars_def list_all_iff takeWhile_append2 dropWhile_append2)
  ultimately show "takeWhile ?P (u @ rest) = u" "dropWhile ?P (u @ rest) = rest" by simp_all
qed

lemma dur_loop_Nil: "dur_loop orig d [] = Inr d"
  by (subst dur_loop.simps) simp

lemma dur_step:
  assumes u: "unit_of u = Some un" "unit_chars u" "0 < un" and rest: "rest = [] \<or> is_digit (hd rest)"
    and fr: "fr = [] \<and> f = 0 \<or> fr = CHR ''.'' # ds \<and> list_all is_digit ds \<and> frac_digits ds (0, 1) = (a, sc) \<and> a * un div sc = f"
    and b: "0 \<le> d" "0 \<le> f" "d + int n * un + f \<le> 2 ^ 63"
  shows "dur_loop orig d (dec_digits n @ fr @ u @ rest) = dur_loop orig (d + int n * un + f) rest"
proof -
  let ?s = "dec_digits n @ fr @ u @ rest"
  obtain c cs where uc: "u = c # cs" "c \<noteq> CHR ''.''" "\<not> is_digit c" using u(2) by (cases u) (auto simp: unit_chars_def)
  have ip: "takeWhile is_digit ?s = dec_digits n" "dropWhile is_digit ?s = fr @ u @ rest"
    by (rule take_digits [OF dec_digits_digits], use fr uc in \<open>auto simp: is_digit_def\<close>)+
  have fp: "fr = CHR ''.'' # ds \<Longrightarrow> takeWhile is_digit (ds @ u @ rest) = ds \<and> dropWhile is_digit (ds @ u @ rest) = u @ rest"
    using fr uc take_digits [of ds "u @ rest"] by auto
  have hd: "is_digit (hd ?s)" using dec_digits_digits [of n] by (cases "dec_digits n") auto
  have m: "int n * un \<le> 2 ^ 63" using b by simp
  have "int n * un div un \<le> 2 ^ 63 div un" by (rule zdiv_mono1 [OF m u(3)])
  then have n: "int n \<le> 2 ^ 63 div un" using u(3) by simp
  have "int n * 1 \<le> int n * un" by (rule mult_left_mono) (use u(3) in simp_all)
  with m have n': "int n \<le> 2 ^ 63" by simp
  note tu = take_unit [OF u(2) rest]
  show ?thesis
  proof (cases "fr = []")
    case True
    with fr have f: "f = 0" by simp
    have "\<not> has_prefix (u @ rest) ''.''" using uc by simp
    with ip tu hd n n' b f u True show ?thesis
      by (subst dur_loop.simps) (simp add: Let_def dec_val_digits unit_chars_def)
  next
    case False
    with fr have fr': "fr = CHR ''.'' # ds" "frac_digits ds (0, 1) = (a, sc)" "a * un div sc = f" by simp_all
    with ip tu hd n n' b u fp show ?thesis
      by (subst dur_loop.simps) (simp add: Let_def dec_val_digits unit_chars_def add.assoc)
  qed
qed

lemma units:
  "unit_chars ''h''" "unit_chars ''m''" "unit_chars ''s''" "unit_chars ''ms''" "unit_chars ''ns''" "unit_chars micro"
  by (simp_all add: unit_chars_def micro_def is_digit_def)

lemma unit_values:
  "unit_of ''h'' = Some hour" "unit_of ''m'' = Some minute" "unit_of ''s'' = Some (10 ^ 9)"
  "unit_of ''ms'' = Some (10 ^ 6)" "unit_of ''ns'' = Some 1" "unit_of micro = Some (10 ^ 3)"
  by (simp_all add: unit_of_def micro_def)

text \<open>A whole number of a unit, and a number of a unit with its fraction at the end.\<close>

lemma dur_whole:
  assumes "unit_of u = Some un" "unit_chars u" "0 < un" "rest = [] \<or> is_digit (hd rest)" "0 \<le> i" "0 \<le> d"
    "d + i * un \<le> 2 ^ 63"
  shows "dur_loop orig d (itoa i @ u @ rest) = dur_loop orig (d + i * un) rest"
  using dur_step [OF assms(1-4), of "[]" 0 "[]" 0 0 d "nat i" orig] assms by (simp add: itoa_nat)

lemma dur_fraction:
  assumes "unit_of u = Some (10 ^ k)" "unit_chars u" "0 < k" "k \<le> 9" "0 \<le> i" "0 \<le> d" "0 \<le> f" "f < 10 ^ k"
    "d + i * 10 ^ k + f \<le> 2 ^ 63"
  shows "dur_loop orig d (itoa i @ show_frac k f @ u) = Inr (d + i * 10 ^ k + f)"
proof (rule show_frac_cases [OF assms(7,8,3,4)])
  assume "show_frac k f = []" "f = 0"
  with dur_whole [OF assms(1,2) _ _ assms(5,6), of "[]" orig] assms(9) show ?thesis by (simp add: dur_loop_Nil)
next
  fix ds a sc
  assume "show_frac k f = CHR ''.'' # ds" "list_all is_digit ds" "frac_digits ds (0, 1) = (a, sc)" "a * 10 ^ k div sc = f"
  with dur_step [OF assms(1,2) _ _ _ assms(6,7), of "[]" "CHR ''.'' # ds" ds a sc "nat i" orig] assms(5,9)
  show ?thesis by (simp add: itoa_nat dur_loop_Nil)
qed

definition dur_text :: "int \<Rightarrow> string" where
  "dur_text u =
     (let sec = u div ns_per_sec; m = sec div 60; h = m div 60
      in if u < 1000 then itoa u @ ''ns''
         else if u < 1000000 then itoa (u div 1000) @ show_frac 3 (u mod 1000) @ micro
         else if u < ns_per_sec then itoa (u div 1000000) @ show_frac 6 (u mod 1000000) @ ''ms''
         else (if m = 0 then [] else (if h = 0 then [] else itoa h @ ''h'') @ itoa (m mod 60) @ ''m'') @
           itoa (sec mod 60) @ show_frac 9 (u mod ns_per_sec) @ ''s'')"

lemma duration_String_text: "d \<noteq> 0 \<Longrightarrow> duration_String d = (if d < 0 then ''-'' else []) @ dur_text \<bar>d\<bar>"
  by (simp add: duration_String_def dur_text_def Let_def)

lemma hd_itoa: "0 \<le> i \<Longrightarrow> is_digit (hd (itoa i @ x))"
  using dec_digits_digits [of "nat i"] by (cases "dec_digits (nat i)") (auto simp: itoa_nat)

lemma clock_parts: "((h * 60 + y) * 60 + x) * 10 ^ 9 + r = h * hour + y * minute + x * 10 ^ 9 + (r :: int)"
  by (simp add: hour_def minute_def algebra_simps)

lemma dur_clock:
  assumes "0 \<le> h" "0 \<le> y" "0 \<le> x" "0 \<le> r" "r < 10 ^ 9" "h * hour + y * minute + x * 10 ^ 9 + r \<le> 2 ^ 63"
    "z \<Longrightarrow> h = 0 \<and> y = 0"
  shows "dur_loop orig 0 ((if z then [] else (if h = 0 then [] else itoa h @ ''h'') @ itoa y @ ''m'') @
      itoa x @ show_frac 9 r @ ''s'') = Inr (h * hour + y * minute + x * 10 ^ 9 + r)"
proof -
  let ?rest = "itoa x @ show_frac 9 r @ ''s''"
  have pos: "0 < minute" "0 < hour" by (simp_all add: minute_def hour_def)
  have nn: "0 \<le> h * hour" "0 \<le> y * minute" "0 \<le> x * 10 ^ 9" using assms(1-3) pos by simp_all
  have last: "dur_loop orig e ?rest = Inr (e + x * 10 ^ 9 + r)" if "0 \<le> e" "e + x * 10 ^ 9 + r \<le> 2 ^ 63" for e
    by (rule dur_fraction [OF unit_values(3) units(3)]) (use that assms in simp_all)
  have mins: "dur_loop orig e (itoa y @ ''m'' @ ?rest) = dur_loop orig (e + y * minute) ?rest"
    if "0 \<le> e" "e + y * minute \<le> 2 ^ 63" for e
    by (rule dur_whole [OF unit_values(2) units(2) pos(1) _ assms(2)]) (use that assms(3) hd_itoa in simp_all)
  have hours: "dur_loop orig 0 (itoa h @ ''h'' @ itoa y @ ''m'' @ ?rest) = dur_loop orig (0 + h * hour) (itoa y @ ''m'' @ ?rest)"
    by (rule dur_whole [OF unit_values(1) units(1) pos(2) _ assms(1)]) (use nn assms(2,4,6) hd_itoa in simp_all)
  have low: "y * minute + x * 10 ^ 9 + r \<le> 2 ^ 63" "h * hour + y * minute \<le> 2 ^ 63" "y * minute \<le> 2 ^ 63"
    using assms(4,6) nn by linarith+
  show ?thesis
  proof (cases z)
    case True
    with assms(7) last [of 0] low show ?thesis by simp
  next
    case False
    show ?thesis
    proof (cases "h = 0")
      case True
      with False mins [of 0] last [of "y * minute"] low nn show ?thesis by simp
    next
      case h: False
      with False hours mins [of "h * hour"] last [of "h * hour + y * minute"] low nn assms(6) show ?thesis by simp
    qed
  qed
qed

lemma dur_loop_text:
  assumes "0 < u" "u \<le> 2 ^ 63"
  shows "dur_loop orig 0 (dur_text u) = Inr u"
proof -
  let ?sec = "u div 10 ^ 9"
  let ?m = "?sec div 60"
  let ?h = "?m div 60"
  have "?sec * 10 ^ 9 + u mod 10 ^ 9 = u" "?m * 60 + ?sec mod 60 = ?sec" "?h * 60 + ?m mod 60 = ?m"
    by (rule div_mult_mod_eq)+
  then have "((?h * 60 + ?m mod 60) * 60 + ?sec mod 60) * 10 ^ 9 + u mod 10 ^ 9 = u" by metis
  then have parts: "?h * hour + ?m mod 60 * minute + ?sec mod 60 * 10 ^ 9 + u mod 10 ^ 9 = u"
    by (simp only: clock_parts)
  consider "u < 1000" | "1000 \<le> u" "u < 1000000" | "1000000 \<le> u" "u < 10 ^ 9" | "10 ^ 9 \<le> u" by linarith
  then show ?thesis
  proof cases
    case 1
    with assms dur_whole [OF unit_values(5) units(5), of "[]" u 0 orig] show ?thesis
      by (simp add: dur_text_def Let_def dur_loop_Nil)
  next
    case 2
    have "dur_loop orig 0 (itoa (u div 1000) @ show_frac 3 (u mod 1000) @ micro) = Inr (0 + u div 1000 * 10 ^ 3 + u mod 1000)"
      by (rule dur_fraction [OF unit_values(6) units(6)]) (use 2 assms in simp_all)
    with 2 show ?thesis by (simp add: dur_text_def Let_def)
  next
    case 3
    have "dur_loop orig 0 (itoa (u div 1000000) @ show_frac 6 (u mod 1000000) @ ''ms'') =
        Inr (0 + u div 1000000 * 10 ^ 6 + u mod 1000000)"
      by (rule dur_fraction [OF unit_values(4) units(4)]) (use 3 assms in simp_all)
    with 3 show ?thesis by (simp add: dur_text_def Let_def)
  next
    case 4
    have "dur_text u = (if ?m = 0 then [] else (if ?h = 0 then [] else itoa ?h @ ''h'') @ itoa (?m mod 60) @ ''m'') @
        itoa (?sec mod 60) @ show_frac 9 (u mod 10 ^ 9) @ ''s''"
      using 4 by (simp add: dur_text_def Let_def)
    moreover have "dur_loop orig 0 ((if ?m = 0 then [] else (if ?h = 0 then [] else itoa ?h @ ''h'') @ itoa (?m mod 60) @ ''m'') @
        itoa (?sec mod 60) @ show_frac 9 (u mod 10 ^ 9) @ ''s'') = Inr (?h * hour + ?m mod 60 * minute + ?sec mod 60 * 10 ^ 9 + u mod 10 ^ 9)"
      by (rule dur_clock, unfold parts) (use assms in \<open>simp_all add: pos_imp_zdiv_nonneg_iff\<close>)
    ultimately show ?thesis unfolding parts by simp
  qed
qed

text \<open>No duration starts with a sign or is the lone zero: the loop would have refused it.\<close>

lemma dur_text_start:
  assumes "0 < u" "u \<le> 2 ^ 63"
  shows "dur_text u \<noteq> []" "dur_text u \<noteq> ''0''" "\<not> has_prefix (dur_text u) ''-''" "\<not> has_prefix (dur_text u) ''+''"
proof -
  note loop = dur_loop_text [OF assms, of "[]"]
  show ne: "dur_text u \<noteq> []" using loop assms(1) by (auto simp: dur_loop_Nil)
  have "dur_loop [] 0 ''0'' \<noteq> Inr u" by (subst dur_loop.simps) (simp add: is_digit_def Let_def)
  with loop show "dur_text u \<noteq> ''0''" by auto
  have "hd (dur_text u) = CHR ''.'' \<or> is_digit (hd (dur_text u))"
    using loop ne by (subst (asm) dur_loop.simps) (auto split: if_splits)
  then show "\<not> has_prefix (dur_text u) ''-''" "\<not> has_prefix (dur_text u) ''+''"
    using ne by (cases "dur_text u"; auto simp: is_digit_def)+
qed

section \<open>Parsed durations are in range\<close>

lemma frac_digits_pos:
  "list_all is_digit ds \<Longrightarrow> 0 \<le> f \<Longrightarrow> 0 < sc \<Longrightarrow> frac_digits ds (f, sc) = (a, b) \<Longrightarrow> 0 \<le> a \<and> 0 < b"
proof (induction ds arbitrary: f sc)
  case (Cons c ds)
  then have "0 \<le> f * 10 + (int (code c) - 48)" "0 < sc * 10" by (auto simp: is_digit_def)
  from Cons.IH [OF _ this] Cons.prems show ?case by (auto split: if_splits)
qed simp

lemma unit_of_pos: "unit_of u = Some un \<Longrightarrow> 0 < un"
  by (auto simp: unit_of_def minute_def hour_def split: if_splits)

lemma dur_loop_grows: "dur_loop orig d s = Inr e \<Longrightarrow> d \<le> e"
proof (induction orig d s rule: dur_loop.induct)
  case (1 orig d s)
  show ?case
  proof (cases "s = [] \<or> (hd s \<noteq> CHR ''.'' \<and> \<not> is_digit (hd s))")
    case True
    then have "s = [] \<or> dur_loop orig d s = Inl (dur_error orig)"
      by (cases "s = []") (simp_all add: dur_loop.simps [of orig d s])
    with 1(2) show ?thesis by (auto simp: dur_loop_Nil)
  next
    case False
    define ip where "ip = takeWhile is_digit s"
    define s1 where "s1 = dropWhile is_digit s"
    define fp where "fp = (if has_prefix s1 ''.'' then takeWhile is_digit (tl s1) else [])"
    define s2 where "s2 = (if has_prefix s1 ''.'' then dropWhile is_digit (tl s1) else s1)"
    define u where "u = takeWhile (\<lambda>c. c \<noteq> CHR ''.'' \<and> \<not> is_digit c) s2"
    define s3 where "s3 = dropWhile (\<lambda>c. c \<noteq> CHR ''.'' \<and> \<not> is_digit c) s2"
    obtain f sc where f: "frac_digits fp (0, 1) = (f, sc)" by (cases "frac_digits fp (0, 1)")
    note defs = ip_def s1_def fp_def s2_def u_def s3_def
    have "list_all is_digit fp" by (auto simp: fp_def list_all_iff dest: set_takeWhileD)
    from frac_digits_pos [OF this _ _ f] have fs: "0 \<le> f" "0 < sc" by simp_all
    have "dur_loop orig d s = (if int (dec_val ip) > 2 ^ 63 then Inl (dur_error orig)
        else if ip = [] \<and> fp = [] then Inl (dur_error orig)
        else if u = [] then Inl (Err OtherErr (''time: missing unit in duration '' @ go_quote orig))
        else case unit_of u of
          None \<Rightarrow> Inl (Err OtherErr (''time: unknown unit '' @ go_quote u @ '' in duration '' @ go_quote orig))
        | Some un \<Rightarrow>
            let v = int (dec_val ip) * un + f * un div sc in
            if int (dec_val ip) > 2 ^ 63 div un \<or> v > 2 ^ 63 \<or> d + v > 2 ^ 63 then Inl (dur_error orig)
            else dur_loop orig (d + v) s3)"
      using False f by (subst dur_loop.simps) (simp only: Let_def defs [symmetric] prod.case if_False de_Morgan_disj)
    with 1(2) obtain un where un: "unit_of u = Some un"
      and r: "dur_loop orig (d + (int (dec_val ip) * un + f * un div sc)) s3 = Inr e"
      and c: "\<not> int (dec_val ip) > 2 ^ 63" "\<not> (ip = [] \<and> fp = [])" "u \<noteq> []"
        "\<not> (int (dec_val ip) > 2 ^ 63 div un \<or> int (dec_val ip) * un + f * un div sc > 2 ^ 63 \<or>
          d + (int (dec_val ip) * un + f * un div sc) > 2 ^ 63)"
      by (auto simp: Let_def split: if_splits option.splits)
    have "d + (int (dec_val ip) * un + f * un div sc) \<le> e"
      by (rule 1(1) [OF _ _ ip_def s1_def refl _ _ u_def s3_def refl refl f [symmetric] c(1-3) un refl c(4) r])
        (use False in \<open>simp_all add: fp_def s2_def\<close>)
    moreover have "0 \<le> int (dec_val ip) * un" "0 \<le> f * un div sc"
      using unit_of_pos [OF un] fs by (simp_all add: pos_imp_zdiv_nonneg_iff)
    ultimately show ?thesis by linarith
  qed
qed

lemma ParseDuration_range: "ParseDuration x = Inr d \<Longrightarrow> d \<le> 2 ^ 63 - 1"
  using dur_loop_grows [of x 0] by (fastforce simp: ParseDuration_def Let_def split: if_splits sum.splits)

section \<open>The round trip\<close>

text \<open>
  Durations survive the trip through the page. What \<open>Duration.String\<close> prints of any
  \<open>int64\<close> number of nanoseconds, \<open>ParseDuration\<close> reads back as the same number.
\<close>

lemma duration_roundtrip:
  assumes "in_int64 d"
  shows "ParseDuration (duration_String d) = Inr d"
proof (cases "d = 0")
  case True
  have "itoa 0 = ''0''" by code_simp
  then have "dur_loop ''0s'' 0 ''0s'' = Inr 0"
    using dur_whole [OF unit_values(3) units(3), of "[]" 0 0 "''0s''"] by (simp add: dur_loop_Nil)
  with True show ?thesis by (simp add: ParseDuration_def duration_String_def)
next
  case False
  then have b: "0 < \<bar>d\<bar>" "\<bar>d\<bar> \<le> 2 ^ 63" using assms by (auto simp: in_int64_def)
  note t = dur_loop_text [OF b] dur_text_start [OF b]
  from False assms t show ?thesis
    by (cases "d < 0") (auto simp: ParseDuration_def duration_String_text in_int64_def Let_def)
qed

end
