(* ===== verification/SettingsForm.thy ===== *)
theory SettingsForm
  imports ServerSafety Durations
begin

text \<open>
  The settings form end to end: what the administrator's page is sent can be sent back unchanged,
  and a change that is answered 200 is stored, in force, and what the answer shows.
\<close>

section \<open>The form is valid JSON\<close>

lemma utf8_ascii_append: "list_all is_ascii s \<Longrightarrow> utf8_valid (s @ t) = utf8_valid t"
  by (induction s) (simp_all add: utf8_valid.simps [of "_ # _"] utf8_len_ascii)

lemma ascii_itoa: "list_all is_ascii (itoa i)"
  by (auto simp: list_all_iff is_ascii_def is_digit_def dest!: itoa_bytes)

lemma ascii_frac: "list_all is_ascii (show_frac k f)"
proof -
  have "list_all is_ascii (pad k f)"
    using ascii_itoa [of f] by (auto simp: pad_def Let_def list_all_iff is_ascii_def)
  moreover have "set (trim_right A s) \<subseteq> set s" for A and s :: string
    unfolding trim_right_def using set_dropWhileD by fastforce
  ultimately show ?thesis
    by (auto simp: show_frac_def Let_def list_all_iff is_ascii_def)
qed

text \<open>Text that can stand in front of any other without changing whether that is valid.\<close>

definition utf8_closed :: "string \<Rightarrow> bool" where
  "utf8_closed s \<longleftrightarrow> (\<forall>x. utf8_valid (s @ x) = utf8_valid x)"

lemma closed_ascii: "list_all is_ascii s \<Longrightarrow> utf8_closed s"
  by (simp add: utf8_closed_def utf8_ascii_append)

lemma closed_append: "utf8_closed s \<Longrightarrow> utf8_closed t \<Longrightarrow> utf8_closed (s @ t)"
  by (simp add: utf8_closed_def)

lemma closed_if: "utf8_closed s \<Longrightarrow> utf8_closed t \<Longrightarrow> utf8_closed (if b then s else t)"
  by simp

lemma closed_pieces:
  "utf8_closed []" "utf8_closed ''-''" "utf8_closed ''h''" "utf8_closed ''m''" "utf8_closed ''s''"
  "utf8_closed ''ms''" "utf8_closed ''ns''" "utf8_closed ''0s''" "utf8_closed (itoa i)" "utf8_closed (show_frac k f)"
  by (rule closed_ascii, simp add: is_ascii_def ascii_itoa ascii_frac)+

lemma closed_micro: "utf8_closed micro"
proof -
  have "utf8_len (micro @ x) = Some 2" for x
    by (cases x) (simp_all add: micro_def between_def)
  then show ?thesis
    using closed_pieces(5) by (simp add: utf8_closed_def utf8_valid.simps [of "micro @ _"]) (simp add: micro_def)
qed

lemma utf8_duration: "utf8_valid (duration_String d)"
proof -
  have "utf8_closed (duration_String d)"
    unfolding duration_String_def Let_def by (intro closed_if closed_append closed_pieces closed_micro)
  then have "utf8_valid (duration_String d @ []) = utf8_valid []" by (simp only: utf8_closed_def)
  then show ?thesis by (simp add: utf8_valid.simps)
qed

section \<open>The form reads back\<close>

text \<open>A row the form can show: positive durations, positive caps.\<close>

definition proper :: "SettingsRow \<Rightarrow> bool" where
  "proper v \<longleftrightarrow> (\<forall>d \<in> {sg_DefaultM3URefresh v, sg_DefaultXMLTVRefresh v, sg_GuideWindowCap v,
      sg_SessionIdleTimeout v, sg_PerUserStreamCap v, sg_PerChannelDefaultCap v}. 0 < d \<and> d < 2 ^ 63)"

definition settings_fields :: "adminSettingsDTO \<Rightarrow> (string \<times> json) list" where
  "settings_fields d =
     [(''default_m3u_refresh'', JStr (ad_DefaultM3URefresh d)), (''default_xmltv_refresh'', JStr (ad_DefaultXMLTVRefresh d)),
      (''guide_window_cap'', JStr (ad_GuideWindowCap d)), (''per_user_stream_cap'', JNum (itoa (ad_PerUserStreamCap d))),
      (''per_channel_default_cap'', JNum (itoa (ad_PerChannelDefaultCap d))),
      (''session_idle_timeout'', JStr (ad_SessionIdleTimeout d))]"

lemma settings_json: "adminSettingsDTO_json d = Inr (JObj (settings_fields d))"
  by (simp add: adminSettingsDTO_json_def settings_fields_def json_field_defs)

lemma settings_lookup:
  "jfields ''default_m3u_refresh'' (settings_fields d) = [JStr (ad_DefaultM3URefresh d)]"
  "jfields ''default_xmltv_refresh'' (settings_fields d) = [JStr (ad_DefaultXMLTVRefresh d)]"
  "jfields ''guide_window_cap'' (settings_fields d) = [JStr (ad_GuideWindowCap d)]"
  "jfields ''per_user_stream_cap'' (settings_fields d) = [JNum (itoa (ad_PerUserStreamCap d))]"
  "jfields ''per_channel_default_cap'' (settings_fields d) = [JNum (itoa (ad_PerChannelDefaultCap d))]"
  "jfields ''session_idle_timeout'' (settings_fields d) = [JStr (ad_SessionIdleTimeout d)]"
proof -
  have f: "jfields n ((k, v) # kvs) = (if fold_name k = fold_name n then v # jfields n kvs else jfields n kvs)" "jfields n [] = []"
    for n k v kvs by (simp_all add: jfields_def)
  have n: "fold_name ''default_m3u_refresh'' = ''default_m3u_refresh''" "fold_name ''default_xmltv_refresh'' = ''default_xmltv_refresh''"
    "fold_name ''guide_window_cap'' = ''guide_window_cap''" "fold_name ''per_user_stream_cap'' = ''per_user_stream_cap''"
    "fold_name ''per_channel_default_cap'' = ''per_channel_default_cap''" "fold_name ''session_idle_timeout'' = ''session_idle_timeout''"
    by code_simp+
  show "jfields ''default_m3u_refresh'' (settings_fields d) = [JStr (ad_DefaultM3URefresh d)]"
    "jfields ''default_xmltv_refresh'' (settings_fields d) = [JStr (ad_DefaultXMLTVRefresh d)]"
    "jfields ''guide_window_cap'' (settings_fields d) = [JStr (ad_GuideWindowCap d)]"
    "jfields ''per_user_stream_cap'' (settings_fields d) = [JNum (itoa (ad_PerUserStreamCap d))]"
    "jfields ''per_channel_default_cap'' (settings_fields d) = [JNum (itoa (ad_PerChannelDefaultCap d))]"
    "jfields ''session_idle_timeout'' (settings_fields d) = [JStr (ad_SessionIdleTimeout d)]"
    by (simp_all add: settings_fields_def f n del: fold_name.simps)
qed

lemma decode_settings_body:
  assumes "json_wf (JObj (settings_fields d))" "in_int64 (ad_PerUserStreamCap d)" "in_int64 (ad_PerChannelDefaultCap d)"
  shows "decode_settings (rs_Body (writeJSON st (adminSettingsDTO_json d))) = Some d"
proof -
  let ?e = "json_enc (JObj (settings_fields d))"
  have "json_value (2 * length (?e @ [LF]) + 1) (?e @ [LF]) = Some (JObj (settings_fields d), [LF])"
    by (rule json_object_rest [OF assms(1)]) (simp del: json_enc.simps)
  then have "decode_body (?e @ [LF]) = Some (JObj (settings_fields d))"
    by (simp add: decode_body_def del: json_enc.simps)
  then show ?thesis
    using assms(2,3)
    by (simp add: writeJSON_def settings_json decode_settings_def decode_struct_def struct_of_def get_str_def get_int_def
        settings_lookup set_str_def set_int_def atoi_itoa del: json_enc.simps)
qed

lemma form_reads_back:
  assumes "proper v"
  shows "map_option check_settings
    (decode_settings (rs_Body (writeJSON 200 (adminSettingsDTO_json (toAdminSettingsDTO v))))) = Some (Inr v)"
proof -
  have w: "json_wf (JObj (settings_fields (toAdminSettingsDTO v)))"
    by (auto simp: settings_fields_def toAdminSettingsDTO_def utf8_duration utf8_valid_ascii is_ascii_def)
  have ne: "duration_String d \<noteq> []" if "0 < d" "d < 2 ^ 63" for d
    using that dur_text_start(1) [of d] by (simp add: duration_String_text)
  have p: "parseSettingsDuration f (duration_String d) = Inr d" if "0 < d" "d < 2 ^ 63" for f d
    using that duration_roundtrip [of d] ne [of d] by (simp add: parseSettingsDuration_def in_int64_def)
  have i: "in_int64 d" if "0 < d" "d < 2 ^ 63" for d :: int using that by (simp add: in_int64_def)
  from assms have "decode_settings (rs_Body (writeJSON 200 (adminSettingsDTO_json (toAdminSettingsDTO v)))) =
      Some (toAdminSettingsDTO v)"
    by (intro decode_settings_body w) (auto simp: toAdminSettingsDTO_def proper_def intro: i)
  with assms p show ?thesis
    by (simp add: check_settings_def toAdminSettingsDTO_def proper_def)
qed

text \<open>
  Property C36: the settings form reads back. The body that GET /admin/settings answers with for a
  proper row, sent back by PUT, decodes and passes every check, and gives the very row: the text
  of its durations, their parsing and the JSON around them lose nothing.
\<close>

theorem settings_form_roundtrip:
  assumes "proper v"
  shows "map_option check_settings
    (decode_settings (rs_Body (writeJSON 200 (adminSettingsDTO_json (toAdminSettingsDTO v))))) = Some (Inr v)"
  using assms by (rule form_reads_back)

definition demo_settings :: SettingsRow where
  "demo_settings = \<lparr>sg_DefaultM3URefresh = 6 * hour, sg_DefaultXMLTVRefresh = 90 * minute, sg_GuideWindowCap = 24 * hour,
     sg_PerUserStreamCap = 3, sg_PerChannelDefaultCap = 10, sg_SessionIdleTimeout = 1500000\<rparr>"

theorem settings_form_roundtrip_witness:
  "map_option check_settings
    (decode_settings (rs_Body (writeJSON 200 (adminSettingsDTO_json (toAdminSettingsDTO demo_settings))))) = Some (Inr demo_settings)"
  by (rule settings_form_roundtrip) (simp add: proper_def demo_settings_def hour_def minute_def)

section \<open>A change takes effect\<close>

text \<open>The columns hold whole microseconds.\<close>

definition micros :: "duration \<Rightarrow> duration" where
  "micros d = d div 1000 * 1000"

definition stored_as :: "SettingsRow \<Rightarrow> SettingsRow" where
  "stored_as v = v\<lparr>sg_DefaultM3URefresh := micros (sg_DefaultM3URefresh v),
     sg_DefaultXMLTVRefresh := micros (sg_DefaultXMLTVRefresh v), sg_GuideWindowCap := micros (sg_GuideWindowCap v),
     sg_SessionIdleTimeout := micros (sg_SessionIdleTimeout v)\<rparr>"

lemma stored_micros: "0 < d \<Longrightarrow> in_int64 d \<Longrightarrow> intervalToDuration (durationToInterval d) = micros d"
  by (simp add: interval_roundtrip micros_def go_quot_def)

lemma parsed_positive:
  assumes "parseSettingsDuration f x = Inr d"
  shows "0 < d \<and> in_int64 d"
proof -
  from assms have p: "ParseDuration x = Inr d" "0 < d" by (auto simp: parseSettingsDuration_def split: if_splits sum.splits)
  from ParseDuration_range [OF p(1)] have "d \<le> 2 ^ 63 - 1" .
  with p show ?thesis by (simp add: in_int64_def)
qed

lemma checked_stored: "check_settings q = Inr v \<Longrightarrow> scan_settings (settings_to_row v) = stored_as v"
  by (auto simp: check_settings_def scan_settings_def settings_to_row_def stored_as_def stored_micros
      dest!: parsed_positive split: sum.splits if_splits)

lemma GetSettings_Inr:
  "GetSettings ctx w = (Inr v, w') \<Longrightarrow> map_option scan_settings (settings (wdb w)) = Some v \<and> wdb w' = wdb w"
proof -
  assume g: "GetSettings ctx w = (Inr v, w')"
  then have "db_call ctx (sql_row (\<lambda>now s. map_option scan_settings (settings s))) w = (Inr v, w')"
    unfolding GetSettings_def by (metis wrap_err_Inr)
  then show ?thesis
    by (auto simp: db_call_def sql_row_def Let_def split: if_splits option.splits prod.splits list.splits)
qed

text \<open>What a settings row means to the parts that read it.\<close>

definition in_force :: "SettingsRow \<Rightarrow> server \<Rightarrow> bool" where
  "in_force v s \<longleftrightarrow>
     map_option scan_settings (settings (wdb (sv_world s))) = Some v \<and> sp_values (sv_snap s) = values_of v"

lemma UpdateSettings_Inr:
  assumes "UpdateSettings ctx v w = (Inr u, w')" "settings (wdb w) \<noteq> None"
  shows "settings (wdb w') = Some (settings_to_row v)"
proof -
  from assms(1) have "db_call ctx (update_settings v) w = (Inr u, w')"
    unfolding UpdateSettings_def by (metis wrap_err_Inr)
  from db_call_Inr_stmt [OF this] obtain now where "update_settings v now (wdb w) = (Inr u, wdb w')" by blast
  with assms(2) show ?thesis by (auto simp: update_settings_def dest: arg_cong [where f = settings] split: if_splits)
qed

lemma reload_Inr:
  assumes "reload_snapshot c ctx s = (Inr u, t)" "sc_Snapshot c" "sp_store (sv_snap s)" "settings (wdb (sv_world s)) = Some row"
  shows "in_force (scan_settings row) t" "settings (wdb (sv_world t)) = Some row"
proof -
  obtain x w where g: "GetSettings ctx (sv_world s) = (x, w)" by (rule prod.exhaust)
  with assms obtain v where x: "x = Inr v" by (cases x) (auto simp: reload_snapshot_def Reload_def)
  note r = GetSettings_Inr [OF g [unfolded x]]
  have t: "t = s\<lparr>sv_snap := Apply (values_of v) (sv_snap s), sv_proxy := (sv_proxy s)\<lparr>px_world := w\<rparr>\<rparr>"
    using assms(1-3) g x by (auto simp: reload_snapshot_def Reload_def)
  with r assms(4) show "in_force (scan_settings row) t" "settings (wdb (sv_world t)) = Some row"
    by (simp_all add: in_force_def sv_world_def Apply_def)
qed

lemma error_status [simp]:
  "rs_Status (writeErrorMsg n m) = n" "rs_Status (failed e) = 500" "rs_Status (writeJSON n v) = n"
  "rs_Status invalid_body = 400"
  by (simp_all add: writeErrorMsg_def failed_def writeError_def writeJSON_def invalid_body_def)

text \<open>
  Property C8: a change of the settings takes effect. When PUT /admin/settings is answered 200, the
  body was a valid form; the row the form describes, its durations cut to whole microseconds, is
  the stored row, is what the caps, the guide window and the reaper now read, and is what the
  answer shows.
\<close>

theorem settings_take_effect:
  assumes "adminUpdateSettings c r s = (resp, t)" "rs_Status resp = 200" "sc_Snapshot c" "sp_store (sv_snap s)"
    "settings (wdb (sv_world s)) \<noteq> None"
  shows "\<exists>q v. decode_settings (rq_Body r) = Some q \<and> check_settings q = Inr v \<and> in_force (stored_as v) t \<and>
    resp = writeJSON 200 (adminSettingsDTO_json (toAdminSettingsDTO (stored_as v)))"
proof -
  from assms(1,2) obtain q where q: "decode_settings (rq_Body r) = Some q"
    by (cases "decode_settings (rq_Body r)") (auto simp: adminUpdateSettings_def)
  with assms(1,2) obtain v where v: "check_settings q = Inr v"
    by (cases "check_settings q") (auto simp: adminUpdateSettings_def)
  obtain x s1 where u: "on_store (UpdateSettings (rq_ctx r) v) s = (x, s1)" by (rule prod.exhaust)
  with q v assms(1,2) obtain y where x: "x = Inr y" by (cases x) (auto simp: adminUpdateSettings_def)
  obtain z s2 where l: "reload_snapshot c (rq_ctx r) s1 = (z, s2)" by (rule prod.exhaust)
  with q v u x assms(1,2) obtain a where z: "z = Inr a" by (cases z) (auto simp: adminUpdateSettings_def)
  have t: "adminGetSettings r s2 = (resp, t)" using q v u x l z assms(1) by (simp add: adminUpdateSettings_def)
  have "UpdateSettings (rq_ctx r) v (sv_world s) = (Inr y, sv_world s1)"
    using sv_on_store [of "UpdateSettings (rq_ctx r) v" s] u x by (simp add: prod_eq_iff)
  then have row: "settings (wdb (sv_world s1)) = Some (settings_to_row v)"
    using assms(5) by (rule UpdateSettings_Inr)
  have snap: "sv_snap s1 = sv_snap s"
    using u by (auto simp: on_store_def on_proxy_def split: prod.splits)
  note s2 = reload_Inr [OF l [unfolded z] assms(3) _ row, unfolded snap, OF assms(4), unfolded checked_stored [OF v]]
  obtain b where g: "on_store (GetSettings (rq_ctx r)) s2 = (b, t)" "resp = (case b of Inl e \<Rightarrow> failed e
      | Inr row \<Rightarrow> writeJSON 200 (adminSettingsDTO_json (toAdminSettingsDTO row)))"
    using t by (auto simp: adminGetSettings_def answer_def split: prod.splits sum.splits)
  with assms(2) obtain w where b: "b = Inr w" by (cases b) auto
  have "GetSettings (rq_ctx r) (sv_world s2) = (Inr w, sv_world t)"
    using sv_on_store [of "GetSettings (rq_ctx r)" s2] g b by (simp add: prod_eq_iff)
  from GetSettings_Inr [OF this] have w: "w = stored_as v" "wdb (sv_world t) = wdb (sv_world s2)"
    using s2(2) checked_stored [OF v] by simp_all
  have "sv_snap t = sv_snap s2"
    using g by (auto simp: on_store_def on_proxy_def split: prod.splits)
  with s2(1) w have "in_force (stored_as v) t" by (simp add: in_force_def)
  with q v g b w show ?thesis by auto
qed

text \<open>The form of the row above, put on a server whose settings were others.\<close>

definition settings_server :: server where
  "settings_server = \<lparr>sv_proxy = initGuards demo_limits
       (demo_world\<lparr>wdb := demo_db\<lparr>settings := Some (settings_to_row (demo_settings\<lparr>sg_PerUserStreamCap := 1\<rparr>))\<rparr>\<rparr>),
     sv_snap = \<lparr>sp_store = True, sp_values = zero_values\<rparr>, sv_guide = None, sv_audit = [], sv_jobs = []\<rparr>"

definition settings_request :: request where
  "settings_request = (demo_request [] [])\<lparr>rq_Body :=
     rs_Body (writeJSON 200 (adminSettingsDTO_json (toAdminSettingsDTO demo_settings)))\<rparr>"

lemma settings_answered:
  "rs_Status (fst (adminUpdateSettings demo_server_conf settings_request settings_server)) = 200"
proof -
  have "proper demo_settings" by (simp add: proper_def demo_settings_def hour_def minute_def)
  from form_reads_back [OF this] obtain q where q: "decode_settings (rq_Body settings_request) = Some q"
    "check_settings q = Inr demo_settings"
    by (auto simp: settings_request_def)
  have ctx: "rq_ctx settings_request = live" by (simp add: settings_request_def demo_request_def)
  have caps: "in_int32 (sg_PerUserStreamCap demo_settings)" "in_int32 (sg_PerChannelDefaultCap demo_settings)"
    by (simp_all add: demo_settings_def in_int32_def)
  show ?thesis
    by (simp add: adminUpdateSettings_def q ctx caps settings_server_def on_store_def on_proxy_def on_world_def
        initGuards_def demo_world_def demo_db_def UpdateSettings_def update_settings_def GetSettings_def db_call_def
        sql_row_def reload_snapshot_def demo_server_conf_def Reload_def sv_world_def adminGetSettings_def answer_def Let_def)
qed

theorem settings_take_effect_witness:
  "\<exists>q v. decode_settings (rq_Body settings_request) = Some q \<and> check_settings q = Inr v \<and>
    in_force (stored_as v) (snd (adminUpdateSettings demo_server_conf settings_request settings_server)) \<and>
    fst (adminUpdateSettings demo_server_conf settings_request settings_server) =
      writeJSON 200 (adminSettingsDTO_json (toAdminSettingsDTO (stored_as v)))"
  by (rule settings_take_effect [OF prod.collapse [symmetric] settings_answered])
    (simp_all add: demo_server_conf_def settings_server_def sv_world_def initGuards_def)

end
