(* ===== verification/FavouriteOrder.thy ===== *)
theory FavouriteOrder
  imports ServerSafety "HOL-Library.Multiset"
begin

text \<open>
  What reordering the favourites does: the order the user asked for is the order in which the
  favourites are listed from then on.
\<close>

section \<open>Positions\<close>

lemma pos_in_nth: "distinct ids \<Longrightarrow> i < length ids \<Longrightarrow> pos_in (ids ! i) ids = Some i"
proof (induction ids arbitrary: i)
  case (Cons c ids)
  then show ?case by (cases i) auto
qed simp

lemma sorted_first:
  assumes "\<And>i j. i < j \<Longrightarrow> j < length ys \<Longrightarrow> p (ys ! i) < (p (ys ! j) :: int)"
  shows "sorted (map (\<lambda>f. (p f, q f)) ys)"
  unfolding sorted_iff_nth_mono_less by (auto simp: assms less_eq_prod_def)

text \<open>The rows of a user once their positions are those of \<open>ids\<close>.\<close>

definition place :: "string list \<Rightarrow> favorite_row \<Rightarrow> favorite_row" where
  "place ids f = f\<lparr>fv_position := int (the (pos_in (fv_channel_id f) ids))\<rparr>"

lemma place_simps [simp]: "fv_channel_id (place ids f) = fv_channel_id f" "fv_user_id (place ids f) = fv_user_id f"
  by (simp_all add: place_def)

lemma placed_order:
  assumes "distinct ids" "distinct (map fv_channel_id fs)" "set ids = fv_channel_id ` set fs"
  shows "map (\<lambda>f. (fv_channel_id f, fv_position f)) (sort_key (\<lambda>f. (fv_position f, q f)) (map (place ids) fs)) =
    map (\<lambda>i. (ids ! i, int i)) [0..<length ids]"
proof -
  define row where "row c = (THE f. f \<in> set fs \<and> fv_channel_id f = c)" for c
  have row: "row c \<in> set fs \<and> fv_channel_id (row c) = c" if "c \<in> set ids" for c
  proof -
    from that assms(3) obtain f where "f \<in> set fs" "fv_channel_id f = c" by auto
    moreover have "inj_on fv_channel_id (set fs)" using assms(2) by (simp add: distinct_map)
    ultimately have "\<exists>!f. f \<in> set fs \<and> fv_channel_id f = c" by (auto dest: inj_onD)
    then show ?thesis unfolding row_def by (rule theI')
  qed
  let ?ys = "map (place ids \<circ> row) ids" and ?k = "\<lambda>f. (fv_position f, q f)"
  have pos: "fv_position (?ys ! i) = int i" if "i < length ids" for i
    using that row [of "ids ! i"] by (simp add: place_def pos_in_nth assms(1))
  have chan: "map fv_channel_id ?ys = ids"
    by (rule nth_equalityI) (use row in auto)
  have "set ?ys = place ids ` set fs"
  proof -
    have "row (fv_channel_id f) = f" if "f \<in> set fs" for f
      using row [of "fv_channel_id f"] that assms(2,3) by (auto simp: distinct_map dest: inj_onD)
    with row assms(3) show ?thesis by (auto simp: image_iff)
  qed
  moreover have dy: "distinct ?ys" using chan assms(1) by (metis distinct_map)
  moreover have "map fv_channel_id (map (place ids) fs) = map fv_channel_id fs" by simp
  with assms(2) have dx: "distinct (map (place ids) fs)" by (metis distinct_map)
  ultimately have m: "mset (map (place ids) fs) = mset ?ys"
    using set_eq_iff_mset_eq_distinct [OF dx dy] by simp
  have "sorted (map ?k ?ys)"
    by (rule sorted_first) (use pos in simp)
  moreover have "inj_on ?k (set (map (place ids) fs))"
  proof (rule inj_onI)
    fix x y assume "x \<in> set (map (place ids) fs)" "y \<in> set (map (place ids) fs)" "?k x = ?k y"
    moreover have "set (map (place ids) fs) = set ?ys" using \<open>set ?ys = _\<close> by simp
    ultimately obtain i j where "i < length ids" "x = ?ys ! i" "j < length ids" "y = ?ys ! j" "fv_position x = fv_position y"
      by (metis fst_conv in_set_conv_nth length_map)
    with pos show "x = y" by simp
  qed
  ultimately have "sort_key ?k (map (place ids) fs) = ?ys"
    using m sort_key_inj_key_eq by blast
  moreover have "map (\<lambda>f. (fv_channel_id f, fv_position f)) ?ys = map (\<lambda>i. (ids ! i, int i)) [0..<length ids]"
    by (rule nth_equalityI) (use pos row in auto)
  ultimately show ?thesis by simp
qed

section \<open>The request\<close>

abbreviation favourites_of :: "string \<Rightarrow> db \<Rightarrow> favorite_row list" where
  "favourites_of uid s \<equiv> filter (\<lambda>f. fv_user_id f = uid) (user_favorites s)"

lemma favourites_distinct: "db_inv s \<Longrightarrow> distinct (map fv_channel_id (favourites_of uid s))"
proof -
  assume "db_inv s"
  then have "distinct (map favorite_pk (user_favorites s))" by (simp add: db_inv_def child_ok_def)
  then have "distinct (map favorite_pk (favourites_of uid s))" by (rule distinct_map_filter)
  then show ?thesis by (auto simp: distinct_map intro!: inj_onI dest: inj_onD)
qed

lemma reordered_rows:
  assumes "reorder_favorites uid ids now s = (Inr u, s')" "set ids = fv_channel_id ` set (favourites_of uid s)" "distinct ids"
  shows "favourites_of uid s' = map (place ids) (favourites_of uid s)" "pg_coll s' = pg_coll s"
proof -
  have "pos_in (fv_channel_id f) ids \<noteq> None" if "f \<in> set (user_favorites s)" "fv_user_id f = uid" for f
  proof -
    from that assms(2) have "fv_channel_id f \<in> set ids" by auto
    then obtain i where "i < length ids" "ids ! i = fv_channel_id f" by (auto simp: in_set_conv_nth)
    with pos_in_nth [OF assms(3)] show ?thesis by (metis option.distinct(1))
  qed
  then have "favourites_of uid s' = map (place ids) (favourites_of uid s)"
    using assms(1) by (auto simp: reorder_favorites_def sql_update_def place_def filter_map comp_def
        intro!: arg_cong2 [where f = map] ext filter_cong map_cong)
  then show "favourites_of uid s' = map (place ids) (favourites_of uid s)" .
  show "pg_coll s' = pg_coll s" using assms(1) by (auto simp: reorder_favorites_def)
qed

text \<open>A request answered 204 went through to the statement.\<close>

lemma reorder_done:
  assumes "reorderFavorites r s = (resp, t)" "rs_Status resp = 204" "reorderRequest (rq_Body r) = Some ids" "ids \<noteq> []"
  shows "\<exists>now. reorder_favorites (rq_UserID r) ids now (wdb (sv_world s)) = (Inr (), wdb (sv_world t))"
proof -
  obtain x s1 where l: "on_store (ListFavorites (rq_ctx r) (rq_UserID r)) s = (x, s1)" by (rule prod.exhaust)
  have bad: "rs_Status (failed e) \<noteq> 204" "rs_Status (writeErrorMsg 400 m) \<noteq> 204" for e m
    by (simp_all add: failed_def writeError_def writeErrorMsg_def writeJSON_def)
  have "wdb (sv_world s1) = wdb (sv_world s)"
    using sv_on_store(1) [of "ListFavorites (rq_ctx r) (rq_UserID r)" s] l by (simp add: ListFavorites_def snd_wrap frame)
  moreover obtain y where "on_store (ReorderFavorites (rq_ctx r) (rq_UserID r) ids) s1 = (Inr y, t)"
    using assms l bad by (cases x) (auto simp: reorderFavorites_def answer_def split: option.splits prod.splits sum.splits)
  then have "ReorderFavorites (rq_ctx r) (rq_UserID r) ids (sv_world s1) = (Inr y, sv_world t)"
    using sv_on_store [of "ReorderFavorites (rq_ctx r) (rq_UserID r) ids" s1] by (simp add: prod_eq_iff)
  then have "db_call (rq_ctx r) (reorder_favorites (rq_UserID r) ids) (sv_world s1) = (Inr y, sv_world t)"
    unfolding ReorderFavorites_def using assms(4) by (simp add: wrap_err_Inr)
  from db_call_Inr_stmt [OF this] obtain now
    where "reorder_favorites (rq_UserID r) ids now (wdb (sv_world s1)) = (Inr y, wdb (sv_world t))" by blast
  ultimately show ?thesis by auto
qed

text \<open>
  Property C37: reordering takes effect. When the user sends his favourites in a new order and the
  answer is 204, the next listing shows exactly that order, at positions from zero, whatever the
  positions were before.
\<close>

theorem reorder_takes_effect:
  assumes "reorderFavorites r s = (resp, t)" "rs_Status resp = 204" "reorderRequest (rq_Body r) = Some ids" "ids \<noteq> []"
    "db_inv (wdb (sv_world s))" "distinct ids"
    "set ids = fv_channel_id ` set (favourites_of (rq_UserID r) (wdb (sv_world s)))"
    "rq_UserID r' = rq_UserID r" "rq_ctx r' = live" "script (sv_world t) = []"
  shows "fst (listFavorites r' t) = writeJSON 200 (listEnvelope (map favoriteDTO_json
    (map (\<lambda>i. \<lparr>fav_ChannelID = ids ! i, fav_Position = int i\<rparr>) [0..<length ids])) [])"
proof -
  let ?uid = "rq_UserID r"
  obtain now where "reorder_favorites ?uid ids now (wdb (sv_world s)) = (Inr (), wdb (sv_world t))"
    using reorder_done [OF assms(1-4)] by blast
  note rows = reordered_rows [OF this assms(7,6)]
  define k where "k f = (fv_created_at f, pg_coll (wdb (sv_world t)) (fv_channel_id f))" for f :: favorite_row
  have "map (\<lambda>f. (fv_channel_id f, fv_position f)) (sort_key (\<lambda>f. (fv_position f, k f)) (favourites_of ?uid (wdb (sv_world t)))) =
      map (\<lambda>i. (ids ! i, int i)) [0..<length ids]"
    unfolding rows(1) by (rule placed_order [OF assms(6) favourites_distinct [OF assms(5)] assms(7)])
  from arg_cong [OF this, of "map (\<lambda>(c, p). \<lparr>fav_ChannelID = c, fav_Position = p\<rparr>)"]
  have "fst (ListFavorites live ?uid (sv_world t)) = Inr (map (\<lambda>i. \<lparr>fav_ChannelID = ids ! i, fav_Position = int i\<rparr>) [0..<length ids])"
    by (simp add: ListFavorites_def db_call_quiet assms(10) sql_read_def k_def comp_def)
  then show ?thesis
    by (simp add: listFavorites_def fst_answer frame assms(8,9))
qed

definition order_server :: server where
  "order_server = \<lparr>sv_proxy = initGuards demo_limits (demo_world\<lparr>wdb := demo_db\<lparr>user_favorites :=
       [\<lparr>fv_user_id = ''u'', fv_channel_id = ''a'', fv_position = 0, fv_created_at = 0\<rparr>,
        \<lparr>fv_user_id = ''u'', fv_channel_id = ''b'', fv_position = 4, fv_created_at = 0\<rparr>]\<rparr>\<rparr>),
     sv_snap = FromValues zero_values, sv_guide = None, sv_audit = [], sv_jobs = []\<rparr>"

definition order_request :: request where
  "order_request = (demo_request [] [])\<lparr>rq_Body := json_enc (JObj [(''channel_ids'', JArr [JStr ''b'', JStr ''a''])])\<rparr>"

lemma order_decoded: "reorderRequest (rq_Body order_request) = Some [''b'', ''a'']"
  by code_simp

lemma order_world: "sv_world order_server = demo_world\<lparr>wdb := demo_db\<lparr>user_favorites :=
       [\<lparr>fv_user_id = ''u'', fv_channel_id = ''a'', fv_position = 0, fv_created_at = 0\<rparr>,
        \<lparr>fv_user_id = ''u'', fv_channel_id = ''b'', fv_position = 4, fv_created_at = 0\<rparr>]\<rparr>\<rparr>"
  by (simp add: order_server_def sv_world_def initGuards_def)

lemma order_done:
  "rs_Status (fst (reorderFavorites order_request order_server)) = 204"
  "script (sv_world (snd (reorderFavorites order_request order_server))) = []"
proof -
  have r: "rq_ctx order_request = live" "rq_UserID order_request = ''u''" by (simp_all add: order_request_def demo_request_def)
  show "rs_Status (fst (reorderFavorites order_request order_server)) = 204"
    "script (sv_world (snd (reorderFavorites order_request order_server))) = []"
    by (simp_all add: reorderFavorites_def order_decoded r order_server_def on_store_def on_proxy_def on_world_def
        initGuards_def demo_world_def ListFavorites_def ReorderFavorites_def db_call_def sql_read_def reorder_favorites_def
        demo_db_def noContent_def answer_def sv_world_def Let_def)
qed

theorem reorder_takes_effect_witness:
  "fst (listFavorites order_request (snd (reorderFavorites order_request order_server))) =
   writeJSON 200 (listEnvelope (map favoriteDTO_json
     [\<lparr>fav_ChannelID = ''b'', fav_Position = 0\<rparr>, \<lparr>fav_ChannelID = ''a'', fav_Position = 1\<rparr>]) [])"
proof -
  have inv: "db_inv (wdb (sv_world order_server))"
    by (simp add: order_world db_inv_def demo_db_def demo_row_def demo_source_def child_ok_def value_ok_def
        upstream_kinds_def in_int32_def)
  have "set [''b'', ''a''] = fv_channel_id ` set (favourites_of (rq_UserID order_request) (wdb (sv_world order_server)))"
    by (auto simp: order_world order_request_def demo_request_def)
  from reorder_takes_effect [OF prod.collapse [symmetric] order_done(1) order_decoded _ inv _ this refl _ order_done(2)]
  show ?thesis by (simp add: order_request_def demo_request_def upt_rec)
qed

end
