(* ===== verification/JsonColumns.thy ===== *)
theory JsonColumns
  imports Wire "HOL-Library.Multiset"
begin

text \<open>
  The \<open>jsonb\<close> columns: \<open>marshalHeaders\<close>, \<open>unmarshalHeaders\<close> (\<open>src/internal/store/sources.go\<close>),
  \<open>marshalAttrs\<close> and \<open>unmarshalAttrs\<close> (\<open>channels.go\<close>). The tables of \<open>Tables\<close> hold the string maps
  these columns encode; here it is shown that they do: what is read back from a column is the
  map that was written, however PostgreSQL prints the document. The text of decoding errors is
  left out.
\<close>

section \<open>Encoding and decoding\<close>

text \<open>A Go map that is \<open>nil\<close> is the empty list, which is written as the same two bytes.\<close>

definition marshal_map :: "string \<Rightarrow> smap \<Rightarrow> err + string" where
  "marshal_map msg m =
     (if m = [] then Inr ''{}''
      else (case jmap jstr m of Inl e \<Rightarrow> Inl (wrapf msg e) | Inr v \<Rightarrow> Inr (json_enc v)))"

definition unmarshal_map :: "string \<Rightarrow> string \<Rightarrow> err + smap" where
  "unmarshal_map msg b =
     (if b = [] then Inr []
      else (case Option.bind (json_Unmarshal b) (set_smap (Some [])) of
              None \<Rightarrow> Inl (wrapf msg (Err OtherErr []))
            | Some m \<Rightarrow> Inr m))"

definition marshalHeaders :: "smap \<Rightarrow> err + string" where
  "marshalHeaders = marshal_map ''marshal headers''"

definition unmarshalHeaders :: "string \<Rightarrow> err + smap" where
  "unmarshalHeaders = unmarshal_map ''unmarshal headers''"

definition marshalAttrs :: "smap \<Rightarrow> err + string" where
  "marshalAttrs = marshal_map ''marshal attrs''"

definition unmarshalAttrs :: "string \<Rightarrow> err + smap" where
  "unmarshalAttrs = unmarshal_map ''unmarshal attrs''"

section \<open>Round trip\<close>

abbreviation strs :: "smap \<Rightarrow> (string \<times> json) list" where
  "strs \<equiv> map (\<lambda>(k, v). (k, JStr v))"

lemma collect_Inr: "collect (map Inr xs) = Inr xs"
  by (induction xs) auto

lemma jmap_strs: "jmap jstr m = Inr (JObj (strs (sort_key fst m)))"
proof -
  have "map (\<lambda>(k, v). map_sum id (Pair k) v) (map (\<lambda>(k, v). (k, jstr v)) xs) = map Inr (strs xs)" for xs
    by (induction xs) (auto simp: jstr_def)
  then show ?thesis by (simp add: jmap_def jobj_def collect_Inr del: map_map)
qed

text \<open>The fields of an object are put into the map one after the other.\<close>

lemma set_smap_strs: "set_smap (Some []) (JObj (strs m)) = Some (foldl (\<lambda>m (k, v). AList.update k v m) [] m)"
proof -
  have "foldl (\<lambda>m (k, x). Option.bind m (\<lambda>m. map_option (\<lambda>s. AList.update k s m) (set_str (Some []) x)))
      (Some a) (strs m) = Some (foldl (\<lambda>m (k, v). AList.update k v m) a m)" for a
    by (induction m arbitrary: a) (auto simp: set_str_def)
  then show ?thesis by (simp add: set_smap_def)
qed

lemma map_of_updates:
  "distinct (map fst m) \<Longrightarrow> map_of (foldl (\<lambda>m (k, v). AList.update k v m) a m) = map_of a ++ map_of m"
proof (induction m arbitrary: a)
  case (Cons kv m)
  obtain k v where kv: "kv = (k, v)" by (cases kv)
  with Cons.prems have "map_of m k = None" by (simp add: map_of_eq_None_iff)
  with Cons kv show ?case by (auto simp: update_conv' map_add_def fun_eq_iff split: option.splits)
qed simp

lemma map_of_mset:
  assumes "mset m = mset m'" "distinct (map fst m)"
  shows "distinct (map fst m') \<and> map_of m' = map_of m"
proof -
  have "distinct (map fst m')"
    using assms by (metis mset_eq_imp_distinct_iff mset_map)
  moreover have "map_of m' = map_of m"
    using map_of_inject_set [OF calculation assms(2)] mset_eq_setD [OF assms(1)] by simp
  ultimately show ?thesis ..
qed

text \<open>
  A document PostgreSQL prints for what it was given: any that parses to the same members, in
  some order.
\<close>

definition same_document :: "string \<Rightarrow> string \<Rightarrow> bool" where
  "same_document b b' \<longleftrightarrow>
     (\<exists>ms ms'. json_Unmarshal b = Some (JObj ms) \<and> json_Unmarshal b' = Some (JObj ms') \<and> mset ms = mset ms')"

lemma strs_cases: "\<forall>kx \<in> set ms. \<exists>v. snd kx = JStr v \<Longrightarrow> \<exists>m. ms = strs m"
proof (induction ms)
  case (Cons kx ms)
  obtain k x where "kx = (k, x)" by (cases kx)
  moreover from this Cons.prems obtain v where "x = JStr v" by auto
  moreover from Cons obtain m where "ms = strs m" by auto
  ultimately have "kx # ms = strs ((k, v) # m)" by simp
  then show ?case by (rule exI)
qed simp

lemma mset_strs: "mset ms = mset (strs m) \<Longrightarrow> \<exists>m'. ms = strs m' \<and> mset m' = mset m"
proof -
  assume eq: "mset ms = mset (strs m)"
  have "\<exists>v. snd kx = JStr v" if "kx \<in> set ms" for kx
    using mset_eq_setD [OF eq] that by auto
  then obtain m' where m': "ms = strs m'" using strs_cases [of ms] by blast
  have "inj (\<lambda>(k :: string, v). (k, JStr v))" by (auto simp: inj_def)
  from multiset.inj_map [OF this] have "mset m' = mset m"
    by (rule injD) (use eq m' in simp)
  with m' show ?thesis by blast
qed

lemma map_roundtrip:
  assumes "distinct (map fst m)" "list_all (\<lambda>(k, v). utf8_valid k \<and> utf8_valid v) m"
    and "marshal_map msg m = Inr b" "same_document b b'"
  shows "\<exists>m'. unmarshal_map msg' b' = Inr m' \<and> map_of m' = map_of m"
proof -
  have "json_wf (JObj (strs (sort_key fst m)))"
    using assms(2) by (auto simp: list_all_iff)
  from json_roundtrip [OF this] assms(3) have "json_Unmarshal b = Some (JObj (strs (sort_key fst m)))"
    by (auto simp: marshal_map_def jmap_strs split: if_splits)
  with assms(4) obtain ms where b': "json_Unmarshal b' = Some (JObj ms)" "mset ms = mset (strs (sort_key fst m))"
    by (auto simp: same_document_def)
  from mset_strs [OF b'(2)] obtain m' where m': "ms = strs m'" "mset m' = mset m" by auto
  note m'' = map_of_mset [OF m'(2) [symmetric] assms(1)]
  have "b' \<noteq> []" using b'(1) by (auto simp: json_Unmarshal_def skip_ws_def split: prod.splits)
  with b'(1) m'(1) m'' map_of_updates [of m' "[]"] show ?thesis
    by (simp add: unmarshal_map_def set_smap_strs del: map_map)
qed

text \<open>What an administrator stores as headers, and a refresh as attributes, is what is read back.\<close>

lemma headers_roundtrip:
  assumes "distinct (map fst h)" "list_all (\<lambda>(k, v). utf8_valid k \<and> utf8_valid v) h"
    and "marshalHeaders h = Inr b" "same_document b b'"
  shows "\<exists>h'. unmarshalHeaders b' = Inr h' \<and> map_of h' = map_of h"
  using map_roundtrip [OF assms(1,2) assms(3) [unfolded marshalHeaders_def] assms(4)]
  by (simp add: unmarshalHeaders_def)

lemma attrs_roundtrip:
  assumes "distinct (map fst a)" "list_all (\<lambda>(k, v). utf8_valid k \<and> utf8_valid v) a"
    and "marshalAttrs a = Inr b" "same_document b b'"
  shows "\<exists>a'. unmarshalAttrs b' = Inr a' \<and> map_of a' = map_of a"
  using map_roundtrip [OF assms(1,2) assms(3) [unfolded marshalAttrs_def] assms(4)]
  by (simp add: unmarshalAttrs_def)

text \<open>Encoding a map of strings never fails.\<close>

lemma marshal_total: "\<exists>b. marshal_map msg m = Inr b"
  by (simp add: marshal_map_def jmap_strs)

end
