(* ===== verification/ConcurrentCaps.thy ===== *)
theory ConcurrentCaps
  imports StreamDelivery
begin

text \<open>
  The concurrency caps when requests overlap. \<open>CreateSession\<close> counts the active sessions and inserts
  the new one in separate statements, and nothing stops another request in between. Here a request
  is a program counter that moves from one statement to the next, the requests in flight move in
  any order, and everything else the plugin does goes on between their steps. Run alone, a
  request is exactly \<open>CreateSession\<close>; together, \<open>n\<close> requests in flight can push a user or a
  channel over its cap, but by no more than \<open>n - 1\<close> sessions, and that many are reached.
\<close>

section \<open>One request, step by step\<close>

datatype mint_pc =
    pcStart
  | pcLookup
  | pcUserCap Channel
  | pcChannelCap Channel
  | pcKind Channel
  | pcMint string
  | pcDone response

text \<open>
  Each step is a stretch of \<open>CreateSession\<close> up to and with its next statement. Probing the kind of
  the channel and the statements from the secret on are one step each: of theirs only the
  \<open>INSERT\<close> bears on the caps.
\<close>

fun mint_step :: "proxy_conf \<Rightarrow> request \<Rightarrow> mint_pc \<Rightarrow> proxy \<Rightarrow> mint_pc \<times> proxy" where
  "mint_step c r pcStart p =
     (if rq_UserID r = [] then (pcDone (proxy_writeJSONError 401 ''unauthenticated'' ''missing user''), p)
      else case allow_user (rq_UserID r) p of
        (False, p) \<Rightarrow> (pcDone (proxy_writeJSONError 429 ''rate_limited'' ''too many requests''), p)
      | (True, p) \<Rightarrow> (pcLookup, p))"
| "mint_step c r pcLookup p =
     (let cid = URLParam r ''id''; unknown = proxy_writeJSONError 404 ''channel_not_found'' ''unknown channel''
      in if cid = [] then (pcDone unknown, p)
      else case on_world (GetChannel (rq_ctx r) cid) p of
        (Inl e, p) \<Rightarrow>
          (pcDone (if is_not_found e then unknown
             else proxy_writeJSONError 500 ''internal_error'' ''channel lookup failed''), p)
      | (Inr ch, p) \<Rightarrow> (if EffectiveEnabled ch then pcUserCap ch else pcDone unknown, p))"
| "mint_step c r (pcUserCap ch) p =
     (case check_cap (PerUserStreamCap c) (CountActiveByUser (rq_ctx r) (rq_UserID r))
         ''user_cap_exceeded'' ''user stream cap '' p of
        (Some resp, p) \<Rightarrow> (pcDone resp, p)
      | (None, p) \<Rightarrow> (pcChannelCap ch, p))"
| "mint_step c r (pcChannelCap ch) p =
     (case check_cap (PerChannelDefaultCap c) (CountActiveByChannel (rq_ctx r) (URLParam r ''id''))
         ''channel_cap_exceeded'' ''channel stream cap '' p of
        (Some resp, p) \<Rightarrow> (pcDone resp, p)
      | (None, p) \<Rightarrow> (pcKind ch, p))"
| "mint_step c r (pcKind ch) p =
     (let (kind, p) = on_world (resolve_kind (rq_ctx r) (URLParam r ''id'') ch) p in (pcMint kind, p))"
| "mint_step c r (pcMint kind) p =
     (let (resp, p) = mint_session c r (URLParam r ''id'') kind p in (pcDone resp, p))"
| "mint_step c r (pcDone resp) p = (pcDone resp, p)"

text \<open>Undisturbed, the steps are the handler.\<close>

fun mint_steps :: "nat \<Rightarrow> proxy_conf \<Rightarrow> request \<Rightarrow> mint_pc \<Rightarrow> proxy \<Rightarrow> mint_pc \<times> proxy" where
  "mint_steps 0 c r pc p = (pc, p)"
| "mint_steps (Suc n) c r pc p = (let (pc', q) = mint_step c r pc p in mint_steps n c r pc' q)"

lemma mint_steps_done [simp]: "mint_steps n c r (pcDone resp) p = (pcDone resp, p)"
  by (induction n) simp_all

lemma mint_steps_alone:
  "mint_steps 6 c r pcStart p = (pcDone (fst (CreateSession c r p)), snd (CreateSession c r p))"
  by (simp add: numeral_eq_Suc CreateSession_def Let_def
      split: prod.split bool.split sum.split option.split)

section \<open>Many requests\<close>

text \<open>
  The state of the system: the proxy and the requests in flight, each at its program counter.
  A request may arrive while fewer than \<open>n\<close> are in flight, one of them may take its next step,
  one that is done leaves, and any other part of the plugin may run.
\<close>

type_synonym thread = "request \<times> mint_pc"

inductive mint_sys :: "proxy_conf \<Rightarrow> nat \<Rightarrow> proxy \<times> thread list \<Rightarrow> proxy \<times> thread list \<Rightarrow> bool" for c n where
  arrive: "length ts < n \<Longrightarrow> mint_sys c n (p, ts) (p, (r, pcStart) # ts)"
| move: "mint_step c r pc p = (pc', q) \<Longrightarrow> mint_sys c n (p, us @ (r, pc) # vs) (q, us @ (r, pc') # vs)"
| leave: "mint_sys c n (p, us @ (r, pcDone resp) # vs) (p, us @ vs)"
| other: "mint_free op \<Longrightarrow> \<forall>r. op \<noteq> sysCreate r \<Longrightarrow> mint_sys c n (p, ts) (sys_step c op p, ts)"

inductive mint_reach :: "proxy_conf \<Rightarrow> nat \<Rightarrow> proxy \<Rightarrow> proxy \<times> thread list \<Rightarrow> bool" for c n p0 where
  mint_start: "mint_reach c n p0 (p0, [])"
| mint_next: "mint_reach c n p0 y \<Longrightarrow> mint_sys c n y z \<Longrightarrow> mint_reach c n p0 z"

text \<open>
  The requests of a user that have passed the user's cap, and those for a channel that have
  passed the channel's, but have not inserted their row yet.
\<close>

fun past_user :: "mint_pc \<Rightarrow> bool" where
  "past_user (pcChannelCap ch) = True"
| "past_user pc = (case pc of pcKind ch \<Rightarrow> True | pcMint k \<Rightarrow> True | _ \<Rightarrow> False)"

fun past_channel :: "mint_pc \<Rightarrow> bool" where
  "past_channel (pcKind ch) = True"
| "past_channel (pcMint kind) = True"
| "past_channel pc = False"

definition user_claims :: "string \<Rightarrow> thread list \<Rightarrow> int" where
  "user_claims uid = sql_count (\<lambda>(r, pc). rq_UserID r = uid \<and> past_user pc)"

definition channel_claims :: "string \<Rightarrow> thread list \<Rightarrow> int" where
  "channel_claims cid = sql_count (\<lambda>(r, pc). URLParam r ''id'' = cid \<and> past_channel pc)"

text \<open>Sessions and claims together stay below the cap plus the number of requests in flight.\<close>

definition room_left :: "int \<Rightarrow> nat \<Rightarrow> int \<Rightarrow> int \<Rightarrow> bool" where
  "room_left capacity n k claims \<longleftrightarrow> 0 < capacity \<longrightarrow> k + claims < capacity + int n"

abbreviation user_load :: "string \<Rightarrow> proxy \<Rightarrow> int" where
  "user_load uid \<equiv> pload (\<lambda>u _. u = uid)"

abbreviation channel_load :: "string \<Rightarrow> proxy \<Rightarrow> int" where
  "channel_load cid \<equiv> pload (\<lambda>_ i. i = cid)"

definition caps_inv :: "proxy_conf \<Rightarrow> nat \<Rightarrow> proxy \<times> thread list \<Rightarrow> bool" where
  "caps_inv c n y \<longleftrightarrow> length (snd y) \<le> n \<and>
     (\<forall>u. room_left (PerUserStreamCap c) n (user_load u (fst y)) (user_claims u (snd y))) \<and>
     (\<forall>i. room_left (PerChannelDefaultCap c) n (channel_load i (fst y)) (channel_claims i (snd y)))"

lemma sql_count_append [simp]: "sql_count P (xs @ ys) = sql_count P xs + sql_count P ys"
  by (simp add: sql_count_def)

lemma sql_count_Cons: "sql_count P (x # xs) = (if P x then 1 else 0) + sql_count P xs"
  by (simp add: sql_count_def)

lemma sql_count_le: "sql_count P xs \<le> int (length xs)"
  by (simp add: sql_count_def)

text \<open>
  A step either adds no session and makes a claim only under the cap, or it is the one that turns
  the claims of its request into a session.
\<close>

lemma mint_step_cases:
  assumes "mint_step c r pc p = (pc', q)"
  shows "(\<forall>P. pload P q \<le> pload P p) \<and>
      (past_user pc' \<longrightarrow> past_user pc \<or> below (PerUserStreamCap c) (user_load (rq_UserID r) q)) \<and>
      (past_channel pc' \<longrightarrow> past_channel pc \<or> below (PerChannelDefaultCap c) (channel_load (URLParam r ''id'') q)) \<or>
    past_user pc \<and> past_channel pc \<and> \<not> past_user pc' \<and> \<not> past_channel pc' \<and>
      (\<forall>P. pload P q \<le> pload P p + (if P (rq_UserID r) (URLParam r ''id'') then 1 else 0))"
proof (cases pc)
  case pcStart
  obtain ok p1 where a: "allow_user (rq_UserID r) p = (ok, p1)" by (cases "allow_user (rq_UserID r) p")
  with assms pcStart allow_user_world [OF a] show ?thesis by (auto split: if_splits bool.splits)
next
  case pcLookup
  obtain g p1 where g: "on_world (GetChannel (rq_ctx r) (URLParam r ''id'')) p = (g, p1)"
    by (cases "on_world (GetChannel (rq_ctx r) (URLParam r ''id'')) p")
  with on_world_wdb [OF _ g] have "wdb (px_world p1) = wdb (px_world p)" by (simp add: frame)
  with assms pcLookup g show ?thesis by (auto simp: Let_def split: if_splits sum.splits)
next
  case (pcUserCap ch)
  let ?k = "check_cap (PerUserStreamCap c) (CountActiveByUser (rq_ctx r) (rq_UserID r))
    ''user_cap_exceeded'' ''user stream cap '' p"
  obtain u p1 where u: "?k = (u, p1)" by (cases ?k)
  with check_user [OF u] assms pcUserCap show ?thesis by (auto split: option.splits)
next
  case (pcChannelCap ch)
  let ?k = "check_cap (PerChannelDefaultCap c) (CountActiveByChannel (rq_ctx r) (URLParam r ''id''))
    ''channel_cap_exceeded'' ''channel stream cap '' p"
  obtain u p1 where u: "?k = (u, p1)" by (cases ?k)
  with check_channel [OF u] assms pcChannelCap show ?thesis by (auto split: option.splits)
next
  case (pcKind ch)
  obtain k p1 where k: "on_world (resolve_kind (rq_ctx r) (URLParam r ''id'') ch) p = (k, p1)"
    by (cases "on_world (resolve_kind (rq_ctx r) (URLParam r ''id'') ch) p")
  with on_world_falls [OF load_falls.R_resolve_kind k] assms pcKind show ?thesis by auto
next
  case (pcMint kind)
  obtain resp p1 where m: "mint_session c r (URLParam r ''id'') kind p = (resp, p1)"
    by (cases "mint_session c r (URLParam r ''id'') kind p")
  with mint_session_load [of _ c r "URLParam r ''id''" kind p] assms pcMint show ?thesis by auto
next
  case (pcDone resp)
  with assms show ?thesis by auto
qed

lemma room_left_mono: "room_left m n k cs \<Longrightarrow> k' + cs' \<le> k + cs \<Longrightarrow> room_left m n k' cs'"
  by (auto simp: room_left_def)

lemma room_left_new: "below m k \<Longrightarrow> cs \<le> int n \<Longrightarrow> room_left m n k cs"
  by (auto simp: room_left_def below_def)

text \<open>One cap, for the users and for the channels alike: \<open>past\<close> is the test that it has been passed.\<close>

lemma claims_step:
  fixes cs :: "thread list \<Rightarrow> int"
  assumes cs: "cs = sql_count (\<lambda>(r, pc). who r = x \<and> past pc)"
    and inv: "room_left m n k (cs (us @ (r, pc) # vs))"
    and len: "length (us @ (r, pc) # vs) \<le> n"
    and step: "k' \<le> k \<and> (past pc' \<longrightarrow> past pc \<or> (who r = x \<longrightarrow> below m k')) \<or>
      past pc \<and> \<not> past pc' \<and> k' \<le> k + (if who r = x then 1 else 0)"
  shows "room_left m n k' (cs (us @ (r, pc') # vs))"
proof -
  have "cs (us @ (r, pc') # vs) \<le> int (length (us @ (r, pc') # vs))"
    unfolding cs by (rule sql_count_le)
  with len have n: "cs (us @ (r, pc') # vs) \<le> int n" by simp
  have d: "cs (us @ (r, pc') # vs) = cs (us @ (r, pc) # vs) +
      (if who r = x \<and> past pc' then 1 else 0) - (if who r = x \<and> past pc then 1 else 0)"
    unfolding cs by (simp add: sql_count_Cons)
  consider "who r = x" "\<not> past pc" "past pc'" "below m k'"
    | "k' + cs (us @ (r, pc') # vs) \<le> k + cs (us @ (r, pc) # vs)"
    unfolding d using step by (cases "who r = x"; cases "past pc"; cases "past pc'") auto
  then show ?thesis
  proof cases
    case 1
    show ?thesis by (rule room_left_new [OF 1(4) n])
  next
    case 2
    show ?thesis by (rule room_left_mono [OF inv 2])
  qed
qed

lemma caps_inv_step:
  assumes "mint_sys c n y z" "caps_inv c n y"
  shows "caps_inv c n z"
  using assms
proof (induction rule: mint_sys.induct)
  case (arrive ts p r)
  then show ?case by (simp add: caps_inv_def user_claims_def channel_claims_def sql_count_Cons)
next
  case (move r pc p pc' q us vs)
  note mv = mint_step_cases [OF move.hyps]
  have len: "length (us @ (r, pc) # vs) \<le> n" using move.prems by (simp add: caps_inv_def)
  have "room_left (PerUserStreamCap c) n (user_load u q) (user_claims u (us @ (r, pc') # vs))" for u
  proof (rule claims_step [OF user_claims_def _ len])
    show "room_left (PerUserStreamCap c) n (user_load u p) (user_claims u (us @ (r, pc) # vs))"
      using move.prems by (simp add: caps_inv_def)
  qed (use mv in \<open>auto dest!: spec [of _ "\<lambda>u' _. u' = u"]\<close>)
  moreover have "room_left (PerChannelDefaultCap c) n (channel_load i q) (channel_claims i (us @ (r, pc') # vs))" for i
  proof (rule claims_step [OF channel_claims_def _ len])
    show "room_left (PerChannelDefaultCap c) n (channel_load i p) (channel_claims i (us @ (r, pc) # vs))"
      using move.prems by (simp add: caps_inv_def)
  qed (use mv in \<open>auto dest!: spec [of _ "\<lambda>_ i'. i' = i"]\<close>)
  ultimately show ?case using len by (simp add: caps_inv_def)
next
  case (leave p us r resp vs)
  then show ?case by (simp add: caps_inv_def user_claims_def channel_claims_def sql_count_Cons)
next
  case (other op p ts)
  have "\<forall>P. pload P (sys_step c op p) \<le> pload P p"
    using other.hyps load_falls.RP_serve load_falls.R_exec mint_free_store
    by (cases op) force+
  then have falls: "pload P (sys_step c op p) + cs \<le> pload P p + cs" for P cs by simp
  have inv: "length ts \<le> n"
    "room_left (PerUserStreamCap c) n (user_load u p) (user_claims u ts)"
    "room_left (PerChannelDefaultCap c) n (channel_load i p) (channel_claims i ts)" for u i
    using other.prems by (simp_all add: caps_inv_def)
  show ?case
    unfolding caps_inv_def fst_conv snd_conv
    by (intro conjI allI inv(1) room_left_mono [OF inv(2) falls] room_left_mono [OF inv(3) falls])
qed

lemma caps_inv_reach:
  assumes "mint_reach c n p0 y" "within_caps c (wdb (px_world p0))" "0 < n"
  shows "caps_inv c n y"
  using assms(1)
proof (induction rule: mint_reach.induct)
  case mint_start
  have "room_left m n (pload P p0) 0" if "m \<le> 0 \<or> pload P p0 \<le> m" for m P
    using that assms(3) by (auto simp: room_left_def)
  with assms(2) show ?case
    by (auto simp: caps_inv_def within_caps_def user_claims_def channel_claims_def sql_count_def)
next
  case (mint_next y z)
  from caps_inv_step [OF mint_next.hyps(2) mint_next.IH] show ?case .
qed

lemma claims_nonneg: "0 \<le> user_claims u ts" "0 \<le> channel_claims i ts"
  by (simp_all add: user_claims_def channel_claims_def sql_count_def)

text \<open>
  Property C10: the caps under concurrency. If no user and no channel is over its cap, and then
  never more than \<open>n\<close> session requests are in flight at a time, their statements interleaved in
  any order with each other and with whatever else the plugin does, then no user and no channel
  ever has more than its cap plus \<open>n - 1\<close> active sessions.
\<close>

theorem caps_concurrent:
  assumes "mint_reach c n p (q, ts)" "within_caps c (wdb (px_world p))" "0 < n"
  shows "(0 < PerUserStreamCap c \<longrightarrow> user_load u q \<le> PerUserStreamCap c + int n - 1) \<and>
    (0 < PerChannelDefaultCap c \<longrightarrow> channel_load i q \<le> PerChannelDefaultCap c + int n - 1)"
proof -
  have "room_left (PerUserStreamCap c) n (user_load u q) (user_claims u ts)"
    "room_left (PerChannelDefaultCap c) n (channel_load i q) (channel_claims i ts)"
    using caps_inv_reach [OF assms] by (simp_all add: caps_inv_def)
  moreover have "0 \<le> user_claims u ts" "0 \<le> channel_claims i ts" by (rule claims_nonneg)+
  ultimately show ?thesis by (auto simp: room_left_def)
qed

section \<open>The bound is reached\<close>

lemma reach_moves:
  "mint_reach c n p0 (p, us @ (r, pc) # vs) \<Longrightarrow> mint_steps k c r pc p = (pc', q) \<Longrightarrow>
   mint_reach c n p0 (q, us @ (r, pc') # vs)"
proof (induction k arbitrary: pc p)
  case (Suc k)
  obtain pc1 p1 where s: "mint_step c r pc p = (pc1, p1)" by (cases "mint_step c r pc p")
  from mint_next [OF Suc.prems(1) move [OF s]] have "mint_reach c n p0 (p1, us @ (r, pc1) # vs)" .
  with Suc.IH Suc.prems(2) s show ?case by simp
qed simp

text \<open>A database on which no call fails and which has the channel.\<close>

definition quiet :: "string \<Rightarrow> channel_row \<Rightarrow> proxy \<Rightarrow> bool" where
  "quiet cid row p \<longleftrightarrow> script (px_world p) = [] \<and> entropy (px_world p) = (\<lambda>_. Inr (replicate 32 (CHR ''k''))) \<and>
     ulid (px_world p) = (\<lambda>n. ''id'' @ dec_digits n) \<and> ch_ID row = cid \<and>
     find (\<lambda>r. ch_ID r = cid) (channels (wdb (px_world p))) = Some row \<and>
     eff_enabled row \<and> ch_UpstreamKind row = ''hls''"

lemma quiet_channel:
  assumes "quiet cid row p"
  shows "EffectiveEnabled (scanChannelRow False row)" "ch_UpstreamKind (scanChannelRow False row) = ''hls''"
    "cid \<in> ch_ID ` set (channels (wdb (px_world p)))"
  using assms find_set by (force simp: quiet_def scanChannelRow_def channel_row.defs)+

lemma quiet_passes:
  assumes "quiet cid row p" "rq_ctx r = live" "rq_UserID r \<noteq> []" "URLParam r ''id'' = cid" "cid \<noteq> []"
    "allow_user (rq_UserID r) p = (True, q)" "0 < PerUserStreamCap c" "0 < PerChannelDefaultCap c"
    "stream_sessions (wdb (px_world p)) = []"
  shows "mint_steps 4 c r pcStart p = (pcKind (scanChannelRow False row), q)"
proof -
  note w = allow_user_world [OF assms(6)]
  have g: "on_world (GetChannel live cid) q = (Inr (scanChannelRow False row), q)"
    by (rule on_world_eq, rule GetChannel_quiet) (use assms(1) w in \<open>auto simp: quiet_def\<close>)
  have u: "on_world (CountActiveByUser live x) q = (Inr 0, q)" "on_world (CountActiveByChannel live x) q = (Inr 0, q)" for x
    by (rule on_world_eq, use assms(1,9) w in \<open>simp add: CountActiveByUser_def CountActiveByChannel_def
        db_call_quiet sql_read_def sql_count_def quiet_def\<close>)+
  show ?thesis
    using assms quiet_channel [OF assms(1)]
    by (simp add: numeral_eq_Suc check_cap_def g u Let_def)
qed

text \<open>From there the session is inserted, however many there are by now.\<close>

lemma quiet_insert:
  assumes "script w = []" "cid \<in> ch_ID ` set (channels (wdb w))" "sid \<notin> ss_id ` set (stream_sessions (wdb w))" "sid \<noteq> []"
  obtains x where "CreateSession_row live (new_session r cid sid secret) w =
      (Inr (scanSession x), w\<lparr>wdb := (wdb w)\<lparr>stream_sessions := stream_sessions (wdb w) @ [x]\<rparr>\<rparr>)"
    "active x" "ss_user_id x = rq_UserID r" "ss_channel_id x = cid" "ss_id x = sid"
proof -
  let ?s = "(new_session r cid sid secret)\<lparr>sn_StartedAt := wnow w, sn_LastByteAt := wnow w\<rparr>"
  define x where "x = session_to_row ?s"
  have x: "active x" "ss_user_id x = rq_UserID r" "ss_channel_id x = cid" "ss_id x = sid"
    by (simp_all add: x_def session_to_row_def new_session_def active_def)
  let ?w = "w\<lparr>wdb := (wdb w)\<lparr>stream_sessions := stream_sessions (wdb w) @ [x]\<rparr>\<rparr>"
  have ins: "db_call live (insert_session x) w = (Inr (), ?w)"
    using assms x by (simp add: db_call_quiet insert_session_def)
  have "find (\<lambda>y. ss_id y = sid) (ss @ [x]) = Some x" if "sid \<notin> ss_id ` set ss" for ss
    using that x(4) by (induction ss) auto
  from this [OF assms(3)] have "find (\<lambda>y. ss_id y = sid) (stream_sessions (wdb ?w)) = Some x" by simp
  then have get: "GetSession live sid ?w = (Inr (scanSession x), ?w)"
    by (rule GetSession_quiet [rotated]) (use assms(1) in simp)
  have "CreateSession_row live (new_session r cid sid secret) w = (Inr (scanSession x), ?w)"
    using assms(4) ins get by (simp add: CreateSession_row_def new_session_def x_def Let_def is_zero_def)
  then show thesis using x by (rule that)
qed

lemma quiet_tuned:
  assumes "script w = []" "cid \<in> ch_ID ` set (channels (wdb w))"
  obtains res s where "MarkTuned live uid cid w = (res, w\<lparr>wdb := s\<rparr>)"
    "stream_sessions s = stream_sessions (wdb w)" "channels s = channels (wdb w)"
proof -
  have "\<exists>s. mark_tuned uid cid (pg_ts (wnow w)) (wdb w) = (Inr (), s) \<and>
      stream_sessions s = stream_sessions (wdb w) \<and> channels s = channels (wdb w)"
    using assms(2) by (simp add: mark_tuned_def Let_def)
  then obtain s where "mark_tuned uid cid (pg_ts (wnow w)) (wdb w) = (Inr (), s)"
    "stream_sessions s = stream_sessions (wdb w)" "channels s = channels (wdb w)" by blast
  moreover from this(1) have "MarkTuned live uid cid w = (Inr (), w\<lparr>wdb := s\<rparr>)"
    using assms(1) by (simp add: MarkTuned_def db_call_quiet)
  ultimately show thesis using that by blast
qed

lemma quiet_mints:
  assumes "quiet cid row p" "rq_ctx r = live" "URLParam r ''id'' = cid"
    "''id'' @ dec_digits (ulid_next (px_world p)) \<notin> ss_id ` set (stream_sessions (wdb (px_world p)))"
  obtains resp q x where "mint_steps 2 c r (pcKind (scanChannelRow False row)) p = (pcDone resp, q)" "quiet cid row q"
    "stream_sessions (wdb (px_world q)) = stream_sessions (wdb (px_world p)) @ [x]" "active x"
    "ss_user_id x = rq_UserID r" "ss_channel_id x = cid"
    "ss_id x = ''id'' @ dec_digits (ulid_next (px_world p))" "ulid_next (px_world q) = Suc (ulid_next (px_world p))"
proof -
  let ?ch = "scanChannelRow False row" and ?w = "px_world p"
  let ?v = "?w\<lparr>entropy_next := Suc (entropy_next ?w), ulid_next := Suc (ulid_next ?w)\<rparr>"
  define sid where "sid = ''id'' @ dec_digits (ulid_next ?w)"
  define key where "key = replicate 32 (CHR ''k'')"
  have k: "on_world (resolve_kind live cid ?ch) p = (''hls'', p)"
    by (rule on_world_eq) (simp add: resolve_kind_def quiet_channel(2) [OF assms(1)])
  have v: "script ?v = []" "cid \<in> ch_ID ` set (channels (wdb ?v))" "sid \<notin> ss_id ` set (stream_sessions (wdb ?v))"
    using assms quiet_channel(3) [OF assms(1)] by (simp_all add: quiet_def sid_def)
  obtain x where x: "CreateSession_row live (new_session r cid sid key) ?v =
      (Inr (scanSession x), ?v\<lparr>wdb := (wdb ?v)\<lparr>stream_sessions := stream_sessions (wdb ?v) @ [x]\<rparr>\<rparr>)" (is "_ = (_, ?u)")
    "active x" "ss_user_id x = rq_UserID r" "ss_channel_id x = cid" "ss_id x = sid"
    by (rule quiet_insert [OF v]) (auto simp: sid_def)
  have u: "script ?u = []" "cid \<in> ch_ID ` set (channels (wdb ?u))" using v by simp_all
  obtain res s where s: "MarkTuned live (rq_UserID r) cid ?u = (res, ?u\<lparr>wdb := s\<rparr>)"
    "stream_sessions s = stream_sessions (wdb ?u)" "channels s = channels (wdb ?u)"
    by (rule quiet_tuned [OF u])
  have e: "rand_Read ?w = (Inr key, ?w\<lparr>entropy_next := Suc (entropy_next ?w)\<rparr>)"
    "newULID (?w\<lparr>entropy_next := Suc (entropy_next ?w)\<rparr>) = (sid, ?v)"
    using assms(1) by (simp_all add: rand_Read_def newULID_def quiet_def sid_def key_def)
  have "snd (mint_session c r cid ''hls'' p) = p\<lparr>px_world := ?u\<lparr>wdb := s\<rparr>\<rparr>"
    using assms(2) by (simp add: mint_session_def on_world_def e x(1) s(1) [simplified])
  then obtain resp where "mint_session c r cid ''hls'' p = (resp, p\<lparr>px_world := ?u\<lparr>wdb := s\<rparr>\<rparr>)"
    by (metis prod.collapse)
  then have "mint_steps 2 c r (pcKind ?ch) p = (pcDone resp, p\<lparr>px_world := ?u\<lparr>wdb := s\<rparr>\<rparr>)"
    using assms(2,3) k by (simp add: numeral_eq_Suc)
  moreover have "quiet cid row (p\<lparr>px_world := ?u\<lparr>wdb := s\<rparr>\<rparr>)"
    using assms(1) s(3) by (simp add: quiet_def)
  ultimately show thesis
    by (rule that [of _ _ x]) (use s(2) x in \<open>simp_all add: sid_def\<close>)
qed

text \<open>Two requests of one user for one channel, both past the caps before either inserts its row.\<close>

definition race_request :: request where
  "race_request = demo_request [(''id'', ''a'')] []"

lemma race_quiet: "quiet ''a'' (demo_row ''a'' ''A'' 0) (demo_proxy [])"
  by (simp add: quiet_def demo_proxy_simps demo_db_def demo_row_def eff_enabled_def)

lemma race_allowed:
  obtains p q where "allow_user ''u'' (demo_proxy []) = (True, p)" "allow_user ''u'' p = (True, q)"
proof -
  let ?d = "demo_proxy []" and ?now = "wnow (px_world (demo_proxy []))"
  let ?l = "\<lparr>rl_rate = 10, rl_burst = 10, rl_idle = minute, rl_buckets =
    [(''u'', \<lparr>tb_burst = 10, tb_rate = 10, tb_tokens = 9, tb_last = ?now\<rparr>)]\<rparr>"
  have first: "Allow ?now ''u'' (px_limiter ?d) = (True, Some ?l)"
    by (simp add: demo_proxy_def initGuards_def demo_limits_def Allow_def reapLocked_def
        newRateLimiter_def fresh_bucket_def tb_allow_def tb_refill_def tb_init_def Let_def minute_def)
  have "fst (Allow ?now ''u'' (Some ?l))"
    by (simp add: Allow_def tb_allow_def tb_refill_def tb_init_def Let_def split: prod.split)
  then obtain l where second: "Allow ?now ''u'' (Some ?l) = (True, l)"
    by (cases "Allow ?now ''u'' (Some ?l)") simp
  show thesis
    by (rule that [of "?d\<lparr>px_limiter := Some ?l\<rparr>" "?d\<lparr>px_limiter := l\<rparr>"])
      (simp_all add: allow_user_def first second)
qed

lemma race_request_simps [simp]:
  "rq_ctx race_request = live" "rq_UserID race_request = ''u''" "URLParam race_request ''id'' = ''a''"
  by (simp_all add: race_request_def demo_request_def URLParam_def)

lemma quiet_world: "px_world q = px_world p \<Longrightarrow> quiet cid row q = quiet cid row p"
  by (simp add: quiet_def)

lemma caps_race:
  "\<exists>q ts. mint_reach demo_conf 2 (demo_proxy []) (q, ts) \<and>
     user_load ''u'' q = PerUserStreamCap demo_conf + 1 \<and> channel_load ''a'' q = PerChannelDefaultCap demo_conf + 1"
proof -
  let ?r = race_request and ?row = "demo_row ''a'' ''A'' 0" and ?p = "demo_proxy []"
  let ?ch = "scanChannelRow False ?row"
  obtain p1 p2 where a: "allow_user ''u'' ?p = (True, p1)" "allow_user ''u'' p1 = (True, p2)" by (rule race_allowed)
  note w1 = allow_user_world [OF a(1)]
  note w2 = allow_user_world [OF a(2), unfolded w1]
  have quiet: "quiet ''a'' ?row p1" "quiet ''a'' ?row p2"
    by (rule quiet_world [OF w1, THEN iffD2, OF race_quiet], rule quiet_world [OF w2, THEN iffD2, OF race_quiet])
  have none: "stream_sessions (wdb (px_world ?p)) = []" "ulid_next (px_world ?p) = 0"
    by (simp_all add: demo_proxy_simps)
  have caps: "PerUserStreamCap demo_conf = 1" "PerChannelDefaultCap demo_conf = 1" by (simp_all add: demo_conf_def)
  have s1: "mint_steps 4 demo_conf ?r pcStart ?p = (pcKind ?ch, p1)"
    by (rule quiet_passes [OF race_quiet]) (simp_all add: a caps none)
  have s2: "mint_steps 4 demo_conf ?r pcStart p1 = (pcKind ?ch, p2)"
    by (rule quiet_passes [OF quiet(1)]) (simp_all add: a caps none w1)
  have f2: "''id'' @ dec_digits (ulid_next (px_world p2)) \<notin> ss_id ` set (stream_sessions (wdb (px_world p2)))"
    by (simp add: w2 none)
  obtain resp3 p3 x where s3: "mint_steps 2 demo_conf ?r (pcKind ?ch) p2 = (pcDone resp3, p3)" "quiet ''a'' ?row p3"
    "stream_sessions (wdb (px_world p3)) = stream_sessions (wdb (px_world p2)) @ [x]" "active x"
    "ss_user_id x = rq_UserID ?r" "ss_channel_id x = ''a''"
    "ss_id x = ''id'' @ dec_digits (ulid_next (px_world p2))" "ulid_next (px_world p3) = Suc (ulid_next (px_world p2))"
    by (rule quiet_mints [OF quiet(2) race_request_simps(1,3) f2])
  have f3: "''id'' @ dec_digits (ulid_next (px_world p3)) \<notin> ss_id ` set (stream_sessions (wdb (px_world p3)))"
    by (simp add: s3 w2 none dec_digits.simps)
  obtain resp4 p4 y where s4: "mint_steps 2 demo_conf ?r (pcKind ?ch) p3 = (pcDone resp4, p4)" "quiet ''a'' ?row p4"
    "stream_sessions (wdb (px_world p4)) = stream_sessions (wdb (px_world p3)) @ [y]" "active y"
    "ss_user_id y = rq_UserID ?r" "ss_channel_id y = ''a''"
    "ss_id y = ''id'' @ dec_digits (ulid_next (px_world p3))" "ulid_next (px_world p4) = Suc (ulid_next (px_world p3))"
    by (rule quiet_mints [OF s3(2) race_request_simps(1,3) f3])
  let ?reach = "mint_reach demo_conf 2 ?p"
  have "?reach (?p, [(?r, pcStart)])"
    by (rule mint_next [OF mint_start arrive]) simp
  then have "?reach (?p, [(?r, pcStart), (?r, pcStart)])"
    by (rule mint_next) (rule arrive, simp)
  from reach_moves [where us = "[]", simplified, OF this s1]
  have "?reach (p1, [(?r, pcKind ?ch)] @ (?r, pcStart) # [])" by simp
  from reach_moves [OF this s2]
  have "?reach (p2, [(?r, pcKind ?ch), (?r, pcKind ?ch)])" by simp
  from reach_moves [where us = "[]", simplified, OF this s3(1)]
  have "?reach (p3, [(?r, pcDone resp3)] @ (?r, pcKind ?ch) # [])" by simp
  from reach_moves [OF this s4(1)]
  have "?reach (p4, [(?r, pcDone resp3), (?r, pcDone resp4)])" by simp
  moreover have "stream_sessions (wdb (px_world p4)) = [x, y]" using s4(3) s3(3) none(1) w2 by simp
  then have "user_load ''u'' p4 = 2" "channel_load ''a'' p4 = 2"
    using s3(4-6) s4(4-6) by (simp_all add: load_def sql_count_def)
  ultimately show ?thesis using caps by auto
qed

text \<open>The bound at work, and reached: two requests at a time, a cap of one, two sessions.\<close>

theorem caps_concurrent_witness:
  "\<exists>q ts. mint_reach demo_conf 2 (demo_proxy []) (q, ts) \<and>
     user_load ''u'' q = PerUserStreamCap demo_conf + 1 \<and>
     (0 < PerUserStreamCap demo_conf \<longrightarrow> user_load ''u'' q \<le> PerUserStreamCap demo_conf + int 2 - 1)"
proof -
  have "within_caps demo_conf (wdb (px_world (demo_proxy [])))"
    by (simp add: within_caps_def demo_conf_def load_def sql_count_def demo_proxy_simps)
  then have "mint_reach demo_conf 2 (demo_proxy []) (q, ts) \<Longrightarrow>
      0 < PerUserStreamCap demo_conf \<longrightarrow> user_load ''u'' q \<le> PerUserStreamCap demo_conf + int 2 - 1" for q ts
    using caps_concurrent [of demo_conf 2 "demo_proxy []" q ts "''u''" "''a''"] by simp
  with caps_race show ?thesis by blast
qed

end
