(* ===== verification/RefreshSources.thy ===== *)
theory RefreshSources
  imports RefreshXMLTV
begin

text \<open>
  \<open>RefreshAll\<close> of \<open>src/internal/refresh/m3u.go\<close> as a whole: every enabled source gets its own refresh,
  whatever became of the others, and none of them disturbs what another one offers.
\<close>

text \<open>What one source offers, under refreshes of the others.\<close>

interpretation aside: refresh_relation "\<lambda>s s'. catalogue s' sid = catalogue s sid" "\<lambda>i. i \<noteq> sid" for sid
proof (unfold_locales, goal_cases)
  case (3 cid ch kind now s d s')
  then show ?case using upsert_catalogue [OF 3(2)] by simp
next
  case (4 i seen now s a s')
  then show ?case using missing_catalogue [OF 4(2)] by simp
qed (auto simp: auto_link_def Let_def update_m3u_def update_xmltv_def delete_programs_def
    copy_programs_def split: if_splits)

lemma refresh_each_append:
  "refresh_each one (xs @ ys) w =
     (let (es, v) = refresh_each one xs w; (es', v') = refresh_each one ys v in (es @ es', v'))"
  by (induction xs arbitrary: w) (auto simp: Let_def split: prod.split sum.split)

lemma refresh_each_split:
  assumes "refresh_each one (xs @ x # ys) w = (es, w')" "src_Enabled x"
  obtains es1 v r v' es2 where "refresh_each one xs w = (es1, v)" "one (src_ID x) v = (r, v')"
    "refresh_each one ys v' = (es2, w')"
    "es = es1 @ (case r of Inl e \<Rightarrow> [wrapf (''source '' @ src_ID x) e] | Inr _ \<Rightarrow> []) @ es2"
proof -
  obtain es1 v where 1: "refresh_each one xs w = (es1, v)" by (cases "refresh_each one xs w")
  obtain r v' where 2: "one (src_ID x) v = (r, v')" by (cases "one (src_ID x) v")
  obtain es2 u where 3: "refresh_each one ys v' = (es2, u)" by (cases "refresh_each one ys v'")
  have "es = es1 @ (case r of Inl e \<Rightarrow> [wrapf (''source '' @ src_ID x) e] | Inr _ \<Rightarrow> []) @ es2 \<and> u = w'"
    using assms 1 2 3 by (auto simp: refresh_each_append split: sum.splits)
  with 1 2 3 that show thesis by blast
qed

text \<open>The result of the refresh of \<open>x\<close> in a run over \<open>srcs\<close> that starts in \<open>w\<close>.\<close>

definition run_of :: "(string \<Rightarrow> world \<Rightarrow> (err + unit) \<times> world) \<Rightarrow> M3USource list \<Rightarrow> world \<Rightarrow> M3USource \<Rightarrow> err + unit" where
  "run_of one srcs w x = fst (one (src_ID x) (snd (refresh_each one (takeWhile (\<lambda>y. y \<noteq> x) srcs) w)))"

lemma takeWhile_before: "distinct (xs @ x # ys) \<Longrightarrow> takeWhile (\<lambda>y. y \<noteq> x) (xs @ x # ys) = xs"
  by (induction xs) auto

lemma refresh_each_failed:
  "refresh_each one srcs w = (es, w') \<Longrightarrow> es \<noteq> [] \<Longrightarrow>
   \<exists>xs x ys e v v'. srcs = xs @ x # ys \<and> src_Enabled x \<and> snd (refresh_each one xs w) = v \<and> one (src_ID x) v = (Inl e, v')"
proof (induction srcs arbitrary: w es)
  case (Cons y srcs)
  show ?case
  proof (cases "src_Enabled y \<and> (\<exists>e. fst (one (src_ID y) w) = Inl e)")
    case True
    then have "\<exists>e v'. one (src_ID y) w = (Inl e, v')" by (metis prod.collapse)
    with True show ?thesis by (intro exI [of _ "[]"]) auto
  next
    case False
    obtain r v where o: "one (src_ID y) w = (r, v)" by (cases "one (src_ID y) w")
    define u where "u = (if src_Enabled y then v else w)"
    have u: "snd (refresh_each one (y # xs) w) = snd (refresh_each one xs u)" for xs
      using o by (simp add: u_def Let_def split: sum.split prod.split)
    have "refresh_each one srcs u = (es, w')"
      using Cons.prems(1) False o by (cases r) (auto simp: u_def split: if_splits)
    from Cons.IH [OF this Cons.prems(2)] obtain xs x ys e v v' where x:
      "srcs = xs @ x # ys" "src_Enabled x" "snd (refresh_each one xs u) = v" "one (src_ID x) v = (Inl e, v')" by blast
    have "y # srcs = (y # xs) @ x # ys" "snd (refresh_each one (y # xs) w) = v" using x(1,3) u by simp_all
    with x(2,4) show ?thesis by blast
  qed
qed simp

lemma refresh_each_result:
  assumes "refresh_each one srcs w = (es, w')" "distinct srcs"
  shows "es = [] \<longleftrightarrow> (\<forall>x \<in> set srcs. src_Enabled x \<longrightarrow> run_of one srcs w x = Inr ())"
proof
  assume es: "es = []"
  show "\<forall>x \<in> set srcs. src_Enabled x \<longrightarrow> run_of one srcs w x = Inr ()"
  proof (intro ballI impI)
    fix x
    assume x: "x \<in> set srcs" and "src_Enabled x"
    obtain xs ys where srcs: "srcs = xs @ x # ys" using split_list [OF x] by blast
    have before: "takeWhile (\<lambda>y. y \<noteq> x) srcs = xs" using takeWhile_before assms(2) by (simp only: srcs)
    obtain es1 v r v' es2 where "refresh_each one xs w = (es1, v)" "one (src_ID x) v = (r, v')"
        "es = es1 @ (case r of Inl e \<Rightarrow> [wrapf (''source '' @ src_ID x) e] | Inr _ \<Rightarrow> []) @ es2"
      by (rule refresh_each_split [OF assms(1) [unfolded srcs] \<open>src_Enabled x\<close>])
    with es before show "run_of one srcs w x = Inr ()" by (cases r) (auto simp: run_of_def)
  qed
next
  assume all: "\<forall>x \<in> set srcs. src_Enabled x \<longrightarrow> run_of one srcs w x = Inr ()"
  show "es = []"
  proof (rule ccontr)
    assume "es \<noteq> []"
    from refresh_each_failed [OF assms(1) this] obtain xs x ys e v v' where
      "srcs = xs @ x # ys" "src_Enabled x" "snd (refresh_each one xs w) = v" "one (src_ID x) v = (Inl e, v')" by blast
    moreover have "takeWhile (\<lambda>y. y \<noteq> x) srcs = xs"
      using takeWhile_before [of xs x ys] assms(2) calculation(1) by simp
    ultimately show False using all by (auto simp: run_of_def)
  qed
qed

lemma aside_each:
  assumes "sid \<notin> src_ID ` set xs" "refresh_each (M3U_RefreshOne ctx) xs w = (es, v)"
  shows "catalogue (wdb v) sid = catalogue (wdb w) sid"
proof -
  have "catalogue (wdb (snd (refresh_each (M3U_RefreshOne ctx) xs w))) sid = catalogue (wdb w) sid"
    by (rule aside.R_refresh_each, rule aside.R_M3U_RefreshOne) (use assms(1) in auto)
  with assms(2) show ?thesis by simp
qed

lemma ListM3USources_ids:
  assumes "ListM3USources ctx w = (Inr srcs, v)" "distinct (map sr_id (m3u_sources (wdb w)))"
  shows "distinct (map src_ID srcs)" "wdb v = wdb w"
proof -
  have ids: "map src_ID (map scanM3USource xs) = map sr_id xs" for xs
    by (induction xs) (simp_all add: scanM3USource_def)
  have "srcs = map scanM3USource (sort_key (\<lambda>r. pg_coll (wdb w) (sr_name r)) (m3u_sources (wdb w))) \<and> wdb v = wdb w"
    using assms(1) by (auto simp: ListM3USources_def wrap_err_Inr db_call_def sql_read_def Let_def
        split: if_splits option.splits prod.splits list.splits)
  with assms(2) show "distinct (map src_ID srcs)" "wdb v = wdb w"
    by (auto simp only: ids distinct_map distinct_sort set_sort)
qed



end
