(* ===== verification/IdleReaper.thy ===== *)
theory IdleReaper
  imports SettingsForm
begin

text \<open>
  The scheduled task that ends idle sessions, from the task key the host sends through the
  settings snapshot and the store to what it means for the streams.
\<close>

text \<open>The host prefixes the capability id; everything up to the last colon goes.\<close>

lemma taskID_host:
  "CHR '':'' \<notin> set t \<Longrightarrow> taskID (x @ CHR '':'' # t) = t" "CHR '':'' \<notin> set t \<Longrightarrow> taskID t = t"
  by (simp_all add: taskID_def last_index_byte_append last_index_byte_None [THEN iffD2])

definition reaped :: "time \<Rightarrow> time \<Rightarrow> session_row \<Rightarrow> session_row" where
  "reaped cutoff now r =
     (if active r \<and> ss_last_byte_at r < pg_ts cutoff
      then r\<lparr>ss_ended_at := Some now, ss_end_reason := ''idle''\<rparr> else r)"

lemma store_ReapIdle_result:
  assumes "store_ReapIdle ctx cutoff w = (x, w')"
  shows "case x of Inl e \<Rightarrow> wdb w' = wdb w
    | Inr ids \<Rightarrow> \<exists>now. wdb w' = (wdb w)\<lparr>stream_sessions := map (reaped cutoff now) (stream_sessions (wdb w))\<rparr>"
proof -
  obtain a v where d: "db_call ctx (reap_idle cutoff) w = (a, v)" by (cases "db_call ctx (reap_idle cutoff) w")
  have w': "w' = v" using assms d by (cases a) (auto simp: store_ReapIdle_def)
  have upd: "sql_update (idle cutoff) (\<lambda>r. r\<lparr>ss_ended_at := Some now, ss_end_reason := ''idle''\<rparr>) rs =
      map (reaped cutoff now) rs" for now rs
    by (simp add: sql_update_def reaped_def idle_def)
  show ?thesis
  proof (cases a)
    case (Inl e)
    with db_call_wdb [OF d] assms d w' show ?thesis by (auto simp: store_ReapIdle_def)
  next
    case (Inr ids)
    with d obtain now where "reap_idle cutoff now (wdb w) = (Inr ids, wdb v)" by (blast dest: db_call_Inr_stmt)
    then have "wdb w' = (wdb w)\<lparr>stream_sessions := map (reaped cutoff now) (stream_sessions (wdb w))\<rparr>"
      using w' upd by (simp add: reap_idle_def)
    with assms d Inr show ?thesis by (auto simp: store_ReapIdle_def)
  qed
qed

text \<open>
  Property C40: the idle timeout of the settings is what ends sessions. When the host fires the
  reaper task and the settings in force are \<open>v\<close>, either the statement fails and nothing changes, or
  exactly the active sessions whose last byte is older than \<open>v\<close>'s timeout are ended as idle, no other
  column of any table changes, and from then on every token that still opens a stream belongs to a
  session that moved a byte within the timeout.
\<close>

theorem reaper_cuts_idle:
  assumes "in_force v s" "taskID key = ''reap_idle_sessions''"
    "on_store (Run (Some (scheduled gunzip uni ord (sv_snap s))) ctx key) s = (x, t)"
  shows "let cutoff = wnow (sv_world s) - sg_SessionIdleTimeout v in
    case x of Inl e \<Rightarrow> wdb (sv_world t) = wdb (sv_world s)
    | Inr _ \<Rightarrow> (\<exists>now. wdb (sv_world t) =
          (wdb (sv_world s))\<lparr>stream_sessions := map (reaped cutoff now) (stream_sessions (wdb (sv_world s)))\<rparr>) \<and>
        (\<forall>route r row. row \<in> set (stream_sessions (wdb (sv_world t))) \<and> authorised route r row \<longrightarrow>
          pg_ts cutoff \<le> ss_last_byte_at row)"
proof -
  let ?cutoff = "wnow (sv_world s) - sg_SessionIdleTimeout v"
  have timeout: "snap_SessionIdleTimeout (sv_snap s) = sg_SessionIdleTimeout v"
    using assms(1) by (simp add: in_force_def snap_defs values_of_def)
  have run: "Run (Some (scheduled gunzip uni ord (sv_snap s))) ctx key = ReapIdle ctx (sg_SessionIdleTimeout v)"
    using assms(2) by (simp add: Run_def fun_eq_iff run_worker_def scheduled_def SnapshotReaper_def timeout)
  obtain y w where y: "store_ReapIdle ctx ?cutoff (sv_world s) = (y, w)" by (rule prod.exhaust)
  have t: "sv_world t = w" "x = map_sum id (\<lambda>_. ()) y"
    using sv_on_store [of "ReapIdle ctx (sg_SessionIdleTimeout v)" s] assms(3) y
    by (cases y; simp add: run ReapIdle_def)+
  show ?thesis
  proof (cases y)
    case (Inl e)
    with store_ReapIdle_result [OF y] t show ?thesis by simp
  next
    case (Inr ids)
    with store_ReapIdle_result [OF y] t obtain now where now: "wdb (sv_world t) =
        (wdb (sv_world s))\<lparr>stream_sessions := map (reaped ?cutoff now) (stream_sessions (wdb (sv_world s)))\<rparr>" by auto
    have "pg_ts ?cutoff \<le> ss_last_byte_at row"
      if "row \<in> set (stream_sessions (wdb (sv_world t)))" "active row" for row
      using that by (auto simp: now reaped_def active_def split: if_splits)
    with now Inr t(2) show ?thesis by (auto simp: Let_def authorised_def)
  qed
qed

text \<open>A server ten hours on, with a session that has been silent all along.\<close>

definition idle_server :: server where
  "idle_server = \<lparr>sv_proxy = initGuards demo_limits (demo_world\<lparr>wnow := 10 * hour,
       wdb := demo_db\<lparr>settings := Some (settings_to_row demo_settings), stream_sessions := [demo_session]\<rparr>\<rparr>),
     sv_snap = \<lparr>sp_store = True, sp_values = values_of (scan_settings (settings_to_row demo_settings))\<rparr>,
     sv_guide = None, sv_audit = [], sv_jobs = []\<rparr>"

abbreviation host_key :: string where
  "host_key \<equiv> ''plugin:7'' @ CHR '':'' # ''reap_idle_sessions''"

lemma host_key_task: "taskID host_key = ''reap_idle_sessions''"
  by (rule taskID_host) simp

lemma idle_world: "script (sv_world idle_server) = []" "wnow (sv_world idle_server) = 10 * hour"
  "stream_sessions (wdb (sv_world idle_server)) = [demo_session]"
  "settings (wdb (sv_world idle_server)) = Some (settings_to_row demo_settings)"
  by (simp_all add: sv_world_def idle_server_def initGuards_def demo_world_def)

theorem reaper_cuts_idle_witness:
  "map (\<lambda>r. (active r, ss_end_reason r)) (stream_sessions (wdb (sv_world
     (snd (on_store (Run (Some (scheduled Inr (\<lambda>s. False) (\<lambda>x. x) (sv_snap idle_server))) live host_key) idle_server))))) =
   [(False, ''idle'')]"
proof -
  define v where "v = scan_settings (settings_to_row demo_settings)"
  have force: "in_force v idle_server"
    by (simp add: in_force_def idle_world v_def) (simp add: idle_server_def)
  have timeout: "snap_SessionIdleTimeout (sv_snap idle_server) = 1500000"
    by (simp add: idle_server_def snap_defs values_of_def scan_settings_def settings_to_row_def demo_settings_def
        stored_micros in_int64_def micros_def)
  have v: "sg_SessionIdleTimeout v = 1500000"
    using force timeout by (simp add: in_force_def snap_defs values_of_def)
  let ?f = "Run (Some (scheduled Inr (\<lambda>s. False) (\<lambda>x. x) (sv_snap idle_server))) live host_key"
  obtain x t where x: "on_store ?f idle_server = (x, t)" by (rule prod.exhaust)
  have "fst (?f (sv_world idle_server)) = Inr ()"
    by (simp add: Run_def host_key_task run_worker_def scheduled_def SnapshotReaper_def ReapIdle_def
        store_ReapIdle_def db_call_quiet idle_world reap_idle_def Let_def del: append_Cons append_Nil)
  then have "x = Inr ()" using sv_on_store(2) [of ?f idle_server] x by simp
  with reaper_cuts_idle [OF force host_key_task x] obtain now where
    "stream_sessions (wdb (sv_world t)) = [reaped (10 * hour - 1500000) now demo_session]"
    by (auto simp: Let_def idle_world v)
  then have "map (\<lambda>r. (active r, ss_end_reason r)) (stream_sessions (wdb (sv_world t))) = [(False, ''idle'')]"
    by (simp add: reaped_def active_def demo_session_def pg_ts_def hour_def minute_def)
  then show ?thesis unfolding x by simp
qed

end
