(* ===== verification/Startup.thy ===== *)
theory Startup
  imports ServerSafety
begin

text \<open>
  How the plugin starts: \<open>src/cmd/silo-plugin-livetv/main.go\<close>, the migrations of
  \<open>src/internal/migrate/runner.go\<close>, the runtime capability of \<open>src/internal/runtime/runtime.go\<close>, and the
  server for browser tests in \<open>src/cmd/livetv-e2e-server/main.go\<close>. What they call and the repository does
  not contain is an argument: \<open>getenv\<close> (\<open>[]\<close> for an unset variable), \<open>parseFloat\<close> (a \<open>float64\<close> is the
  rational number it stands for), the manifest parser of the SDK, the running binary, golang-migrate,
  the connection pool, the listener and the multiplexer of \<open>net/http\<close>. Serving itself is \<open>host_run\<close>.
\<close>

section \<open>The environment\<close>

definition envDuration :: "(string \<Rightarrow> string) \<Rightarrow> string \<Rightarrow> duration \<Rightarrow> duration" where
  "envDuration getenv key dflt =
     (let v = getenv key in
      if v = [] then dflt else case ParseDuration v of Inl _ \<Rightarrow> dflt | Inr d \<Rightarrow> d)"

definition envInt :: "(string \<Rightarrow> string) \<Rightarrow> string \<Rightarrow> int \<Rightarrow> int" where
  "envInt getenv key dflt =
     (let v = getenv key in
      if v = [] then dflt else case atoi v of None \<Rightarrow> dflt | Some n \<Rightarrow> n)"

definition envFloat :: "(string \<Rightarrow> rat option) \<Rightarrow> (string \<Rightarrow> string) \<Rightarrow> string \<Rightarrow> rat \<Rightarrow> rat" where
  "envFloat parseFloat getenv key dflt =
     (let v = getenv key in
      if v = [] then dflt else case parseFloat v of None \<Rightarrow> dflt | Some f \<Rightarrow> f)"

definition main_limits :: "(string \<Rightarrow> rat option) \<Rightarrow> (string \<Rightarrow> string) \<Rightarrow> Limits" where
  "main_limits parseFloat getenv =
     \<lparr>PlaylistCacheTTL = envDuration getenv ''PLUGIN_CONFIG_PLAYLIST_CACHE_TTL'' (2 * second),
      GlobalStreamCap = envInt getenv ''PLUGIN_CONFIG_GLOBAL_STREAM_CAP'' 500,
      GlobalUpstreamCap = envInt getenv ''PLUGIN_CONFIG_GLOBAL_UPSTREAM_CAP'' 500,
      PerUserRatePerSec = envFloat parseFloat getenv ''PLUGIN_CONFIG_PER_USER_RATE_PER_SEC'' 10,
      PerUserBurst = envFloat parseFloat getenv ''PLUGIN_CONFIG_PER_USER_BURST'' 20\<rparr>"

definition main_conf :: "(string \<Rightarrow> string) \<Rightarrow> server_conf" where
  "main_conf getenv =
     \<lparr>sc_BasePath = [], sc_Stream = True, sc_StreamBasePath = [], sc_Settings = True, sc_Snapshot = True,
      sc_M3UWorker = True, sc_XMLTVWorker = True,
      sc_GuideCacheTTL = envDuration getenv ''PLUGIN_CONFIG_GUIDE_CACHE_TTL'' (5 * second)\<rparr>"

text \<open>\<open>settings.Load\<close> comes first; if it fails the process exits.\<close>

definition main_server :: "(string \<Rightarrow> rat option) \<Rightarrow> (string \<Rightarrow> string) \<Rightarrow> world \<Rightarrow> err + server" where
  "main_server parseFloat getenv w =
     (case Load live w of
        (Inl e, _) \<Rightarrow> Inl e
      | (Inr snap, w) \<Rightarrow>
          Inr \<lparr>sv_proxy = initGuards (main_limits parseFloat getenv) w, sv_snap = snap, sv_guide = None,
            sv_audit = [], sv_jobs = []\<rparr>)"

text \<open>
  The server starts on the database as it is, with both semaphores free and a snapshot that reloads:
  what the properties of the server and the proxy ask of the state they begin in.
\<close>

lemma main_server_ready:
  assumes "main_server parseFloat getenv w = Inr s"
  shows "wdb (sv_world s) = wdb w" "sem_ok (px_stream (sv_proxy s))" "sem_ok (px_upstream (sv_proxy s))"
    "sp_store (sv_snap s)" "map_option scan_settings (settings (wdb w)) = Some v \<Longrightarrow> sp_values (sv_snap s) = values_of v"
proof -
  obtain x w1 where g: "GetSettings live w = (x, w1)" by (rule prod.exhaust)
  with assms obtain u where x: "x = Inr u" by (cases x) (auto simp: main_server_def Load_def Reload_def)
  from g x have "db_call live (sql_row (\<lambda>now s. map_option scan_settings (settings s))) w = (Inr u, w1)"
    unfolding GetSettings_def by (metis wrap_err_Inr)
  then have u: "map_option scan_settings (settings (wdb w)) = Some u" "wdb w1 = wdb w"
    by (auto simp: db_call_def sql_row_def Let_def split: option.splits prod.splits list.splits)
  from assms g x have s: "s = \<lparr>sv_proxy = initGuards (main_limits parseFloat getenv) w1,
      sv_snap = \<lparr>sp_store = True, sp_values = values_of u\<rparr>, sv_guide = None, sv_audit = [], sv_jobs = []\<rparr>"
    by (simp add: main_server_def Load_def Reload_def Apply_def)
  show "wdb (sv_world s) = wdb w" "sem_ok (px_stream (sv_proxy s))" "sem_ok (px_upstream (sv_proxy s))"
    "sp_store (sv_snap s)" "map_option scan_settings (settings (wdb w)) = Some v \<Longrightarrow> sp_values (sv_snap s) = values_of v"
    using u by (auto simp: s sv_world_def initGuards_def sem_ok_def newSemaphore_def)
qed

section \<open>The manifest\<close>

text \<open>The fields of the SDK's manifest the code touches.\<close>

record manifest =
  mf_Checksum :: string
  mf_SupportedPlatforms :: "(string \<times> string) list"

text \<open>
  \<open>parsed\<close> is what the SDK makes of the embedded file, \<open>path\<close> the outcome of \<open>os.Executable\<close>, \<open>binary\<close>
  of reading that file, \<open>platform\<close> the constants \<open>GOOS\<close> and \<open>GOARCH\<close>.
\<close>

definition loadManifest :: "err + 'a manifest_scheme \<Rightarrow> err + string \<Rightarrow> (string \<Rightarrow> err + string) \<Rightarrow>
    string \<times> string \<Rightarrow> err + 'a manifest_scheme" where
  "loadManifest parsed path binary platform =
     (case parsed of
        Inl e \<Rightarrow> Inl (wrapf ''load embedded manifest'' e)
      | Inr m \<Rightarrow>
          (case path of
             Inl e \<Rightarrow> Inl (wrapf ''resolve executable path'' e)
           | Inr p \<Rightarrow>
               (case binary p of
                  Inl e \<Rightarrow> Inl (wrapf (''read executable '' @ go_quote p) e)
                | Inr b \<Rightarrow>
                    let m = m\<lparr>mf_Checksum := hex_EncodeToString (sha256 b)\<rparr>
                    in Inr (if mf_SupportedPlatforms m = [] then m\<lparr>mf_SupportedPlatforms := [platform]\<rparr> else m))))"

text \<open>The runtime capability: requests carry nothing the code reads.\<close>

definition GetManifest :: "'a manifest_scheme \<Rightarrow> 'req \<Rightarrow> err + 'a manifest_scheme" where
  "GetManifest m req = Inr m"

definition Configure :: "'req \<Rightarrow> err + unit" where
  "Configure req = Inr ()"

section \<open>Migrations\<close>

text \<open>The scheme of the data source name selects the driver.\<close>

definition driverDSN :: "string \<Rightarrow> string" where
  "driverDSN dsn =
     (case find (has_prefix dsn) [''postgres://'', ''postgresql://''] of
        None \<Rightarrow> dsn
      | Some p \<Rightarrow> ''pgx5://'' @ drop (length p) dsn)"

text \<open>
  golang-migrate: \<open>src\<close> is the embedded file system as a source, \<open>init\<close> opens the database, \<open>up\<close> applies
  what is missing.
\<close>

datatype up_result = UpDone | UpNoChange | UpFailed err

definition migrate_Run :: "err + 's \<Rightarrow> ('s \<Rightarrow> string \<Rightarrow> err + 'm) \<Rightarrow> ('m \<Rightarrow> world \<Rightarrow> up_result \<times> world) \<Rightarrow>
    string \<Rightarrow> world \<Rightarrow> (err + unit) \<times> world" where
  "migrate_Run src init up dsn w =
     (case src of
        Inl e \<Rightarrow> (Inl (wrapf ''load migrations'' e), w)
      | Inr s \<Rightarrow>
          (case init s (driverDSN dsn) of
             Inl e \<Rightarrow> (Inl (wrapf ''init migrate'' e), w)
           | Inr m \<Rightarrow>
               (case up m w of
                  (UpFailed e, w) \<Rightarrow> (Inl (wrapf ''apply migrations'' e), w)
                | (_, w) \<Rightarrow> (Inr (), w))))"

lemma driverDSN_scheme:
  "driverDSN (''postgres://'' @ rest) = ''pgx5://'' @ rest" "driverDSN (''postgresql://'' @ rest) = ''pgx5://'' @ rest"
  by (simp_all add: driverDSN_def has_prefix_iff)

lemma driverDSN_once: "driverDSN (driverDSN dsn) = driverDSN dsn"
  by (auto simp: driverDSN_def has_prefix_iff)

section \<open>The main program\<close>

text \<open>It ends with a message on standard error and status 1, or it serves.\<close>

datatype ('m, 's) started = Exit string | ServeManifest 'm | Serve 'm 's

definition fatal :: "string \<Rightarrow> err \<Rightarrow> ('m, 's) started" where
  "fatal p e = Exit (p @ '': '' @ emsg e @ [LF])"

text \<open>\<open>migrated\<close> is \<open>migrate_Run\<close> on its arguments, \<open>pool\<close> the error of \<open>pgxpool.New\<close>, if any.\<close>

definition main :: "err + 'a manifest_scheme \<Rightarrow> string list \<Rightarrow> (string \<Rightarrow> string) \<Rightarrow> (string \<Rightarrow> rat option) \<Rightarrow>
    (string \<Rightarrow> world \<Rightarrow> (err + unit) \<times> world) \<Rightarrow> (string \<Rightarrow> err option) \<Rightarrow> world \<Rightarrow>
    ('a manifest_scheme, server) started" where
  "main manifest args getenv parseFloat migrated pool w =
     (case manifest of
        Inl e \<Rightarrow> fatal ''load manifest'' e
      | Inr m \<Rightarrow>
          if 1 < length args \<and> args ! 1 = ''manifest'' then ServeManifest m
          else let dsn = getenv ''PLUGIN_CONFIG_DATABASE_URL'' in
          if dsn = [] then Exit (''PLUGIN_CONFIG_DATABASE_URL is required'' @ [LF])
          else case migrated dsn w of
            (Inl e, _) \<Rightarrow> fatal ''migrate'' e
          | (Inr _, w) \<Rightarrow>
              (case pool dsn of
                 Some e \<Rightarrow> fatal ''pgxpool'' e
               | None \<Rightarrow>
                   (case main_server parseFloat getenv w of
                      Inl e \<Rightarrow> fatal ''load settings snapshot'' e
                    | Inr s \<Rightarrow> Serve m s)))"

text \<open>
  If the plugin comes to serve, every step before went well, and it serves the migrated database
  under the checksum of its own binary; whatever the host does then keeps the tables sound.
\<close>

lemma main_serves:
  assumes "main manifest args getenv parseFloat migrated pool w = Serve m s"
  obtains v where "manifest = Inr m" "getenv ''PLUGIN_CONFIG_DATABASE_URL'' \<noteq> []"
    "migrated (getenv ''PLUGIN_CONFIG_DATABASE_URL'') w = (Inr (), v)" "main_server parseFloat getenv v = Inr s"
    "wdb (sv_world s) = wdb v"
proof -
  let ?dsn = "getenv ''PLUGIN_CONFIG_DATABASE_URL''"
  from assms have m: "manifest = Inr m" "?dsn \<noteq> []"
    by (auto simp: main_def fatal_def Let_def split: sum.splits if_splits prod.splits option.splits)
  from assms m(1) obtain v where v: "migrated ?dsn w = (Inr (), v)" "main_server parseFloat getenv v = Inr s"
    by (auto simp: main_def fatal_def Let_def split: sum.splits if_splits prod.splits option.splits)
  with main_server_ready(1) m that show thesis by blast
qed

lemma checksum_of_binary:
  "loadManifest parsed path binary platform = Inr m \<Longrightarrow>
   \<exists>p b. path = Inr p \<and> binary p = Inr b \<and> hex_DecodeString (mf_Checksum m) = Some (sha256 b) \<and>
     mf_SupportedPlatforms m \<noteq> []"
  by (auto simp: loadManifest_def Let_def hex_roundtrip split: sum.splits if_splits)

lemma started_sound:
  assumes "main manifest args getenv parseFloat migrated pool w = Serve m s"
    "\<And>dsn v. migrated dsn w = (Inr (), v) \<Longrightarrow> db_inv (wdb v)"
  shows "db_inv (wdb (sv_world (host_run g evs s)))"
proof -
  obtain v where "migrated (getenv ''PLUGIN_CONFIG_DATABASE_URL'') w = (Inr (), v)" "wdb (sv_world s) = wdb v"
    by (rule main_serves [OF assms(1)])
  with assms(2) integrity.RS_host_run [of s g evs] show ?thesis by simp
qed

section \<open>The server for browser tests\<close>

definition withAuthBypass :: "(string \<Rightarrow> server_handler) \<Rightarrow> string \<Rightarrow> string \<Rightarrow> server_handler" where
  "withAuthBypass next uid meth r s =
     (let h = rq_Header r;
          h = (if hdr_Get ''X-Silo-User-Id'' h = [] then hdr_Set ''X-Silo-User-Id'' uid h else h);
          h = (if hdr_Get ''X-Silo-User-Role'' h = [] then hdr_Set ''X-Silo-User-Role'' ''admin'' h else h)
      in next meth (r\<lparr>rq_Header := h\<rparr>) s)"

text \<open>The multiplexer picks one of the three patterns, or answers itself (a redirect to a clean path).\<close>

datatype mux_pattern = MuxApi | MuxHealthz | MuxPages

definition e2e_root :: "(string \<Rightarrow> response + mux_pattern) \<Rightarrow> static_files \<Rightarrow> (string \<Rightarrow> server_handler) \<Rightarrow>
    string \<Rightarrow> string \<Rightarrow> server_handler" where
  "e2e_root mux static api uid meth r s =
     (case mux (rq_Path r) of
        Inl resp \<Rightarrow> (resp, s)
      | Inr MuxApi \<Rightarrow> withAuthBypass api uid meth r s
      | Inr MuxHealthz \<Rightarrow> api meth r s
      | Inr MuxPages \<Rightarrow> (SPAHandler static (rq_Path r), s))"

definition e2e_conf :: server_conf where
  "e2e_conf =
     \<lparr>sc_BasePath = [], sc_Stream = True, sc_StreamBasePath = [], sc_Settings = True, sc_Snapshot = True,
      sc_M3UWorker = True, sc_XMLTVWorker = True, sc_GuideCacheTTL = 0\<rparr>"

definition no_limits :: Limits where
  "no_limits = \<lparr>PlaylistCacheTTL = 0, GlobalStreamCap = 0, GlobalUpstreamCap = 0,
     PerUserRatePerSec = 0, PerUserBurst = 0\<rparr>"

definition e2e_env :: "(string \<Rightarrow> string) \<Rightarrow> string \<Rightarrow> string \<Rightarrow> string" where
  "e2e_env getenv key dflt = (let v = getenv key in if v = [] then dflt else v)"

text \<open>\<open>listen\<close> binds a port of the host; what is served is the state and the user to inject.\<close>

definition e2e_main :: "(string \<Rightarrow> string) \<Rightarrow> (string \<Rightarrow> world \<Rightarrow> (err + unit) \<times> world) \<Rightarrow>
    (string \<Rightarrow> err option) \<Rightarrow> (string \<Rightarrow> err + nat) \<Rightarrow> world \<Rightarrow> (string, server) started" where
  "e2e_main getenv migrated pool listen w =
     (let dsn = getenv ''DATABASE_URL'' in
      if dsn = [] then Exit (''DATABASE_URL is required'' @ [LF])
      else case migrated dsn w of
        (Inl e, _) \<Rightarrow> fatal ''migrate'' e
      | (Inr _, w) \<Rightarrow>
          (case pool dsn of
             Some e \<Rightarrow> fatal ''pgxpool'' e
           | None \<Rightarrow>
               (case Load live w of
                  (Inl e, _) \<Rightarrow> fatal ''load settings'' e
                | (Inr snap, w) \<Rightarrow>
                    (case listen (e2e_env getenv ''E2E_LISTEN_HOST'' ''127.0.0.1'') of
                       Inl e \<Rightarrow> fatal ''listen'' e
                     | Inr port \<Rightarrow>
                         Serve (e2e_env getenv ''E2E_USER_ID'' ''e2e-user'')
                           \<lparr>sv_proxy = initGuards no_limits w, sv_snap = snap, sv_guide = None,
                             sv_audit = [], sv_jobs = []\<rparr>))))"

text \<open>Behind the bypass both middlewares let every request through, as the injected user if it has none.\<close>

lemma bypass_admits:
  assumes "uid \<noteq> []" "hdr_Get headerRole (rq_Header r) \<in> {[], roleAdmin}"
  shows "\<exists>r'. withAuthBypass (\<lambda>meth. RequireAdmin next) uid meth r s = next r' s \<and>
    rq_UserID r' = (let u = hdr_Get headerUserID (rq_Header r) in if u = [] then uid else u)"
proof -
  have keys: "canon_key headerRole \<noteq> canon_key headerUserID" "canon_key headerUserID \<noteq> canon_key headerRole"
    by code_simp+
  note names = headerUserID_def [symmetric] headerRole_def [symmetric] roleAdmin_def [symmetric]
  show ?thesis
    using assms unfolding withAuthBypass_def names
    by (auto simp: RequireAdmin_def Let_def keys roleAdmin_def)
qed

end
