(* ===== verification/Spec2Isabelle.thy ===== *)
theory Spec2Isabelle
  imports M3u UserLimits Caches HttpGuard StoreIntegrity StreamDelivery RefreshXMLTV
    Confinement Secrets SettingsForm FavouriteOrder JsonColumns
    ConcurrentCaps RefreshSources IdleReaper Startup
begin

text \<open>
  A verification library for the live-TV plugin (the Go code under \<open>src/internal\<close>, \<open>src/web/embed.go\<close>
  and the two programs under \<open>src/cmd\<close>). This theory imports all others; each of them opens with what it
  holds.

  The program. A host process calls the plugin three ways: it hands over HTTP requests (\<open>httproutes\<close>),
  runs scheduled tasks (\<open>scheduler\<close>) and configures it at start-up. The router (\<open>server/router.go\<close>)
  sends a request to the handlers of a viewer (channels, guide, programmes, favourites, recents), of
  an administrator (sources, channels, guide links, sessions, settings), or of a stream: a viewer mints
  a session for a channel and then fetches its bytes, as one MPEG-TS body or as an HLS playlist
  whose links the proxy signs. Refresh workers fetch M3U playlists and XMLTV guides from upstream
  through guarded HTTP clients and store them. All state but the caches, the semaphores, the rate
  limiter and the settings snapshot is in PostgreSQL.

  State. The record \<open>world\<close> (\<open>Tables\<close>) is what all of it shares: the tables (\<open>db\<close>, one list of rows
  per table), the clock, the upstream servers with the requests sent so far, the sources of ULIDs and
  of random bytes, and a script that lets any database call be slow or fail. A store method maps a
  world to a result \<open>err + 'a\<close> and a world; its SQL is a list operation of type \<open>stmt\<close>. The proxy
  (\<open>StreamProxy\<close>) adds the playlist cache, the two semaphores and the rate limiter, the server (\<open>Server\<close>)
  the settings snapshot, the guide cache, the audit trail and the refreshes started in the
  background. Handlers map a request and this state to a response and the state after it; each holds
  its locks for single steps only, so concurrent use is a sequence of such steps.

  Theories, by layer.
  \<^item> \<open>Prelude\<close>: bytes, strings and lines, decimal numbers, errors. \<open>Codec\<close> (hex, base64), \<open>NetAddr\<close> and
    \<open>NetUrl\<close> (addresses, \<open>net/url\<close>), \<open>Sha256\<close>, \<open>Json\<close>, \<open>Xml\<close> (the tokenizer of \<open>encoding/xml\<close>), \<open>Dates\<close> and
    \<open>Durations\<close> (\<open>time\<close>), \<open>Http\<close>: what the code uses of Go's library, as functions on bytes, with the
    round trips the properties rest on.
  \<^item> \<open>M3u\<close>, \<open>Xmltv\<close>: the parsers \<open>m3u/parser.go\<close> and \<open>xmltv/parser.go\<close>.
  \<^item> \<open>UserLimits\<close>, \<open>Caches\<close>, \<open>HttpGuard\<close>: \<open>streamproxy/limits.go\<close>; the caches of \<open>streamproxy\<close> and \<open>server\<close>
    behind one locale \<open>fresh_cache\<close>; \<open>httpclient\<close>.
  \<^item> \<open>Tables\<close>, \<open>StoreChannels\<close>, \<open>StoreSessions\<close>, \<open>StoreSources\<close>, \<open>StorePrograms\<close>, \<open>StoreFavorites\<close>: the package
    \<open>store\<close>, with the schema its migrations define; \<open>JsonColumns\<close>: its \<open>jsonb\<close> columns.
  \<^item> \<open>StoreInvariant\<close>: the locales \<open>world_relation\<close>, \<open>refresh_relation\<close>, \<open>byte_relation\<close>, \<open>user_relation\<close> and
    \<open>db_relation\<close>. Each states as assumptions which statements a relation between two states of the
    database must contain, and proves that every method, worker or handler built from them stays
    within it; \<open>refresh_relation\<close> names the sources whose channels a refresh may touch, so that it
    also tells the refresh of one source from those of the others. \<open>StoreIntegrity\<close>, \<open>StreamCaps\<close>,
    \<open>RefreshM3U\<close>, \<open>RefreshXMLTV\<close>, \<open>ServerSafety\<close>, \<open>Confinement\<close> and \<open>RefreshSources\<close> interpret them.
  \<^item> \<open>HlsTokens\<close>, \<open>StreamProxy\<close>: the signed links and the handlers of \<open>streamproxy\<close>. \<open>StreamSafety\<close>
    (authentication, slots, upstream requests), \<open>StreamCaps\<close> (concurrency caps), \<open>StreamPlays\<close> and
    \<open>StreamDelivery\<close> (a granted session plays, a signed link delivers), \<open>StreamAccounts\<close> (byte counts,
    the end of a stream): their properties. \<open>ConcurrentCaps\<close> splits \<open>CreateSession\<close> into its calls of
    the database and interleaves those of overlapping requests in any order.
  \<^item> \<open>RefreshM3U\<close>, \<open>RefreshXMLTV\<close>: the workers of \<open>refresh\<close>, and what a refresh does to the catalogue and to
    the guide. \<open>RefreshSources\<close>: a run over all playlists as one refresh per source. \<open>Scheduler\<close>:
    \<open>scheduler\<close>; \<open>IdleReaper\<close>: what its reaper task does to the sessions and to the streams they open.
  \<^item> \<open>Settings\<close>, \<open>Wire\<close>, \<open>Masking\<close>, \<open>Server\<close>, \<open>Admin\<close>, \<open>Router\<close>, \<open>Startup\<close>: the snapshot, the JSON forms, the
    masking of credentials, all handlers of \<open>server\<close>, the route table with its middleware, the bridge of
    \<open>httproutes\<close>; the two main programs with each of their exits, the manifest and the runtime
    capability they serve, the migration runner, and the state they start with.
  \<^item> \<open>ServerSafety\<close>, \<open>Confinement\<close>, \<open>Secrets\<close>, \<open>SettingsForm\<close>, \<open>FavouriteOrder\<close>: properties of the whole
    plugin. Any sequence of requests, tasks and background refreshes keeps the integrity of the
    tables; a request without the administrator's role is confined to its user; credentials of
    sources are not disclosed; settings and favourites do what the forms say.

  Bounds and fuel. Integers of Go are \<open>int\<close> with the range checks and the wrap-around written out where
  the code can reach them (\<open>in_int64\<close>, \<open>wrap64\<close>, \<open>in_int32\<close> for \<open>int\<close> columns); the bytes of addresses
  are words. Loops are structural or have a termination proof; the one function on fuel is
  \<open>json_value\<close>, called with twice the length of its input plus one, shown to be enough (\<open>json_fuel\<close>).
  \<open>pump_rounds\<close> and \<open>walk_pages\<close> take fuel because the properties are about how many rounds there are.

  Parameters. Code that is not in the repository, or whose answers the program cannot know, is an
  argument: the upstream servers, the database failures, ULIDs and random bytes in the world;
  \<open>gunzip\<close>; Unicode tables (\<open>uni\<close>, \<open>uni_lower\<close>, \<open>pg_lower\<close>, \<open>pg_coll\<close>); the order in which Go walks a
  map (\<open>ord\<close>); the routes chi picks (\<open>chi\<close>); the built pages (\<open>static\<close>); the reads and the departure of
  the client (\<open>client\<close>); for the main programs the manifest parser of the SDK, golang-migrate, the
  connection pool, the environment, the listener and the multiplexer of \<open>net/http\<close>.

  Taken as exact: \<open>float64\<close> rates and fractions of a unit are rational numbers. Taken for granted: the
  process runs in UTC; PostgreSQL's constraints are those of the migrations; text it
  refuses (not UTF-8, or with a NUL) shows as a failing call; JSON nests less than
  10000 deep. Log lines other than the audit trail, the text of \<open>Set-Cookie\<close>, and the headers
  \<open>net/http\<close> adds on its own are left out. A statement is atomic, and so is the transaction of
  \<open>ReplaceFutureForChannel\<close>. Between two calls of one request the model admits no other request, but
  for the minting of sessions, where the order matters (\<open>ConcurrentCaps\<close>).

  Not modelled, because there is nothing to prove about it here: the handle on the connection pool
  (\<open>store/store.go\<close>), the PostgreSQL container of the tests (\<open>testutil\<close>), and the TypeScript pages.
\<close>

end
